(* ===== verification/Prelude.thy ===== *)
theory Prelude
  imports Complex_Main "HOL-Library.AList" "HOL-Library.Char_ord" "HOL-Library.List_Lexorder"
    "HOL-Library.Word" "HOL-Library.Product_Lexorder" "HOL-Library.Sublist"
    "HOL-Library.Multiset"
begin

text \<open>
  Shared vocabulary of the development: time and calendar values, the JavaScript
  operations whose semantics differ from HOL's (truncating remainder, array reads that
  yield \<open>undefined\<close>, the nullish operator \<open>??\<close>), and Dexie object stores modelled as
  association lists keyed by the primary key, with the lemmas the component theories
  share about them.
\<close>

named_theorems table_simps "equations of the Dexie table operations"
named_theorems js_simps "equations of the JavaScript helper operations"

section \<open>Time\<close>

text \<open>
  \<open>ms\<close> is a \<open>Date.getTime()\<close> value (milliseconds since the epoch); ISO-8601 strings
  written by \<open>toISOString()\<close> are modelled by the instant they denote, since for years
  0000--9999 their string order is their time order.  \<open>day\<close> is a calendar date
  (a \<open>YYYY-MM-DD\<close> string) modelled as a day number: equal strings are equal numbers,
  string order is number order, and "the day before" is \<open>d - 1\<close>.
\<close>

type_synonym ms = int
type_synonym day = int

abbreviation ms_per_day :: int where
  "ms_per_day \<equiv> 1000 * 60 * 60 * 24"

section \<open>JavaScript arithmetic and arrays\<close>

text \<open>JS \<open>a % b\<close> on integral doubles: the remainder takes the sign of the dividend.\<close>

definition js_rem :: "int \<Rightarrow> int \<Rightarrow> int" where
  "js_rem a b = sgn a * (\<bar>a\<bar> mod \<bar>b\<bar>)"

text \<open>JS \<open>xs[i]\<close>: \<open>undefined\<close> (here \<open>None\<close>) outside \<open>0 \<le> i < length\<close>.\<close>

definition js_nth :: "'a list \<Rightarrow> int \<Rightarrow> 'a option" where
  "js_nth xs i = (if 0 \<le> i \<and> i < int (length xs) then Some (xs ! nat i) else None)"

text \<open>JS \<open>u ?? v\<close> where \<open>u\<close> is an optional update: \<open>undefined\<close> keeps the old value.\<close>

definition coalesce :: "'a option \<Rightarrow> 'a \<Rightarrow> 'a" where
  "coalesce u v = (case u of None \<Rightarrow> v | Some x \<Rightarrow> x)"

definition coalesce_opt :: "'a option \<Rightarrow> 'a option \<Rightarrow> 'a option" where
  "coalesce_opt u v = (case u of None \<Rightarrow> v | Some x \<Rightarrow> Some x)"

section \<open>Dexie tables\<close>

text \<open>
  A Dexie table (an IndexedDB object store) maps each primary key to one row.  It is an
  association list with distinct keys; \<open>get\<close> is \<open>map_of\<close>, \<open>put\<close> (upsert) is
  \<open>AList.update\<close>, \<open>delete\<close> is \<open>AList.delete\<close>, \<open>count\<close> is the length, \<open>clear\<close>
  empties it.  \<open>add\<close> fails with a ConstraintError when the key exists.  \<open>toArray()\<close>
  returns the rows in ascending primary-key order (IndexedDB compares string keys code
  unit by code unit, which is the lexicographic order of \<open>List_Lexorder\<close> on ASCII).
\<close>

type_synonym 'v table = "(string \<times> 'v) list"

datatype db_error = ConstraintError

definition tbl_get :: "'v table \<Rightarrow> string \<Rightarrow> 'v option" where
  "tbl_get t k = map_of t k"

definition tbl_put :: "string \<Rightarrow> 'v \<Rightarrow> 'v table \<Rightarrow> 'v table" where
  "tbl_put k v t = AList.update k v t"

definition tbl_delete :: "string \<Rightarrow> 'v table \<Rightarrow> 'v table" where
  "tbl_delete k t = AList.delete k t"

definition tbl_count :: "'v table \<Rightarrow> nat" where
  "tbl_count t = length t"

definition tbl_add :: "string \<Rightarrow> 'v \<Rightarrow> 'v table \<Rightarrow> db_error + 'v table" where
  "tbl_add k v t = (if k \<in> fst ` set t then Inl ConstraintError else Inr (t @ [(k, v)]))"

definition tbl_values :: "'v table \<Rightarrow> 'v list" where
  "tbl_values t = map snd (sort_key fst t)"

definition tbl_ok :: "'v table \<Rightarrow> bool" where
  "tbl_ok t \<longleftrightarrow> distinct (map fst t)"

text \<open>Dexie tables have inbound keys: each row is stored under its own \<open>id\<close>.\<close>

definition tbl_keyed :: "('v \<Rightarrow> string) \<Rightarrow> 'v table \<Rightarrow> bool" where
  "tbl_keyed idf t \<longleftrightarrow> (\<forall>(k, v) \<in> set t. idf v = k)"

section \<open>Decimal strings\<close>

text \<open>
  \<open>String(n)\<close> / \<open>n.toString()\<close> for integral numbers below \<open>10^21\<close>, and
  \<open>parseInt\<close> restricted to strings of decimal digits.
\<close>

definition digit_char :: "nat \<Rightarrow> char" where
  "digit_char d = ''0123456789'' ! d"

fun dec_nat :: "nat \<Rightarrow> string" where
  "dec_nat n = (if n < 10 then [digit_char n] else dec_nat (n div 10) @ [digit_char (n mod 10)])"

definition dec_int :: "int \<Rightarrow> string" where
  "dec_int i = (if i < 0 then CHR ''-'' # dec_nat (nat (- i)) else dec_nat (nat i))"

definition is_digit :: "char \<Rightarrow> bool" where
  "is_digit c \<longleftrightarrow> CHR ''0'' \<le> c \<and> c \<le> CHR ''9''"

definition digit_val :: "char \<Rightarrow> nat" where
  "digit_val c = of_char c - 48"

definition parse_nat :: "string \<Rightarrow> nat option" where
  "parse_nat s = (if s \<noteq> [] \<and> list_all is_digit s
                  then Some (foldl (\<lambda>acc c. 10 * acc + digit_val c) 0 s) else None)"

text \<open>
  \<open>parseInt(s, 10)\<close>: leading white space skipped, an optional sign, then the longest
  prefix of decimal digits; \<open>None\<close> is \<open>NaN\<close> (no digit).  \<open>js_num_str\<close> is
  \<open>toString()\<close> of such a number, \<open>''NaN''\<close> included.
\<close>

definition is_js_space :: "char \<Rightarrow> bool" where
  "is_js_space c \<longleftrightarrow> c = CHR '' '' \<or> (CHR 0x09 \<le> c \<and> c \<le> CHR 0x0D) \<or> c = CHR 0xA0"

definition js_parseInt :: "string \<Rightarrow> int option" where
  "js_parseInt s =
     (let t = dropWhile is_js_space s;
          digits = (\<lambda>r. parse_nat (takeWhile is_digit r))
      in if t \<noteq> [] \<and> hd t = CHR ''-'' then map_option (\<lambda>n. - int n) (digits (tl t))
         else if t \<noteq> [] \<and> hd t = CHR ''+'' then map_option int (digits (tl t))
         else map_option int (digits t))"

definition js_num_str :: "int option \<Rightarrow> string" where
  "js_num_str n = (case n of None \<Rightarrow> ''NaN'' | Some i \<Rightarrow> dec_int i)"

text \<open>\<open>String.prototype.trim\<close> and \<open>String.prototype.includes\<close>.\<close>

definition js_trim :: "string \<Rightarrow> string" where
  "js_trim s = rev (dropWhile is_js_space (rev (dropWhile is_js_space s)))"

fun js_includes :: "string \<Rightarrow> string \<Rightarrow> bool" where
  "js_includes p [] \<longleftrightarrow> p = []"
| "js_includes p (c # cs) \<longleftrightarrow> take (length p) (c # cs) = p \<or> js_includes p cs"

section \<open>User feedback\<close>

text \<open>A toast of \<open>useToast().addToast\<close>: its type and title.\<close>

datatype toast_kind = Toast_success | Toast_info | Toast_error

type_synonym toast = "toast_kind \<times> string"

declare dec_nat.simps [simp del]

section \<open>Lemmas\<close>

lemma js_rem_nonneg [js_simps]: "0 \<le> a \<Longrightarrow> js_rem a b = a mod \<bar>b\<bar>"
  by (cases "a = 0") (simp_all add: js_rem_def)

lemma js_rem_neg [js_simps]: "a < 0 \<Longrightarrow> js_rem a b = - (\<bar>a\<bar> mod \<bar>b\<bar>)"
  by (simp add: js_rem_def)

lemma js_rem_bounds:
  assumes "0 \<le> a" "0 < b"
  shows "0 \<le> js_rem a b \<and> js_rem a b < b"
  using assms by (simp add: js_rem_nonneg)

lemma js_nth_Some_iff [js_simps]:
  "js_nth xs i = Some x \<longleftrightarrow> 0 \<le> i \<and> i < int (length xs) \<and> xs ! nat i = x"
  by (auto simp: js_nth_def)

lemma js_nth_None_iff [js_simps]:
  "js_nth xs i = None \<longleftrightarrow> i < 0 \<or> int (length xs) \<le> i"
  by (auto simp: js_nth_def)

lemma js_nth_in_set: "js_nth xs i = Some x \<Longrightarrow> x \<in> set xs"
  by (auto simp: js_nth_def split: if_splits intro!: nth_mem)

lemma coalesce_simps [js_simps, simp]:
  "coalesce None v = v" "coalesce (Some x) v = x"
  "coalesce_opt None w = w" "coalesce_opt (Some x) w = Some x"
  by (simp_all add: coalesce_def coalesce_opt_def)

lemma tbl_get_put [table_simps]:
  "tbl_get (tbl_put k v t) k' = (if k' = k then Some v else tbl_get t k')"
  by (simp add: tbl_get_def tbl_put_def update_conv')

lemma tbl_get_delete [table_simps]:
  "tbl_get (tbl_delete k t) k' = (if k' = k then None else tbl_get t k')"
  by (simp add: tbl_get_def tbl_delete_def delete_conv')

lemma tbl_get_empty [table_simps]: "tbl_get [] k = None"
  by (simp add: tbl_get_def)

lemma tbl_count_empty [table_simps]: "tbl_count [] = 0"
  by (simp add: tbl_count_def)

lemma tbl_ok_put [table_simps]: "tbl_ok t \<Longrightarrow> tbl_ok (tbl_put k v t)"
  by (simp add: tbl_ok_def tbl_put_def distinct_update)

lemma tbl_ok_delete [table_simps]: "tbl_ok t \<Longrightarrow> tbl_ok (tbl_delete k t)"
  by (simp add: tbl_ok_def tbl_delete_def distinct_delete)

lemma tbl_ok_empty [table_simps]: "tbl_ok []"
  by (simp add: tbl_ok_def)

lemma tbl_ok_add:
  "tbl_ok t \<Longrightarrow> tbl_add k v t = Inr t' \<Longrightarrow> tbl_ok t'"
  by (auto simp: tbl_ok_def tbl_add_def split: if_splits)

lemma tbl_add_Inr_iff:
  "tbl_add k v t = Inr t' \<longleftrightarrow> k \<notin> fst ` set t \<and> t' = t @ [(k, v)]"
  by (auto simp: tbl_add_def)

lemma tbl_get_add:
  "tbl_ok t \<Longrightarrow> tbl_add k v t = Inr t' \<Longrightarrow> tbl_get t' k = Some v"
  by (auto simp: tbl_add_def tbl_get_def map_add_def map_of_eq_None_iff [THEN iffD2]
      split: if_splits)

lemma tbl_put_present_keys:
  "fst ` set (tbl_put k v t) = insert k (fst ` set t)"
  by (simp add: tbl_put_def dom_update)

lemma set_tbl_values: "set (tbl_values t) = snd ` set t"
  by (simp add: tbl_values_def)

lemma tbl_get_in_values:
  "tbl_get t k = Some v \<Longrightarrow> v \<in> set (tbl_values t)"
  by (force simp: tbl_get_def set_tbl_values dest: map_of_SomeD)

lemma tbl_keyed_put [table_simps]:
  "tbl_keyed idf t \<Longrightarrow> idf v = k \<Longrightarrow> tbl_keyed idf (tbl_put k v t)"
  by (induction t) (auto simp: tbl_keyed_def tbl_put_def)

lemma tbl_keyed_delete [table_simps]: "tbl_keyed idf t \<Longrightarrow> tbl_keyed idf (tbl_delete k t)"
  by (auto simp: tbl_keyed_def tbl_delete_def AList.delete_eq)

lemma tbl_keyed_empty [table_simps]: "tbl_keyed idf []"
  by (simp add: tbl_keyed_def)

lemma tbl_keyed_get: "tbl_keyed idf t \<Longrightarrow> tbl_get t k = Some v \<Longrightarrow> idf v = k"
  by (auto simp: tbl_keyed_def tbl_get_def dest: map_of_SomeD)

lemma tbl_keyed_add:
  "tbl_keyed idf t \<Longrightarrow> idf v = k \<Longrightarrow> tbl_add k v t = Inr t' \<Longrightarrow> tbl_keyed idf t'"
  by (auto simp: tbl_keyed_def tbl_add_def split: if_splits)

lemma tbl_keyed_filter: "tbl_keyed idf t \<Longrightarrow> tbl_keyed idf (filter P t)"
  by (auto simp: tbl_keyed_def)

lemma fold_tbl_delete:
  "fold tbl_delete ks t = filter (\<lambda>p. fst p \<notin> set ks) t"
  by (induction ks arbitrary: t) (auto simp: tbl_delete_def AList.delete_eq intro: filter_cong)

lemma tbl_ok_sort_key: "tbl_ok t \<Longrightarrow> distinct (map fst (sort_key f t))"
  by (metis tbl_ok_def mset_eq_imp_distinct_iff mset_map mset_sort)

lemma sort_key_eq_Nil_iff [simp]: "sort_key f xs = [] \<longleftrightarrow> xs = []"
  by (metis length_0_conv length_sort)

lemma sorted_map_fst_lex:
  fixes f :: "'a \<Rightarrow> ('b::linorder \<times> 'c::linorder)"
  shows "sorted (map f xs) \<Longrightarrow> sorted (map (\<lambda>x. fst (f x)) xs)"
  by (induction xs) (auto simp: less_eq_prod_def)

text \<open>Deleting the keys of the first \<open>n\<close> rows in some order keeps exactly the rest.\<close>

lemma filter_drop_sorted_keys:
  assumes ok: "tbl_ok t"
  shows "mset (filter (\<lambda>p. fst p \<notin> fst ` set (take n (sort_key g t))) t)
           = mset (drop n (sort_key g t))"
proof -
  let ?s = "sort_key g t"
  let ?P = "\<lambda>p. fst p \<notin> fst ` set (take n ?s)"
  have d: "distinct (map fst (take n ?s) @ map fst (drop n ?s))"
    using tbl_ok_sort_key [OF ok] by (metis append_take_drop_id map_append)
  have "mset (filter ?P t) = mset (filter ?P ?s)"
    by (simp add: mset_filter)
  also have "filter ?P ?s = filter ?P (take n ?s) @ filter ?P (drop n ?s)"
    by (metis append_take_drop_id filter_append)
  also have "filter ?P (take n ?s) = []"
    by (auto simp: filter_empty_conv)
  also have "filter ?P (drop n ?s) = drop n ?s"
    using d by (auto simp: filter_id_conv)
  finally show ?thesis by simp
qed

lemma digit_char_props:
  assumes "d < 10"
  shows "is_digit (digit_char d)" "digit_val (digit_char d) = d"
proof -
  from assms have "d \<in> {0, 1, 2, 3, 4, 5, 6, 7, 8, 9}" by auto
  then show "is_digit (digit_char d)" "digit_val (digit_char d) = d"
    by (auto simp: is_digit_def digit_char_def digit_val_def less_eq_char_def)
qed

lemma dec_nat_digits: "list_all is_digit (dec_nat n) \<and> dec_nat n \<noteq> []"
proof (induction n rule: dec_nat.induct)
  case (1 n)
  then show ?case by (simp add: dec_nat.simps [of n] digit_char_props)
qed

lemma foldl_dec_nat: "foldl (\<lambda>acc c. 10 * acc + digit_val c) 0 (dec_nat n) = n"
proof (induction n rule: dec_nat.induct)
  case (1 n)
  show ?case
  proof (cases "n < 10")
    case True
    then show ?thesis by (simp add: dec_nat.simps [of n] digit_char_props)
  next
    case False
    with "1.IH" show ?thesis by (simp add: dec_nat.simps [of n] digit_char_props)
  qed
qed

lemma parse_dec_nat: "parse_nat (dec_nat n) = Some n"
  using dec_nat_digits [of n] by (simp add: parse_nat_def foldl_dec_nat)

lemma dec_nat_inj: "dec_nat m = dec_nat n \<longleftrightarrow> m = n"
  by (metis option.inject parse_dec_nat)

lemma dec_int_inj [simp]: "dec_int m = dec_int n \<longleftrightarrow> m = n"
proof
  assume eq: "dec_int m = dec_int n"
  have minus: "\<not> is_digit CHR ''-''" by (simp add: is_digit_def less_eq_char_def)
  have "\<not> (CHR ''-'' # dec_nat a = dec_nat b)" for a b
    using dec_nat_digits [of b] minus by (metis list.pred_inject(2))
  then show "m = n"
    using eq by (auto simp: dec_int_def dec_nat_inj split: if_splits dest: sym)
qed simp

lemma dec_int_not_Nil [simp]: "dec_int i \<noteq> []"
  using dec_nat_digits by (simp add: dec_int_def)

lemma dec_int_no_sep: "CHR ''_'' \<notin> set (dec_int i)"
proof -
  have "\<not> is_digit CHR ''_''" by (simp add: is_digit_def)
  then have "CHR ''_'' \<notin> set (dec_nat n)" for n
    using dec_nat_digits [of n] by (auto simp: list_all_iff)
  then show ?thesis by (simp add: dec_int_def)
qed

lemma js_parseInt_dec_int [js_simps]: "js_parseInt (dec_int i) = Some i"
proof -
  have sp: "\<not> is_js_space c" if "is_digit c \<or> c = CHR ''-''" for c
    using that by (auto simp: is_js_space_def is_digit_def less_eq_char_def)
  have sg: "\<not> is_digit CHR ''-''" "\<not> is_digit CHR ''+''"
    by (simp_all add: is_digit_def less_eq_char_def)
  have nat_case: "dropWhile is_js_space (dec_nat n) = dec_nat n
      \<and> parse_nat (takeWhile is_digit (dec_nat n)) = Some n
      \<and> hd (dec_nat n) \<noteq> CHR ''-'' \<and> hd (dec_nat n) \<noteq> CHR ''+''" for n
  proof -
    obtain c cs where cs: "dec_nat n = c # cs" using dec_nat_digits [of n] by (cases "dec_nat n") auto
    have "is_digit c" "list_all is_digit (dec_nat n)" using dec_nat_digits [of n] cs by auto
    then have tw: "takeWhile is_digit (dec_nat n) = dec_nat n"
      by (simp add: list_all_iff)
    have "parse_nat (takeWhile is_digit (dec_nat n)) = Some n"
      unfolding tw by (rule parse_dec_nat)
    moreover have "dropWhile is_js_space (dec_nat n) = dec_nat n"
      "hd (dec_nat n) \<noteq> CHR ''-''" "hd (dec_nat n) \<noteq> CHR ''+''"
      using cs sp [of c] sg \<open>is_digit c\<close> by auto
    ultimately show ?thesis by blast
  qed
  show ?thesis
  proof (cases "i < 0")
    case True
    then show ?thesis
      using nat_case [of "nat (- i)"] sp [of "CHR ''-''"]
      by (simp add: js_parseInt_def dec_int_def)
  next
    case False
    then show ?thesis
      using nat_case [of "nat i"] by (simp add: js_parseInt_def dec_int_def Let_def)
  qed
qed

lemma zdiv_less_iff: assumes b: "0 < (b::int)" shows "x div b < q \<longleftrightarrow> x < q * b"
proof
  assume "x div b < q"
  then have "(x div b + 1) * b \<le> q * b" using b by (simp add: mult_right_mono)
  moreover have "x < (x div b + 1) * b"
  proof -
    have "(x div b + 1) * b = x div b * b + b" by (simp add: algebra_simps)
    then show ?thesis using pos_mod_bound [OF b, of x] div_mult_mod_eq [of x b] by linarith
  qed
  ultimately show "x < q * b" by linarith
next
  assume x: "x < q * b"
  show "x div b < q"
  proof (rule ccontr)
    assume "\<not> x div b < q"
    then have "q * b \<le> x div b * b" using b by (simp add: mult_right_mono)
    moreover have "x div b * b \<le> x"
      using pos_mod_sign [OF b, of x] div_mult_mod_eq [of x b] by linarith
    ultimately show False using x by linarith
  qed
qed
lemma tbl_count_delete:
  "tbl_ok t \<Longrightarrow> k \<in> fst ` set t \<Longrightarrow> tbl_count (tbl_delete k t) = tbl_count t - 1"
proof (induction t)
  case Nil then show ?case by simp
next
  case (Cons p t)
  obtain a b where p: "p = (a, b)" by (cases p)
  show ?case
  proof (cases "a = k")
    case True
    then have "k \<notin> fst ` set t" using Cons.prems(1) p by (simp add: tbl_ok_def)
    then show ?thesis using p True by (simp add: tbl_count_def tbl_delete_def)
  next
    case False
    then have "k \<in> fst ` set t" "tbl_ok t" using Cons.prems p by (auto simp: tbl_ok_def)
    then have "tbl_count (tbl_delete k t) = tbl_count t - 1" "t \<noteq> []" using Cons.IH by auto
    then show ?thesis using p False by (simp add: tbl_count_def tbl_delete_def)
  qed
qed

lemma tbl_count_put_ge: "tbl_count t \<le> tbl_count (tbl_put k v t)"
  by (induction t) (auto simp: tbl_count_def tbl_put_def)

lemma tbl_find_keyed:
  assumes "tbl_ok t" "tbl_keyed idf t" "v \<in> set (tbl_values t)"
  shows "find (\<lambda>w. idf w = idf v) (tbl_values t) = Some v"
proof -
  have "find (\<lambda>w. idf w = idf v) (tbl_values t) \<noteq> None"
    using assms(3) by (auto simp: find_None_iff)
  then obtain w where f: "find (\<lambda>w. idf w = idf v) (tbl_values t) = Some w"
    by blast
  then have w: "w \<in> set (tbl_values t)" "idf w = idf v"
    by (auto simp: find_Some_iff)
  obtain k where kv: "(k, v) \<in> set t" using assms(3) by (auto simp: set_tbl_values)
  obtain k' where kw: "(k', w) \<in> set t" using w(1) by (auto simp: set_tbl_values)
  have "k = idf v" "k' = idf w" using assms(2) kv kw by (auto simp: tbl_keyed_def)
  with kv kw w(2) have "(k, v) \<in> set t" "(k, w) \<in> set t" by simp_all
  then have "w = v"
    using assms(1) unfolding tbl_ok_def by (metis eq_key_imp_eq_value)
  with f show ?thesis by simp
qed

end
