(* ===== verification/Store.thy ===== *)
theory Store
  imports Prelude
begin

text \<open>
  The durable store of \<open>src/src/lib/database.ts\<close>: the four row types
  (\<open>Settings\<close>, \<open>Prompt\<close>, \<open>Entry\<close>, \<open>StreakSummary\<close>), the Dexie database
  \<open>JournalDB\<close> with its four tables, the browser key-value stores the app writes
  beside it (\<open>localStorage\<close>, \<open>sessionStorage\<close>, Cache Storage names), and the
  store-level operations of \<open>dbUtils\<close>: initialisation of the singleton rows, the
  per-date entry count, pruning on quota exhaustion, the 24-hour edit window, the
  recent-entries query, full wipe, deletion of all data and export.
\<close>

section \<open>Rows\<close>

datatype theme = Light | Dark | System

text \<open>
  \<open>interface Settings\<close>.  Optional TypeScript fields are \<open>option\<close>s.  Field names
  that would clash between records carry the record's name (\<open>settings_id\<close>,
  \<open>pid\<close>, \<open>entry_id\<close>, \<open>p_created_at\<close>, \<open>streak_id\<close>).
\<close>

record settings =
  settings_id :: string
  pinSalt :: "string option"
  pinIterations :: "nat option"
  pinHash :: "string option"
  lockTimeoutMinutes :: int
  dailyCueTime :: "string option"
  dailyCueEnabled :: bool
  notificationsEnabled :: bool
  telemetryOptIn :: bool
  telemetryAnonId :: "string option"
  telemetryActivationSent :: "bool option"
  telemetryConsecutiveDays :: "int option"
  telemetryLastCompletionDate :: "day option"
  telemetryD7EventSent :: "bool option"
  swapUsedDate :: "day option"
  lastPromptDate :: "day option"
  lastPromptId :: "string option"
  installAt :: ms
  currentTheme :: theme

datatype prompt_source = Seed | User

record prompt =
  pid :: string
  prompt_text :: string
  gratitude_prompt :: "string option"
  archived :: bool
  p_created_at :: ms
  source :: prompt_source

record entry =
  entry_id :: string
  dateLocal :: day
  prompt_id :: string
  setback :: string
  protective_step :: string
  gratitude :: string
  created_at :: ms
  edited_at :: "ms option"
  duration_seconds :: "int option"

record streak_summary =
  streak_id :: string
  start_date :: ms
  current_streak :: int
  longest_streak :: int
  last_entry_date :: "day option"

section \<open>The store\<close>

text \<open>
  \<open>JournalDB\<close>'s four tables, and the browser storage the app namespaces with the
  \<open>nvj_\<close> prefix or the \<open>negviz\<close> infix.
\<close>

record store =
  db_settings :: "settings table"
  db_prompts :: "prompt table"
  db_entries :: "entry table"
  db_streak :: "streak_summary table"
  local_kv :: "(string \<times> string) list"
  session_kv :: "(string \<times> string) list"
  cache_names :: "string list"

definition main_key :: string where
  "main_key = ''main''"

definition store_ok :: "store \<Rightarrow> bool" where
  "store_ok st \<longleftrightarrow> tbl_ok (db_settings st) \<and> tbl_ok (db_prompts st)
     \<and> tbl_ok (db_entries st) \<and> tbl_ok (db_streak st)
     \<and> tbl_keyed settings_id (db_settings st) \<and> tbl_keyed pid (db_prompts st)
     \<and> tbl_keyed entry_id (db_entries st) \<and> tbl_keyed streak_id (db_streak st)"

definition put_settings :: "settings \<Rightarrow> store \<Rightarrow> store" where
  "put_settings s st = st\<lparr>db_settings := tbl_put (settings_id s) s (db_settings st)\<rparr>"

definition put_streak :: "streak_summary \<Rightarrow> store \<Rightarrow> store" where
  "put_streak s st = st\<lparr>db_streak := tbl_put (streak_id s) s (db_streak st)\<rparr>"

definition get_settings :: "store \<Rightarrow> settings option" where
  "get_settings st = tbl_get (db_settings st) main_key"

definition get_streak :: "store \<Rightarrow> streak_summary option" where
  "get_streak st = tbl_get (db_streak st) main_key"

section \<open>Singleton rows\<close>

text \<open>\<open>dbUtils.initializeSettings\<close>: the existing row, or a default row written now.\<close>

definition default_settings :: "ms \<Rightarrow> settings" where
  "default_settings now = \<lparr>settings_id = main_key, pinSalt = None, pinIterations = None,
     pinHash = None, lockTimeoutMinutes = 5, dailyCueTime = None, dailyCueEnabled = False,
     notificationsEnabled = False, telemetryOptIn = False, telemetryAnonId = None,
     telemetryActivationSent = None, telemetryConsecutiveDays = None,
     telemetryLastCompletionDate = None, telemetryD7EventSent = None, swapUsedDate = None,
     lastPromptDate = None, lastPromptId = None, installAt = now, currentTheme = System\<rparr>"

definition initializeSettings :: "ms \<Rightarrow> store \<Rightarrow> settings \<times> store" where
  "initializeSettings now st =
     (case get_settings st of
        Some s \<Rightarrow> (s, st)
      | None \<Rightarrow> (default_settings now, put_settings (default_settings now) st))"

text \<open>\<open>dbUtils.initializeStreakSummary\<close>.\<close>

definition fresh_streak :: "ms \<Rightarrow> streak_summary" where
  "fresh_streak now = \<lparr>streak_id = main_key, start_date = now, current_streak = 0,
     longest_streak = 0, last_entry_date = None\<rparr>"

definition initializeStreakSummary :: "ms \<Rightarrow> store \<Rightarrow> streak_summary \<times> store" where
  "initializeStreakSummary now st =
     (case get_streak st of
        Some s \<Rightarrow> (s, st)
      | None \<Rightarrow> (fresh_streak now, put_streak (fresh_streak now) st))"

section \<open>Entry queries\<close>

text \<open>\<open>db.entries.where('dateLocal').equals(d).count()\<close>.\<close>

definition count_on_date :: "day \<Rightarrow> store \<Rightarrow> nat" where
  "count_on_date d st = length (filter (\<lambda>(k, e). dateLocal e = d) (db_entries st))"

text \<open>\<open>dbUtils.hasEntryToday\<close>.\<close>

definition hasEntryToday :: "day \<Rightarrow> store \<Rightarrow> bool" where
  "hasEntryToday today st = (0 < count_on_date today st)"

text \<open>
  \<open>dbUtils.canEditEntry\<close>: the difference in hours, a real quotient, is at most 24.
\<close>

definition canEditEntry :: "ms \<Rightarrow> entry \<Rightarrow> bool" where
  "canEditEntry now e = (real_of_int (now - created_at e) / (1000 * 60 * 60) \<le> 24)"

text \<open>
  \<open>dbUtils.getRecentEntries\<close>: entries whose date lies between the first of the
  last \<open>days\<close> days and today, both inclusive, newest \<open>created_at\<close> first
  (\<open>reverse().sortBy('created_at')\<close>).
\<close>

definition getRecentEntries :: "int \<Rightarrow> day \<Rightarrow> store \<Rightarrow> entry list" where
  "getRecentEntries days today st =
     rev (sort_key created_at
       (filter (\<lambda>e. today - days + 1 \<le> dateLocal e \<and> dateLocal e \<le> today)
          (map snd (db_entries st))))"

section \<open>Pruning on quota exhaustion\<close>

text \<open>
  \<open>dbUtils.handleStorageQuotaExceeded\<close>: above 1000 entries, the \<open>total - 1000\<close>
  first entries in \<open>created_at\<close> order (ties by primary key, as the Dexie index
  orders them) are deleted and their number reported; otherwise nothing is deleted and
  the operation reports failure.
\<close>

datatype prune_result = Cleaned_up nat | Quota_exceeded

definition retention_limit :: nat where
  "retention_limit = 1000"

definition entries_by_created :: "entry table \<Rightarrow> (string \<times> entry) list" where
  "entries_by_created t = sort_key (\<lambda>(k, e). (created_at e, k)) t"

definition handleStorageQuotaExceeded :: "store \<Rightarrow> prune_result \<times> store" where
  "handleStorageQuotaExceeded st =
     (let total = tbl_count (db_entries st) in
      if total > retention_limit then
        (let oldEntries = take (total - retention_limit) (entries_by_created (db_entries st)) in
         if length oldEntries > 0 then
           (Cleaned_up (length oldEntries),
            st\<lparr>db_entries := fold tbl_delete (map fst oldEntries) (db_entries st)\<rparr>)
         else (Quota_exceeded, st))
      else (Quota_exceeded, st))"

section \<open>Browser key-value storage\<close>

text \<open>
  \<open>localStorage.getItem\<close>, \<open>setItem\<close> and \<open>removeItem\<close> on the \<open>local_kv\<close> table
  of the store (keys are unique, as in a \<open>Storage\<close> object).
\<close>

definition ls_get :: "string \<Rightarrow> store \<Rightarrow> string option" where
  "ls_get k st = tbl_get (local_kv st) k"

definition ls_set :: "string \<Rightarrow> string \<Rightarrow> store \<Rightarrow> store" where
  "ls_set k v st = st\<lparr>local_kv := tbl_put k v (local_kv st)\<rparr>"

definition ls_remove :: "string \<Rightarrow> store \<Rightarrow> store" where
  "ls_remove k st = st\<lparr>local_kv := tbl_delete k (local_kv st)\<rparr>"

section \<open>Wipe, deletion and export\<close>

text \<open>\<open>dbUtils.wipeAllData\<close>: one read-write transaction clearing the four tables.\<close>

definition wipeAllData :: "store \<Rightarrow> store" where
  "wipeAllData st = st\<lparr>db_settings := [], db_prompts := [], db_entries := [], db_streak := []\<rparr>"

text \<open>The key filter of \<open>deleteAllData\<close> and \<open>resetWithWipe\<close>, and the cache-name filter.\<close>

definition app_key :: "string \<Rightarrow> bool" where
  "app_key k \<longleftrightarrow> prefix ''nvj_'' k \<or> sublist ''negviz'' k"

definition app_cache :: "string \<Rightarrow> bool" where
  "app_cache n \<longleftrightarrow> sublist ''negviz'' n \<or> sublist ''journal'' n"

definition purge_browser_storage :: "store \<Rightarrow> store" where
  "purge_browser_storage st =
     st\<lparr>local_kv := filter (\<lambda>(k, v). \<not> app_key k) (local_kv st),
        session_kv := filter (\<lambda>(k, v). \<not> app_key k) (session_kv st),
        cache_names := filter (\<lambda>n. \<not> app_cache n) (cache_names st)\<rparr>"

text \<open>
  \<open>dbUtils.deleteAllData\<close>: refused when the ping on the \<open>nvj-tab-check\<close> channel was
  answered within its timeout (\<open>other_tabs\<close>, the result of \<open>checkForOtherTabs\<close>);
  otherwise the transaction, then the purge of the browser storage.
\<close>

datatype delete_error = Other_tabs_open

definition deleteAllData :: "bool \<Rightarrow> store \<Rightarrow> delete_error option \<times> store" where
  "deleteAllData other_tabs st =
     (if other_tabs then (Some Other_tabs_open, st)
      else (None, purge_browser_storage (wipeAllData st)))"

text \<open>
  \<open>dbUtils.exportDataWithProgress\<close>: the export document.  Settings are copied with the
  three PIN fields set to \<open>undefined\<close>, which \<open>JSON.stringify\<close> omits; entries are
  listed in \<open>created_at\<close> order and reshaped; prompts in primary-key order.
\<close>

record export_entry =
  x_id :: string
  x_createdAt :: ms
  x_setback :: string
  x_protective_step :: string
  x_gratitude :: string
  x_dateLocal :: day
  x_prompt_id :: string
  x_edited_at :: "ms option"
  x_duration_seconds :: "int option"

record export_doc =
  x_entryCount :: nat
  x_exportedAt :: ms
  x_entries :: "export_entry list"
  x_settings :: "settings option"
  x_prompts :: "prompt list"
  x_streakSummary :: "streak_summary option"

definition sanitize_settings :: "settings \<Rightarrow> settings" where
  "sanitize_settings s = s\<lparr>pinSalt := None, pinIterations := None, pinHash := None\<rparr>"

definition export_of_entry :: "entry \<Rightarrow> export_entry" where
  "export_of_entry e = \<lparr>x_id = entry_id e, x_createdAt = created_at e, x_setback = setback e,
     x_protective_step = protective_step e, x_gratitude = gratitude e,
     x_dateLocal = dateLocal e, x_prompt_id = prompt_id e, x_edited_at = edited_at e,
     x_duration_seconds = duration_seconds e\<rparr>"

definition exportDataWithProgress :: "ms \<Rightarrow> store \<Rightarrow> export_doc" where
  "exportDataWithProgress now st =
     (let entries = map snd (entries_by_created (db_entries st)) in
      \<lparr>x_entryCount = length entries, x_exportedAt = now,
       x_entries = map export_of_entry entries,
       x_settings = map_option sanitize_settings (get_settings st),
       x_prompts = tbl_values (db_prompts st),
       x_streakSummary = get_streak st\<rparr>)"

text \<open>\<open>db.entries.put(entry)\<close> and \<open>db.entries.delete(id)\<close>.\<close>

definition put_entry :: "entry \<Rightarrow> store \<Rightarrow> store" where
  "put_entry e st = st\<lparr>db_entries := tbl_put (entry_id e) e (db_entries st)\<rparr>"

definition delete_entry :: "string \<Rightarrow> store \<Rightarrow> store" where
  "delete_entry k st = st\<lparr>db_entries := tbl_delete k (db_entries st)\<rparr>"

text \<open>The store of a first launch: a new, empty database and empty browser storage.\<close>

definition empty_store :: store where
  "empty_store = \<lparr>db_settings = [], db_prompts = [], db_entries = [], db_streak = [],
     local_kv = [], session_kv = [], cache_names = []\<rparr>"

section \<open>Lemmas\<close>

lemma store_ok_put_settings [table_simps]: "store_ok st \<Longrightarrow> store_ok (put_settings s st)"
  by (simp add: store_ok_def put_settings_def tbl_ok_put tbl_keyed_put)

lemma store_ok_put_streak [table_simps]: "store_ok st \<Longrightarrow> store_ok (put_streak s st)"
  by (simp add: store_ok_def put_streak_def tbl_ok_put tbl_keyed_put)

lemma store_ok_streak_id: "store_ok st \<Longrightarrow> get_streak st = Some s \<Longrightarrow> streak_id s = main_key"
  by (auto simp: store_ok_def get_streak_def dest: tbl_keyed_get)

lemma store_ok_settings_id: "store_ok st \<Longrightarrow> get_settings st = Some s \<Longrightarrow> settings_id s = main_key"
  by (auto simp: store_ok_def get_settings_def dest: tbl_keyed_get)

lemma store_ok_wipe: "store_ok (wipeAllData st)"
  by (simp add: store_ok_def wipeAllData_def table_simps)

lemma get_settings_put [table_simps]:
  "settings_id s = main_key \<Longrightarrow> get_settings (put_settings s st) = Some s"
  by (simp add: get_settings_def put_settings_def tbl_get_put)

lemma get_streak_put [table_simps]:
  "streak_id s = main_key \<Longrightarrow> get_streak (put_streak s st) = Some s"
  by (simp add: get_streak_def put_streak_def tbl_get_put)

lemma initializeSettings_get:
  "initializeSettings now st = (s, st') \<Longrightarrow> get_settings st' = Some s"
  by (auto simp: initializeSettings_def get_settings_put default_settings_def split: option.splits)

lemma initializeStreakSummary_get:
  "initializeStreakSummary now st = (s, st') \<Longrightarrow> get_streak st' = Some s"
  by (auto simp: initializeStreakSummary_def get_streak_put fresh_streak_def split: option.splits)

lemma canEditEntry_iff: "canEditEntry now e \<longleftrightarrow> now - created_at e \<le> 86400000"
proof -
  have "canEditEntry now e \<longleftrightarrow> real_of_int (now - created_at e) \<le> real_of_int 86400000"
    by (simp add: canEditEntry_def divide_le_eq)
  also have "\<dots> \<longleftrightarrow> now - created_at e \<le> 86400000"
    by (rule of_int_le_iff)
  finally show ?thesis .
qed

lemma wipeAllData_counts:
  "tbl_count (db_settings (wipeAllData st)) = 0 \<and> tbl_count (db_prompts (wipeAllData st)) = 0
   \<and> tbl_count (db_entries (wipeAllData st)) = 0 \<and> tbl_count (db_streak (wipeAllData st)) = 0"
  by (simp add: wipeAllData_def tbl_count_def)

lemma deleteAllData_effect:
  "deleteAllData False st = (None, st') \<Longrightarrow>
     tbl_count (db_entries st') = 0 \<and> tbl_count (db_settings st') = 0
     \<and> (\<forall>(k, v) \<in> set (local_kv st'). \<not> app_key k)
     \<and> (\<forall>(k, v) \<in> set (session_kv st'). \<not> app_key k)
     \<and> (\<forall>n \<in> set (cache_names st'). \<not> app_cache n)
     \<and> (\<forall>(k, v) \<in> set (local_kv st). \<not> app_key k \<longrightarrow> (k, v) \<in> set (local_kv st'))"
  by (auto simp: deleteAllData_def purge_browser_storage_def wipeAllData_def tbl_count_def)

lemma export_settings_sanitized:
  "x_settings (exportDataWithProgress now st) = Some s' \<Longrightarrow>
     pinHash s' = None \<and> pinSalt s' = None \<and> pinIterations s' = None"
  by (auto simp: exportDataWithProgress_def sanitize_settings_def)

lemma export_entry_count:
  "x_entryCount (exportDataWithProgress now st) = tbl_count (db_entries st)"
  by (simp add: exportDataWithProgress_def tbl_count_def entries_by_created_def)

lemma export_entries_sorted:
  "sorted (map x_createdAt (x_entries (exportDataWithProgress now st)))"
proof -
  have "sorted (map (\<lambda>(k, e). (created_at e, k)) (entries_by_created (db_entries st)))"
    by (simp add: entries_by_created_def)
  then have "sorted (map (\<lambda>x. fst ((\<lambda>(k, e). (created_at e, k)) x)) (entries_by_created (db_entries st)))"
    by (rule sorted_map_fst_lex)
  then show ?thesis
    by (simp add: exportDataWithProgress_def export_of_entry_def comp_def case_prod_beta)
qed

lemma handleStorageQuotaExceeded_prunes:
  assumes ok: "store_ok st" and big: "retention_limit < tbl_count (db_entries st)"
  shows "handleStorageQuotaExceeded st
           = (Cleaned_up (tbl_count (db_entries st) - retention_limit),
              st\<lparr>db_entries := filter (\<lambda>p. fst p \<notin> fst ` set ((take (tbl_count (db_entries st) - retention_limit)
                   (entries_by_created (db_entries st))))) (db_entries st)\<rparr>)"
  using big by (auto simp: handleStorageQuotaExceeded_def Let_def fold_tbl_delete tbl_count_def
      entries_by_created_def retention_limit_def)

theorem handleStorageQuotaExceeded_keeps_newest:
  assumes ok: "store_ok st" and big: "retention_limit < tbl_count (db_entries st)"
    and res: "handleStorageQuotaExceeded st = (r, st')"
  shows "r = Cleaned_up (tbl_count (db_entries st) - retention_limit)
    \<and> mset (db_entries st') = mset (drop (tbl_count (db_entries st) - retention_limit)
                                     (entries_by_created (db_entries st)))
    \<and> tbl_count (db_entries st') = retention_limit"
proof -
  have t: "tbl_ok (db_entries st)" using ok by (simp add: store_ok_def)
  let ?n = "tbl_count (db_entries st) - retention_limit"
  have st': "st' = st\<lparr>db_entries := filter (\<lambda>p. fst p \<notin> fst ` set (take ?n
                   (entries_by_created (db_entries st)))) (db_entries st)\<rparr>"
    and r: "r = Cleaned_up ?n"
    using res handleStorageQuotaExceeded_prunes [OF ok big] by simp_all
  have m: "mset (db_entries st') = mset (drop ?n (entries_by_created (db_entries st)))"
    unfolding st' entries_by_created_def using filter_drop_sorted_keys [OF t] by simp
  then have "length (db_entries st') = retention_limit"
    using big by (metis size_mset length_drop entries_by_created_def length_sort tbl_count_def
        diff_diff_cancel less_imp_le)
  with m r show ?thesis
    by (simp add: tbl_count_def)
qed

lemma ls_get_set [table_simps]: "ls_get k (ls_set k' v st) = (if k = k' then Some v else ls_get k st)"
  by (simp add: ls_get_def ls_set_def table_simps)

lemma store_ok_put_entry [table_simps]: "store_ok st \<Longrightarrow> store_ok (put_entry e st)"
  by (simp add: store_ok_def put_entry_def tbl_ok_put tbl_keyed_put)

lemma store_ok_delete_entry [table_simps]: "store_ok st \<Longrightarrow> store_ok (delete_entry k st)"
  by (simp add: store_ok_def delete_entry_def tbl_ok_delete tbl_keyed_delete)

lemma ls_get_remove [table_simps]: "ls_get k (ls_remove k' st) = (if k = k' then None else ls_get k st)"
  by (simp add: ls_get_def ls_remove_def table_simps)

lemma ls_tables [table_simps]:
  "db_settings (ls_set k v st) = db_settings st" "db_settings (ls_remove k st) = db_settings st"
  "db_prompts (ls_set k v st) = db_prompts st" "db_prompts (ls_remove k st) = db_prompts st"
  "db_entries (ls_set k v st) = db_entries st" "db_entries (ls_remove k st) = db_entries st"
  "db_streak (ls_set k v st) = db_streak st" "db_streak (ls_remove k st) = db_streak st"
  by (simp_all add: ls_set_def ls_remove_def)

lemma ls_store_ok [table_simps]:
  "store_ok (ls_set k v st) = store_ok st" "store_ok (ls_remove k st) = store_ok st"
  by (simp_all add: store_ok_def ls_set_def ls_remove_def)

lemma ls_get_settings [table_simps]:
  "get_settings (ls_set k v st) = get_settings st" "get_settings (ls_remove k st) = get_settings st"
  by (simp_all add: get_settings_def ls_set_def ls_remove_def)

lemma ls_get_put_settings [table_simps]: "ls_get k (put_settings s st) = ls_get k st"
  by (simp add: ls_get_def put_settings_def)

lemma map_of_filter_keys:
  "map_of (filter (\<lambda>(k, v). \<not> P k) xs) k = (if P k then None else map_of xs k)"
  by (induction xs) auto

lemma ls_get_purge:
  "ls_get k (purge_browser_storage st) = (if app_key k then None else ls_get k st)"
  by (simp add: ls_get_def purge_browser_storage_def tbl_get_def map_of_filter_keys)

lemma ls_get_wipe [table_simps]: "ls_get k (wipeAllData st) = ls_get k st"
  by (simp add: ls_get_def wipeAllData_def)

lemma purge_browser_storage_tables [table_simps]:
  "store_ok (purge_browser_storage st) = store_ok st"
  "get_settings (purge_browser_storage st) = get_settings st"
  by (simp_all add: purge_browser_storage_def store_ok_def get_settings_def)

lemma get_settings_wipe [table_simps]: "get_settings (wipeAllData st) = None"
  by (simp add: get_settings_def wipeAllData_def table_simps)

end
