(* ===== verification/Streak.thy ===== *)
theory Streak
  imports Store
begin

text \<open>
  The streak engine of \<open>src/src/lib/database.ts\<close>: \<open>dbUtils.updateStreak\<close> (the
  branch structure is \<open>advance_streak\<close>), \<open>validateAndRecoverStreakData\<close>,
  \<open>resetStreakData\<close>, and the new-entry branch of \<open>handleSave\<close> in
  \<open>src/src/components/PromptEntry.tsx\<close> that adds an entry and then updates the streak.
  A run of daily saves (\<open>save_days\<close>) drives the engine over consecutive days.
\<close>

section \<open>updateStreak\<close>

record streak_update =
  updated :: bool
  isFirstToday :: bool
  streakData :: streak_summary

text \<open>
  Lines 315--331 of \<open>database.ts\<close>: first entry ever, consecutive day, gap, or an
  entry date already counted; then \<open>last_entry_date\<close> is set.
\<close>

definition advance_streak :: "ms \<Rightarrow> day \<Rightarrow> day \<Rightarrow> streak_summary \<Rightarrow> streak_summary" where
  "advance_streak now yesterdayLocal entryDate streak =
     (let s = (case last_entry_date streak of
                 None \<Rightarrow> streak\<lparr>current_streak := 1, longest_streak := 1, start_date := now\<rparr>
               | Some l \<Rightarrow>
                   if l = yesterdayLocal then
                     streak\<lparr>current_streak := current_streak streak + 1,
                            longest_streak := max (longest_streak streak) (current_streak streak + 1)\<rparr>
                   else if l \<noteq> entryDate then
                     streak\<lparr>current_streak := 1, start_date := now\<rparr>
                   else streak)
      in s\<lparr>last_entry_date := Some entryDate\<rparr>)"

text \<open>
  \<open>dbUtils.updateStreak entryDate\<close>, called after the new entry was added: the entry is
  the first of its date when exactly one entry of that date exists.  \<open>today\<close> is the
  local date of the clock, from which \<open>yesterdayLocal\<close> is computed.
\<close>

definition updateStreak :: "ms \<Rightarrow> day \<Rightarrow> day \<Rightarrow> store \<Rightarrow> streak_update \<times> store" where
  "updateStreak now today entryDate st =
     (let (streak, st1) = initializeStreakSummary now st;
          yesterdayLocal = today - 1;
          existingEntryToday = count_on_date entryDate st1
      in if existingEntryToday \<noteq> 1
         then (\<lparr>updated = False, isFirstToday = False, streakData = streak\<rparr>, st1)
         else (let streak' = advance_streak now yesterdayLocal entryDate streak
               in (\<lparr>updated = True, isFirstToday = True, streakData = streak'\<rparr>,
                   put_streak streak' st1)))"

section \<open>Validation, recovery and reset\<close>

record streak_validation =
  isValid :: bool
  recovered :: bool
  v_streak :: streak_summary

definition streak_corrupted :: "streak_summary \<Rightarrow> bool" where
  "streak_corrupted s \<longleftrightarrow>
     current_streak s < 0 \<or> longest_streak s < 0 \<or> current_streak s > longest_streak s"

definition recover_streak :: "streak_summary \<Rightarrow> streak_summary" where
  "recover_streak s =
     \<lparr>streak_id = main_key, start_date = start_date s,
      current_streak = max 0 (min (current_streak s) (longest_streak s)),
      longest_streak = max 0 (max (longest_streak s) (current_streak s)),
      last_entry_date = last_entry_date s\<rparr>"

text \<open>\<open>dbUtils.validateAndRecoverStreakData\<close>.\<close>

definition validateAndRecoverStreakData :: "ms \<Rightarrow> store \<Rightarrow> streak_validation \<times> store" where
  "validateAndRecoverStreakData now st =
     (case get_streak st of
        None \<Rightarrow> (let (s, st') = initializeStreakSummary now st
                 in (\<lparr>isValid = False, recovered = True, v_streak = s\<rparr>, st'))
      | Some s \<Rightarrow>
          if streak_corrupted s
          then (\<lparr>isValid = False, recovered = True, v_streak = recover_streak s\<rparr>,
                put_streak (recover_streak s) st)
          else (\<lparr>isValid = True, recovered = False, v_streak = s\<rparr>, st))"

text \<open>
  The backup string \<open>backup_streak_${Date.now()}_${JSON.stringify(currentStreak)}\<close>.
  The JSON rendering keeps the field order of the row and omits an undefined
  \<open>last_entry_date\<close>; its date strings are written as the numbers that model them.
\<close>

definition json_str :: "string \<Rightarrow> string" where
  "json_str x = CHR 0x22 # x @ [CHR 0x22]"

definition streak_json :: "streak_summary \<Rightarrow> string" where
  "streak_json s =
     ''{'' @ json_str ''id'' @ '':'' @ json_str (streak_id s)
     @ '','' @ json_str ''start_date'' @ '':'' @ json_str (dec_int (start_date s))
     @ '','' @ json_str ''current_streak'' @ '':'' @ dec_int (current_streak s)
     @ '','' @ json_str ''longest_streak'' @ '':'' @ dec_int (longest_streak s)
     @ (case last_entry_date s of
          None \<Rightarrow> []
        | Some d \<Rightarrow> '','' @ json_str ''last_entry_date'' @ '':'' @ json_str (dec_int d))
     @ ''}''"

definition streak_backup :: "ms \<Rightarrow> streak_summary \<Rightarrow> string" where
  "streak_backup now s = ''backup_streak_'' @ dec_int now @ ''_'' @ streak_json s"

text \<open>\<open>dbUtils.resetStreakData\<close>: the backup overwrites \<open>settings.lastPromptId\<close>.\<close>

definition resetStreakData :: "ms \<Rightarrow> store \<Rightarrow> bool \<times> store" where
  "resetStreakData now st =
     (let st1 = (case get_streak st of
                   None \<Rightarrow> st
                 | Some cs \<Rightarrow>
                     (case get_settings st of
                        None \<Rightarrow> st
                      | Some s \<Rightarrow> put_settings (s\<lparr>lastPromptId := Some (streak_backup now cs)\<rparr>) st))
      in (True, put_streak (fresh_streak now) st1))"

section \<open>Saving a new entry\<close>

text \<open>
  The new-entry branch of \<open>handleSave\<close> (\<open>PromptEntry.tsx\<close>, lines 170--182): an
  entry keyed \<open>entry-${Date.now()}\<close> is added (\<open>db.entries.add\<close> rejects an existing
  key), then the streak is updated for today's date.
\<close>

definition entry_key :: "ms \<Rightarrow> string" where
  "entry_key now = ''entry-'' @ dec_int now"

definition new_entry :: "ms \<Rightarrow> day \<Rightarrow> string \<Rightarrow> string \<Rightarrow> string \<Rightarrow> string \<Rightarrow> entry" where
  "new_entry now today promptId sb ps gr =
     \<lparr>entry_id = entry_key now, dateLocal = today, prompt_id = promptId, setback = sb,
      protective_step = ps, gratitude = gr, created_at = now, edited_at = None,
      duration_seconds = None\<rparr>"

definition saveNewEntry ::
  "ms \<Rightarrow> day \<Rightarrow> string \<Rightarrow> string \<Rightarrow> string \<Rightarrow> string \<Rightarrow> store \<Rightarrow> db_error + streak_update \<times> store" where
  "saveNewEntry now today promptId sb ps gr st =
     (let e = new_entry now today promptId sb ps gr in
      case tbl_add (entry_id e) e (db_entries st) of
        Inl err \<Rightarrow> Inl err
      | Inr t \<Rightarrow> Inr (updateStreak now today today (st\<lparr>db_entries := t\<rparr>)))"

text \<open>One save per element of the list, at the given instant and local date.\<close>

fun save_days :: "(ms \<times> day) list \<Rightarrow> store \<Rightarrow> db_error + store" where
  "save_days [] st = Inr st"
| "save_days ((t, d) # xs) st =
     (case saveNewEntry t d ''seed-1'' ''setback'' ''step'' ''gratitude'' st of
        Inl err \<Rightarrow> Inl err
      | Inr (r, st') \<Rightarrow> save_days xs st')"

definition streak_ok :: "streak_summary \<Rightarrow> bool" where
  "streak_ok s \<longleftrightarrow> 0 \<le> current_streak s \<and> current_streak s \<le> longest_streak s
     \<and> (last_entry_date s \<noteq> None \<longrightarrow> 1 \<le> current_streak s)"

definition streak_or_fresh :: "ms \<Rightarrow> store \<Rightarrow> streak_summary" where
  "streak_or_fresh now st = (case get_streak st of None \<Rightarrow> fresh_streak now | Some s \<Rightarrow> s)"

definition streak_row_ok :: "store \<Rightarrow> bool" where
  "streak_row_ok st \<longleftrightarrow> (case get_streak st of None \<Rightarrow> True | Some s \<Rightarrow> streak_ok s)"

text \<open>A store holding one entry of day 0 and the streak it started.\<close>

definition one_entry_store :: store where
  "one_entry_store = empty_store\<lparr>db_entries := [(entry_key 0, new_entry 0 0 ''seed-1'' ''a'' ''b'' ''c'')],
     db_streak := [(main_key, advance_streak 0 (-1) 0 (fresh_streak 0))]\<rparr>"

lemmas streak_eval = empty_store_def saveNewEntry_def updateStreak_def initializeStreakSummary_def
     get_streak_def put_streak_def tbl_add_def new_entry_def entry_key_def dec_int_def dec_nat.simps
     digit_char_def count_on_date_def advance_streak_def fresh_streak_def main_key_def tbl_get_def
     tbl_put_def Let_def

section \<open>Lemmas\<close>

lemma advance_streak_ok: "streak_ok s \<Longrightarrow> streak_ok (advance_streak now y d s)"
  by (auto simp: advance_streak_def streak_ok_def Let_def split: option.splits)

lemma initializeStreakSummary_entries [simp]:
  "db_entries (snd (initializeStreakSummary now st)) = db_entries st"
  by (simp add: initializeStreakSummary_def put_streak_def split: option.splits)

lemma count_on_date_upd_entries:
  "count_on_date d (st\<lparr>db_entries := t\<rparr>) = length (filter (\<lambda>(k, e). dateLocal e = d) t)"
  by (simp add: count_on_date_def)

lemma get_streak_put_streak_main [simp]:
  "get_streak (put_streak s st) = (if streak_id s = main_key then Some s else get_streak st)"
  by (simp add: get_streak_def put_streak_def tbl_get_put)

lemma streak_id_advance [simp]: "streak_id (advance_streak now y d s) = streak_id s"
  by (auto simp: advance_streak_def Let_def split: option.splits)

lemma get_streak_upd_entries [simp]: "get_streak (st\<lparr>db_entries := t\<rparr>) = get_streak st"
  by (simp add: get_streak_def)

lemma updateStreak_first:
  assumes "count_on_date d st = 1" and "store_ok st"
  shows "fst (updateStreak now today d st)
         = \<lparr>updated = True, isFirstToday = True,
            streakData = advance_streak now (today - 1) d (streak_or_fresh now st)\<rparr>
    \<and> get_streak (snd (updateStreak now today d st))
        = Some (advance_streak now (today - 1) d (streak_or_fresh now st))
    \<and> db_entries (snd (updateStreak now today d st)) = db_entries st"
  using assms store_ok_streak_id [OF assms(2)]
  by (auto simp: updateStreak_def initializeStreakSummary_def streak_or_fresh_def count_on_date_def Let_def get_streak_def tbl_get_put
      fresh_streak_def main_key_def put_streak_def split: option.splits)


lemma store_ok_initializeStreakSummary: "store_ok st \<Longrightarrow> store_ok (snd (initializeStreakSummary now st))"
  by (simp add: initializeStreakSummary_def store_ok_put_streak split: option.splits)

lemma store_ok_updateStreak: "store_ok st \<Longrightarrow> store_ok (snd (updateStreak now today d st))"
  by (auto simp: updateStreak_def Let_def store_ok_put_streak split: prod.splits
      dest: store_ok_initializeStreakSummary [of _ now])

lemma entry_key_inj: "entry_key a = entry_key b \<longleftrightarrow> a = b"
  by (simp add: entry_key_def dec_int_inj)

lemma store_ok_add_entry:
  assumes "store_ok st" "tbl_add (entry_id e) e (db_entries st) = Inr t"
  shows "store_ok (st\<lparr>db_entries := t\<rparr>)"
  using assms by (auto simp: store_ok_def intro: tbl_ok_add tbl_keyed_add)

lemma saveNewEntry_added:
  assumes ok: "store_ok st" and fresh: "entry_key t \<notin> fst ` set (db_entries st)"
  shows "saveNewEntry t day p a b c st
           = Inr (updateStreak t day day
                   (st\<lparr>db_entries := db_entries st @ [(entry_key t, new_entry t day p a b c)]\<rparr>))"
  using fresh by (simp add: saveNewEntry_def tbl_add_def new_entry_def)

lemma saveNewEntry_new_day:
  assumes ok: "store_ok st" and fresh: "entry_key t \<notin> fst ` set (db_entries st)"
    and none: "count_on_date day st = 0"
  shows "\<exists>st'. saveNewEntry t day p a b c st
      = Inr (\<lparr>updated = True, isFirstToday = True,
               streakData = advance_streak t (day - 1) day (streak_or_fresh t st)\<rparr>, st')
    \<and> get_streak st' = Some (advance_streak t (day - 1) day (streak_or_fresh t st))
    \<and> db_entries st' = db_entries st @ [(entry_key t, new_entry t day p a b c)]
    \<and> store_ok st'"
proof -
  let ?e = "new_entry t day p a b c"
  let ?st1 = "st\<lparr>db_entries := db_entries st @ [(entry_key t, ?e)]\<rparr>"
  have ok1: "store_ok ?st1"
    using store_ok_add_entry [OF ok, of ?e] fresh by (simp add: tbl_add_def new_entry_def)
  have c1: "count_on_date day ?st1 = 1"
    using none by (simp add: count_on_date_def new_entry_def)
  have sf: "streak_or_fresh t ?st1 = streak_or_fresh t st"
    by (simp add: streak_or_fresh_def)
  obtain r st' where us: "updateStreak t day day ?st1 = (r, st')"
    by (cases "updateStreak t day day ?st1")
  have r: "r = \<lparr>updated = True, isFirstToday = True,
               streakData = advance_streak t (day - 1) day (streak_or_fresh t st)\<rparr>"
   and g: "get_streak st' = Some (advance_streak t (day - 1) day (streak_or_fresh t st))"
   and e: "db_entries st' = db_entries ?st1"
    using updateStreak_first [OF c1 ok1, of t day] us sf by simp_all
  have "store_ok st'"
    using store_ok_updateStreak [OF ok1, of t day day] us by simp
  with r g e us show ?thesis
    using saveNewEntry_added [OF ok fresh, of day p a b c] by simp
qed


lemma advance_streak_consecutive:
  "last_entry_date s = Some (d - 1) \<Longrightarrow>
   advance_streak t (d - 1) d s = s\<lparr>current_streak := current_streak s + 1,
      longest_streak := max (longest_streak s) (current_streak s + 1), last_entry_date := Some d\<rparr>"
  by (simp add: advance_streak_def)

lemma save_days_run:
  assumes "store_ok st" "\<forall>(k, e) \<in> set (db_entries st). dateLocal e < d"
    "distinct (map fst xs)" "\<forall>t \<in> set (map fst xs). entry_key t \<notin> fst ` set (db_entries st)"
    "map snd xs = [d .. d + int (length xs) - 1]"
    "get_streak st = Some s" "last_entry_date s = Some (d - 1)"
  shows "\<exists>st'. save_days xs st = Inr st' \<and> get_streak st' = Some (if xs = [] then s else
           s\<lparr>current_streak := current_streak s + int (length xs),
              longest_streak := max (longest_streak s) (current_streak s + int (length xs)),
              last_entry_date := Some (d + int (length xs) - 1)\<rparr>)"
  using assms
proof (induction xs arbitrary: st d s)
  case Nil
  then show ?case by simp
next
  case (Cons x xs)
  obtain t d' where x: "x = (t, d')" by (cases x)
  have dd: "d' = d" and rest: "map snd xs = [d + 1 .. (d + 1) + int (length xs) - 1]"
    using Cons.prems(5) x by (simp_all add: upto_rec1 del: upto.simps)
  have none: "count_on_date d st = 0"
    using Cons.prems(2) by (force simp: count_on_date_def filter_empty_conv)
  have fresh: "entry_key t \<notin> fst ` set (db_entries st)"
    using Cons.prems(4) x by simp
  have sf: "streak_or_fresh t st = s"
    using Cons.prems(6) by (simp add: streak_or_fresh_def)
  obtain st1 where save: "saveNewEntry t d ''seed-1'' ''setback'' ''step'' ''gratitude'' st
        = Inr (\<lparr>updated = True, isFirstToday = True, streakData = advance_streak t (d - 1) d s\<rparr>, st1)"
    and g1: "get_streak st1 = Some (advance_streak t (d - 1) d s)"
    and e1: "db_entries st1 = db_entries st @ [(entry_key t, new_entry t d ''seed-1'' ''setback'' ''step'' ''gratitude'')]"
    and ok1: "store_ok st1"
    using saveNewEntry_new_day [OF Cons.prems(1) fresh none] sf by blast
  let ?s1 = "advance_streak t (d - 1) d s"
  have s1: "?s1 = s\<lparr>current_streak := current_streak s + 1,
      longest_streak := max (longest_streak s) (current_streak s + 1), last_entry_date := Some d\<rparr>"
    using Cons.prems(7) by (rule advance_streak_consecutive)
  have dates1: "\<forall>(k, e) \<in> set (db_entries st1). dateLocal e < d + 1"
    using Cons.prems(2) e1 by (auto simp: new_entry_def)
  have keys1: "\<forall>t' \<in> set (map fst xs). entry_key t' \<notin> fst ` set (db_entries st1)"
    using Cons.prems(3,4) x e1 by (auto simp: entry_key_inj)
  obtain st' where run: "save_days xs st1 = Inr st'"
    and g: "get_streak st' = Some (if xs = [] then ?s1 else
           ?s1\<lparr>current_streak := current_streak ?s1 + int (length xs),
              longest_streak := max (longest_streak ?s1) (current_streak ?s1 + int (length xs)),
              last_entry_date := Some (d + 1 + int (length xs) - 1)\<rparr>)"
    using Cons.IH [OF ok1 dates1 _ keys1 rest g1] Cons.prems(3) s1 by auto
  show ?case
    using run g save s1 x dd by (auto simp: max_def)
qed

lemma fresh_streak_ok: "streak_ok (fresh_streak now)"
  by (simp add: streak_ok_def fresh_streak_def)

lemma streak_or_fresh_ok: "streak_row_ok st \<Longrightarrow> streak_ok (streak_or_fresh now st)"
  by (auto simp: streak_row_ok_def streak_or_fresh_def fresh_streak_ok split: option.splits)

lemma count_on_date_initialize:
  "initializeStreakSummary now st = (s, st1) \<Longrightarrow> count_on_date d st1 = count_on_date d st"
  by (metis initializeStreakSummary_entries snd_conv count_on_date_def)

section \<open>Properties\<close>

text \<open>
  C1. Saving one new entry on each of \<open>n \<ge> 1\<close> consecutive calendar days, starting with
  no streak row and no entry on or after the first day, leaves \<open>current_streak =
  longest_streak = n\<close> and \<open>last_entry_date\<close> the last day.  Entry instants only need
  to be distinct (they key the entries).
\<close>

theorem consecutive_days_streak:
  assumes "store_ok st" "\<forall>(k, e) \<in> set (db_entries st). dateLocal e < d" "get_streak st = None"
    "distinct (map fst xs)" "\<forall>t \<in> set (map fst xs). entry_key t \<notin> fst ` set (db_entries st)"
    "map snd xs = [d .. d + int (length xs) - 1]" "xs \<noteq> []"
  shows "\<exists>st' s. save_days xs st = Inr st' \<and> get_streak st' = Some s
           \<and> current_streak s = int (length xs) \<and> longest_streak s = int (length xs)
           \<and> last_entry_date s = Some (d + int (length xs) - 1)"
proof -
  obtain t d' ys where xs: "xs = (t, d') # ys"
    using assms(7) by (metis list.exhaust prod.exhaust)
  have dd: "d' = d" and rest: "map snd ys = [d + 1 .. (d + 1) + int (length ys) - 1]"
    using assms(6) xs by (simp_all add: upto_rec1 del: upto.simps)
  have none: "count_on_date d st = 0"
    using assms(2) by (force simp: count_on_date_def filter_empty_conv)
  have fresh: "entry_key t \<notin> fst ` set (db_entries st)"
    using assms(5) xs by simp
  let ?s1 = "advance_streak t (d - 1) d (fresh_streak t)"
  have sf: "streak_or_fresh t st = fresh_streak t"
    using assms(3) by (simp add: streak_or_fresh_def)
  obtain st1 where save: "saveNewEntry t d ''seed-1'' ''setback'' ''step'' ''gratitude'' st
        = Inr (\<lparr>updated = True, isFirstToday = True, streakData = ?s1\<rparr>, st1)"
    and g1: "get_streak st1 = Some ?s1"
    and e1: "db_entries st1 = db_entries st @ [(entry_key t, new_entry t d ''seed-1'' ''setback'' ''step'' ''gratitude'')]"
    and ok1: "store_ok st1"
    using saveNewEntry_new_day [OF assms(1) fresh none, unfolded sf] by blast
  have s1: "current_streak ?s1 = 1" "longest_streak ?s1 = 1" "last_entry_date ?s1 = Some d"
    by (simp_all add: advance_streak_def fresh_streak_def)
  have dates1: "\<forall>(k, e) \<in> set (db_entries st1). dateLocal e < d + 1"
    using assms(2) e1 by (auto simp: new_entry_def)
  have keys1: "\<forall>t' \<in> set (map fst ys). entry_key t' \<notin> fst ` set (db_entries st1)"
    using assms(4,5) xs e1 by (auto simp: entry_key_inj)
  obtain st' where run: "save_days ys st1 = Inr st'"
    and g: "get_streak st' = Some (if ys = [] then ?s1 else
           ?s1\<lparr>current_streak := current_streak ?s1 + int (length ys),
              longest_streak := max (longest_streak ?s1) (current_streak ?s1 + int (length ys)),
              last_entry_date := Some (d + 1 + int (length ys) - 1)\<rparr>)"
    using save_days_run [OF ok1 dates1 _ keys1 rest g1] assms(4) xs s1 by auto
  show ?thesis
    using run g save s1 xs dd by auto
qed

theorem consecutive_days_streak_witness:
  "\<exists>st' s. save_days [(0, 0), (86400000, 1)] empty_store = Inr st' \<and> get_streak st' = Some s
     \<and> current_streak s = 2 \<and> longest_streak s = 2 \<and> last_entry_date s = Some 1"
proof -
  have h: "store_ok empty_store" "\<forall>(k, e) \<in> set (db_entries empty_store). dateLocal e < 0"
    "get_streak empty_store = None" "distinct (map fst [(0::int, 0::int), (86400000, 1)])"
    "\<forall>t \<in> set (map fst [(0::int, 0::int), (86400000, 1)]). entry_key t \<notin> fst ` set (db_entries empty_store)"
    "map snd [(0::int, 0::int), (86400000, 1)] = [0 .. 0 + int (length [(0::int, 0::int), (86400000, 1)]) - 1]"
    "[(0::int, 0::int), (86400000, 1)] \<noteq> []"
    by (simp_all add: store_ok_def empty_store_def get_streak_def tbl_ok_empty tbl_keyed_empty
        tbl_get_empty upto.simps)
  show ?thesis
    using consecutive_days_streak [OF h] by simp
qed

text \<open>
  C2. After a gap of at least two calendar days since the last counted entry, the first
  entry of the day restarts the streak at 1 and leaves \<open>longest_streak\<close> unchanged.
\<close>

theorem gap_resets_streak:
  assumes "store_ok st" "get_streak st = Some s" "last_entry_date s = Some l" "l + 2 \<le> day"
    "count_on_date day st = 0" "entry_key t \<notin> fst ` set (db_entries st)"
  shows "\<exists>r st' s'. saveNewEntry t day p a b c st = Inr (r, st') \<and> isFirstToday r
    \<and> get_streak st' = Some s' \<and> current_streak s' = 1 \<and> longest_streak s' = longest_streak s
    \<and> last_entry_date s' = Some day"
proof -
  have sf: "streak_or_fresh t st = s" using assms(2) by (simp add: streak_or_fresh_def)
  have adv: "advance_streak t (day - 1) day s = s\<lparr>current_streak := 1, start_date := t,
               last_entry_date := Some day\<rparr>"
    using assms(3,4) by (simp add: advance_streak_def)
  show ?thesis
    using saveNewEntry_new_day [OF assms(1) assms(6) assms(5), of p a b c] sf adv by auto
qed

theorem gap_resets_streak_witness:
  "\<exists>r st' s'. saveNewEntry 345600000 4 ''seed-1'' ''a'' ''b'' ''c''
       (empty_store\<lparr>db_streak := [(main_key, \<lparr>streak_id = main_key, start_date = 0,
          current_streak = 3, longest_streak = 3, last_entry_date = Some 2\<rparr>)]\<rparr>) = Inr (r, st')
    \<and> isFirstToday r \<and> get_streak st' = Some s' \<and> current_streak s' = 1 \<and> longest_streak s' = 3
    \<and> last_entry_date s' = Some 4"
  using gap_resets_streak [of "empty_store\<lparr>db_streak := [(main_key, \<lparr>streak_id = main_key,
     start_date = 0, current_streak = 3, longest_streak = 3, last_entry_date = Some 2\<rparr>)]\<rparr>"
     _ 2 4 345600000 "''seed-1''" "''a''" "''b''" "''c''"]
  by (simp add: store_ok_def get_streak_def tbl_get_def tbl_ok_def tbl_keyed_def empty_store_def
      count_on_date_def main_key_def)

text \<open>
  C3. Saving a second entry on a date that already has one reports
  \<open>isFirstToday = false\<close>, \<open>updated = false\<close>, and leaves the streak row unchanged.
\<close>

theorem second_entry_same_day:
  assumes "store_ok st" "0 < count_on_date day st" "get_streak st = Some s"
    "saveNewEntry t day p a b c st = Inr (r, st')"
  shows "\<not> isFirstToday r \<and> \<not> updated r \<and> get_streak st' = Some s"
proof -
  let ?e = "new_entry t day p a b c"
  have fresh: "entry_key t \<notin> fst ` set (db_entries st)"
    using assms(4) by (auto simp: saveNewEntry_def tbl_add_def new_entry_def Let_def
        split: if_splits)
  have us: "updateStreak t day day (st\<lparr>db_entries := db_entries st @ [(entry_key t, ?e)]\<rparr>) = (r, st')"
    using assms(4) saveNewEntry_added [OF assms(1) fresh] by simp
  have "count_on_date day (st\<lparr>db_entries := db_entries st @ [(entry_key t, ?e)]\<rparr>) \<noteq> 1"
    using assms(2) by (simp add: count_on_date_def new_entry_def)
  then show ?thesis
    using us assms(3) by (auto simp: updateStreak_def initializeStreakSummary_def)
qed


theorem second_entry_same_day_witness:
  "\<exists>r st'. saveNewEntry 1000 0 ''seed-1'' ''d'' ''e'' ''f'' one_entry_store = Inr (r, st')
     \<and> \<not> isFirstToday r \<and> \<not> updated r
     \<and> get_streak st' = Some (advance_streak 0 (-1) 0 (fresh_streak 0))"
proof -
  have "\<exists>r st'. saveNewEntry 1000 0 ''seed-1'' ''d'' ''e'' ''f'' one_entry_store = Inr (r, st')"
    by (simp add: one_entry_store_def streak_eval)
  then obtain r st' where e: "saveNewEntry 1000 0 ''seed-1'' ''d'' ''e'' ''f'' one_entry_store = Inr (r, st')"
    by blast
  have h: "store_ok one_entry_store" "0 < count_on_date 0 one_entry_store"
    "get_streak one_entry_store = Some (advance_streak 0 (-1) 0 (fresh_streak 0))"
    by (simp_all add: one_entry_store_def streak_eval store_ok_def tbl_ok_def tbl_keyed_def)
  show ?thesis
    using second_entry_same_day [OF h e] e by blast
qed

text \<open>
  C4. \<open>updateStreak\<close> preserves the streak invariant \<open>0 \<le> current \<le> longest\<close>
  (with \<open>current \<ge> 1\<close> once an entry was counted).
\<close>

theorem updateStreak_preserves_streak_ok:
  assumes "store_ok st" "streak_row_ok st"
  shows "streak_row_ok (snd (updateStreak now today d st))"
proof (cases "count_on_date d st = 1")
  case True
  then show ?thesis
    using updateStreak_first [OF True assms(1), of now today] advance_streak_ok
      streak_or_fresh_ok [OF assms(2), of now]
    by (simp add: streak_row_ok_def)
next
  case False
  obtain s0 st1 where i: "initializeStreakSummary now st = (s0, st1)"
    by (cases "initializeStreakSummary now st")
  have "count_on_date d st1 \<noteq> 1"
    using False count_on_date_initialize [OF i] by simp
  then have "snd (updateStreak now today d st) = snd (initializeStreakSummary now st)"
    using i by (simp add: updateStreak_def)
  then show ?thesis
    using assms(2) by (auto simp: streak_row_ok_def initializeStreakSummary_def fresh_streak_ok
        split: option.splits)
qed

theorem updateStreak_preserves_streak_ok_witness:
  "store_ok empty_store \<and> streak_row_ok empty_store
   \<and> streak_row_ok (snd (updateStreak 0 0 0 empty_store))"
  using updateStreak_preserves_streak_ok [of empty_store 0 0 0]
  by (simp add: store_ok_def streak_row_ok_def get_streak_def empty_store_def tbl_ok_empty
      tbl_keyed_empty tbl_get_empty)

text \<open>
  Scenario of the specification: entries on days 0, 1, 2 give a streak of 3 (longest
  3); skipping day 3 and saving on day 4 gives current 1, longest 3.
\<close>

theorem scenario_days_0_1_2_skip_4:
  "\<exists>st3 st4 s3 s4. save_days [(0, 0), (86400000, 1), (172800000, 2)] empty_store = Inr st3
   \<and> get_streak st3 = Some s3 \<and> current_streak s3 = 3 \<and> longest_streak s3 = 3
   \<and> save_days [(345600000, 4)] st3 = Inr st4 \<and> get_streak st4 = Some s4
   \<and> current_streak s4 = 1 \<and> longest_streak s4 = 3"
  by (simp add: streak_eval)

end
