(* ===== verification/Prompts.thy ===== *)
theory Prompts
  imports Store
begin

text \<open>
  The prompt scheduler of \<open>src/unnamed/part_012\<close> (\<open>lib/prompts.ts\<close>): the seed
  catalogue \<open>SEED_PROMPTS\<close>, the linear congruential generator \<open>pseudoRandom\<close>,
  the deterministic daily prompt \<open>getTodayPrompt\<close>, the once-a-day swap
  (\<open>getSwapPrompt\<close>, \<open>canSwapToday\<close>, \<open>swapTodayPrompt\<close>), the resolution of the
  current prompt (\<open>getCurrentPrompt\<close>) with its storage-free fallback
  (\<open>getFallbackPrompt\<close>), and idempotent seeding (\<open>initializeSeedPrompts\<close>).
  The clock enters as \<open>now\<close> (\<open>new Date()\<close>) and \<open>today\<close> (its local date,
  \<open>getTodayString()\<close>); \<open>Math.random()\<close> enters as the index it selects.
\<close>

section \<open>Catalogue and generator\<close>

definition SEED_PROMPTS :: "(string \<times> string) list" where
  "SEED_PROMPTS = [
     (''Imagine losing your current home or living situation'',
      ''What aspects of your current living situation do you appreciate most?''),
     (''Consider if you lost your ability to communicate with loved ones'',
      ''Who in your life are you most grateful to be able to connect with?''),
     (''Visualize losing your current health and mobility'',
      ''What physical abilities or aspects of your health do you value most?''),
     (''Imagine your primary source of income disappearing'',
      ''What opportunities or resources do you currently have that support you?''),
     (''Consider losing access to the internet and digital connections'',
      ''What digital tools or online communities add value to your life?''),
     (''Visualize losing your independence and needing constant care'',
      ''What aspects of your independence and autonomy do you cherish?''),
     (''Imagine being unable to pursue your hobbies or interests'',
      ''What activities or interests bring you the most joy and fulfillment?''),
     (''Consider losing your ability to learn new things'',
      ''What recent learning or growth experiences have you valued?''),
     (''Visualize losing access to nature and the outdoors'',
      ''What aspects of the natural world do you find most meaningful?''),
     (''Imagine being unable to help or support others'',
      ''How has being able to contribute to others' lives enriched your own?'')]"

text \<open>
  \<open>pseudoRandom\<close>: \<open>(a * seed + c) % m\<close> on doubles.  For the seeds that occur
  (day counts, far below \<open>2^53 / a\<close>) the double arithmetic is exact, so the model
  computes on \<open>int\<close> with the JavaScript remainder, which is negative for a negative
  dividend.
\<close>

definition pseudoRandom :: "int \<Rightarrow> int" where
  "pseudoRandom seed = js_rem (1664525 * seed + 1013904223) (2 ^ 32)"

definition days_since_install :: "ms \<Rightarrow> ms \<Rightarrow> int" where
  "days_since_install installDate now = (now - installDate) div ms_per_day"

definition active_seeds :: "prompt list \<Rightarrow> prompt list" where
  "active_seeds prompts = filter (\<lambda>p. source p = Seed \<and> \<not> archived p) prompts"

datatype prompt_error = No_seed_prompts | Current_prompt_not_found

text \<open>
  \<open>getTodayPrompt\<close>: throws when there is no active seed prompt; otherwise reads
  \<open>seedPrompts[index]\<close>, which is \<open>undefined\<close> (\<open>None\<close>) for a negative index.
\<close>

definition getTodayPrompt :: "ms \<Rightarrow> ms \<Rightarrow> prompt list \<Rightarrow> prompt_error + prompt option" where
  "getTodayPrompt installDate now prompts =
     (let seedPrompts = active_seeds prompts in
      if seedPrompts = [] then Inl No_seed_prompts
      else (let daysSinceInstall = days_since_install installDate now;
                index = js_rem (pseudoRandom daysSinceInstall) (int (length seedPrompts))
            in Inr (js_nth seedPrompts index)))"

text \<open>
  \<open>getSwapPrompt\<close>: active seed prompts other than the current and the last one;
  \<open>r\<close> is \<open>Math.floor(Math.random() * seedPrompts.length)\<close>.  With no alternative
  the current prompt itself is returned, or an error if it is not in the list.
\<close>

definition getSwapPrompt ::
  "string \<Rightarrow> string option \<Rightarrow> prompt list \<Rightarrow> nat \<Rightarrow> prompt_error + prompt option" where
  "getSwapPrompt currentPromptId lastId prompts r =
     (let seedPrompts = filter (\<lambda>p. source p = Seed \<and> \<not> archived p \<and> pid p \<noteq> currentPromptId
                                    \<and> lastId \<noteq> Some (pid p)) prompts in
      if seedPrompts = [] then
        (case find (\<lambda>p. pid p = currentPromptId) prompts of
           None \<Rightarrow> Inl Current_prompt_not_found
         | Some current \<Rightarrow> Inr (Some current))
      else Inr (js_nth seedPrompts (int r)))"

definition canSwapToday :: "day \<Rightarrow> day option \<Rightarrow> bool" where
  "canSwapToday today usedDate \<longleftrightarrow> usedDate \<noteq> Some today"

section \<open>Swap and resolution\<close>

datatype swap_error = Settings_not_found | Swap_used_today | No_alternatives | Swap_failed

text \<open>
  \<open>swapTodayPrompt\<close>.  Every exception inside the \<open>try\<close> (no seed prompts, a
  property read on an \<open>undefined\<close> prompt, current prompt not found) becomes
  \<open>Swap_failed\<close>, with the store unchanged.
\<close>

definition swapTodayPrompt :: "ms \<Rightarrow> ms \<Rightarrow> day \<Rightarrow> nat \<Rightarrow> store \<Rightarrow> (swap_error + prompt) \<times> store" where
  "swapTodayPrompt installDate now today r st =
     (case get_settings st of
        None \<Rightarrow> (Inl Settings_not_found, st)
      | Some settings \<Rightarrow>
          if \<not> canSwapToday today (swapUsedDate settings) then (Inl Swap_used_today, st)
          else (let allPrompts = tbl_values (db_prompts st) in
                case getTodayPrompt installDate now allPrompts of
                  Inr (Some currentPrompt) \<Rightarrow>
                    (case getSwapPrompt (pid currentPrompt) (lastPromptId settings) allPrompts r of
                       Inr (Some newPrompt) \<Rightarrow>
                         if pid newPrompt = pid currentPrompt then (Inl No_alternatives, st)
                         else (Inr newPrompt,
                               put_settings (settings\<lparr>swapUsedDate := Some today,
                                                      lastPromptDate := Some today,
                                                      lastPromptId := Some (pid newPrompt)\<rparr>) st)
                     | _ \<Rightarrow> (Inl Swap_failed, st))
                | _ \<Rightarrow> (Inl Swap_failed, st)))"

text \<open>
  \<open>getFallbackPrompt\<close>: the same selection over the in-memory catalogue, with id
  \<open>seed-(index+1)\<close>; a negative index makes \<open>selectedSeed.text\<close> throw, and the
  catch returns the first catalogue entry as \<open>fallback-1\<close>.
\<close>

definition getFallbackPrompt :: "ms \<Rightarrow> ms \<Rightarrow> prompt" where
  "getFallbackPrompt installDate now =
     (let daysSinceInstall = days_since_install installDate now;
          index = js_rem (pseudoRandom daysSinceInstall) (int (length SEED_PROMPTS))
      in case js_nth SEED_PROMPTS index of
           Some (t, g) \<Rightarrow> \<lparr>pid = ''seed-'' @ dec_int (index + 1), prompt_text = t,
                          gratitude_prompt = Some g, archived = False, p_created_at = now,
                          source = Seed\<rparr>
         | None \<Rightarrow> \<lparr>pid = ''fallback-1'', prompt_text = fst (hd SEED_PROMPTS),
                     gratitude_prompt = Some (snd (hd SEED_PROMPTS)), archived = False,
                     p_created_at = now, source = Seed\<rparr>)"

text \<open>
  \<open>getCurrentPrompt\<close>: the prompt swapped to today, if \<open>lastPromptId\<close> is a
  non-empty string naming a stored prompt; otherwise the default of the day.  The only
  exception the model raises inside the \<open>try\<close> is that of \<open>getTodayPrompt\<close>,
  caught by falling back.  An \<open>undefined\<close> default is returned as such (\<open>None\<close>).
\<close>

definition swapped_prompt :: "day \<Rightarrow> store \<Rightarrow> prompt option" where
  "swapped_prompt today st =
     (case get_settings st of
        None \<Rightarrow> None
      | Some s \<Rightarrow>
          (case lastPromptId s of
             Some lp \<Rightarrow>
               if swapUsedDate s = Some today \<and> lp \<noteq> []
               then find (\<lambda>p. pid p = lp) (tbl_values (db_prompts st)) else None
           | None \<Rightarrow> None))"

definition getCurrentPrompt :: "ms \<Rightarrow> ms \<Rightarrow> day \<Rightarrow> store \<Rightarrow> prompt option" where
  "getCurrentPrompt installDate now today st =
     (case swapped_prompt today st of
        Some p \<Rightarrow> Some p
      | None \<Rightarrow>
          (case getTodayPrompt installDate now (tbl_values (db_prompts st)) of
             Inl _ \<Rightarrow> Some (getFallbackPrompt installDate now)
           | Inr p \<Rightarrow> p))"

section \<open>Seeding\<close>

text \<open>
  \<open>initializeSeedPrompts\<close>: when no seed-sourced row exists, \<open>bulkAdd\<close> of the
  catalogue as rows \<open>seed-1\<close> .. \<open>seed-10\<close>.  Dexie's \<open>bulkAdd\<close> outside a
  transaction adds every row whose key is new and rejects with a \<open>BulkError\<close> if some
  key existed.
\<close>

definition seed_row :: "ms \<Rightarrow> nat \<Rightarrow> string \<times> string \<Rightarrow> prompt" where
  "seed_row now i tg = \<lparr>pid = ''seed-'' @ dec_nat (i + 1), prompt_text = fst tg,
     gratitude_prompt = Some (snd tg), archived = False, p_created_at = now, source = Seed\<rparr>"

definition seed_rows :: "ms \<Rightarrow> prompt list" where
  "seed_rows now = map (\<lambda>(i, tg). seed_row now i tg) (enumerate 0 SEED_PROMPTS)"

definition bulkAdd :: "prompt list \<Rightarrow> prompt table \<Rightarrow> db_error option \<times> prompt table" where
  "bulkAdd rows t =
     (if \<exists>r \<in> set rows. pid r \<in> fst ` set t then Some ConstraintError else None,
      fold (\<lambda>r t. if pid r \<in> fst ` set t then t else t @ [(pid r, r)]) rows t)"

definition initializeSeedPrompts :: "ms \<Rightarrow> store \<Rightarrow> db_error option \<times> store" where
  "initializeSeedPrompts now st =
     (let existingSeeds = length (filter (\<lambda>p. source p = Seed) (tbl_values (db_prompts st))) in
      if existingSeeds > 0 then (None, st)
      else (let (err, t) = bulkAdd (seed_rows now) (db_prompts st) in (err, st\<lparr>db_prompts := t\<rparr>)))"

text \<open>A store after onboarding: default settings and the seeded catalogue.\<close>

definition seeded_store :: store where
  "seeded_store = put_settings (default_settings 0) (snd (initializeSeedPrompts 0 empty_store))"

section \<open>Lemmas\<close>

lemma lcg_mod10: "(1664525 * d + 1013904223) mod 10 = (if even d then 3 else (8::int))"
proof -
  have e: "1664525 * d + 1013904223 = (5 * d + 3) + 10 * (166452 * d + 101390422)"
    by simp
  have m: "(1664525 * d + 1013904223) mod 10 = (5 * d + 3) mod 10"
    by (subst e) (rule mod_mult_self2)
  show ?thesis
  proof (cases "even d")
    case True
    then obtain k where "d = 2 * k" by (rule evenE)
    then have "5 * d + 3 = 3 + 10 * k" by simp
    with m True show ?thesis by simp
  next
    case False
    then obtain k where "d = 2 * k + 1" by (rule oddE)
    then have "5 * d + 3 = 8 + 10 * k" by simp
    with m False show ?thesis by simp
  qed
qed

lemma pseudoRandom_small:
  assumes "0 \<le> d" "d \<le> 1971"
  shows "pseudoRandom d = 1664525 * d + 1013904223"
proof -
  have "0 \<le> 1664525 * d + 1013904223" "1664525 * d + 1013904223 < (2::int) ^ 32"
    using assms by simp_all
  then show ?thesis by (simp add: pseudoRandom_def js_rem_nonneg)
qed

lemma pseudoRandom_bounds:
  assumes "- 609 \<le> d"
  shows "0 \<le> pseudoRandom d \<and> pseudoRandom d < 2 ^ 32"
proof -
  have "0 \<le> 1664525 * d + 1013904223" using assms by simp
  then show ?thesis by (simp add: pseudoRandom_def js_rem_nonneg)
qed


text \<open>
  Between 610 and 3189 days before the install instant the LCG value is negative and
  not reduced by the modulo \<open>2^32\<close>, so its remainder modulo 10 is \<open>-7\<close> or \<open>-2\<close>.
\<close>

lemma pseudoRandom_behind:
  assumes "- 3189 \<le> d" "d \<le> - 610"
  shows "pseudoRandom d = 1664525 * d + 1013904223 \<and> 1664525 * d + 1013904223 < 0"
proof -
  have n: "1664525 * d + 1013904223 < 0" using assms(2) by simp
  have b: "\<bar>1664525 * d + 1013904223\<bar> < (2::int) ^ 32" using assms(1) n by simp
  show ?thesis using n b by (simp add: pseudoRandom_def js_rem_neg)
qed

lemma lcg_index_behind:
  assumes "- 3189 \<le> d" "d \<le> - 610"
  shows "js_rem (pseudoRandom d) 10 < 0"
proof -
  define x where "x = 1664525 * d + 1013904223"
  have px: "pseudoRandom d = x" "x < 0" using pseudoRandom_behind [OF assms] by (simp_all add: x_def)
  have "x mod 10 \<noteq> 0" using lcg_mod10 [of d] by (simp add: x_def)
  then have "(- x) mod 10 \<noteq> 0" by (simp add: zmod_zminus1_eq_if)
  then have "\<bar>x\<bar> mod 10 \<noteq> 0" using px(2) by simp
  moreover have "0 \<le> \<bar>x\<bar> mod 10" by simp
  ultimately show ?thesis using px by (simp add: js_rem_neg)
qed

lemma swapTodayPrompt_InrE:
  assumes "swapTodayPrompt installDate now today r st = (Inr np, st')"
  obtains s cur where "get_settings st = Some s" "swapUsedDate s \<noteq> Some today"
    "getTodayPrompt installDate now (tbl_values (db_prompts st)) = Inr (Some cur)"
    "getSwapPrompt (pid cur) (lastPromptId s) (tbl_values (db_prompts st)) r = Inr (Some np)"
    "pid np \<noteq> pid cur"
    "st' = put_settings (s\<lparr>swapUsedDate := Some today, lastPromptDate := Some today,
                             lastPromptId := Some (pid np)\<rparr>) st"
  using assms
  by (auto simp: swapTodayPrompt_def canSwapToday_def Let_def
      split: option.splits sum.splits if_splits)

lemma getSwapPrompt_new:
  assumes "getSwapPrompt c l ps r = Inr (Some np)" "pid np \<noteq> c"
  shows "np \<in> set ps \<and> source np = Seed \<and> \<not> archived np \<and> l \<noteq> Some (pid np)"
  using assms
  by (auto simp: getSwapPrompt_def Let_def find_Some_iff dest!: js_nth_in_set split: if_splits option.splits)

text \<open>What a successful swap leaves in the store: the swap bookkeeping in the settings row,
  the prompt table unchanged, and the new prompt a stored seed prompt found by its id.\<close>

lemma swapTodayPrompt_Inr_store:
  assumes ok: "store_ok st" and sw: "swapTodayPrompt installDate now today r st = (Inr np, st')"
  shows "(\<exists>s. get_settings st' = Some (s\<lparr>swapUsedDate := Some today, lastPromptDate := Some today,
                                       lastPromptId := Some (pid np)\<rparr>))
         \<and> db_prompts st' = db_prompts st \<and> store_ok st'
         \<and> np \<in> set (tbl_values (db_prompts st)) \<and> source np = Seed
         \<and> find (\<lambda>p. pid p = pid np) (tbl_values (db_prompts st)) = Some np"
proof -
  obtain s cur where s: "get_settings st = Some s" and "swapUsedDate s \<noteq> Some today"
    and "getTodayPrompt installDate now (tbl_values (db_prompts st)) = Inr (Some cur)"
    and gs: "getSwapPrompt (pid cur) (lastPromptId s) (tbl_values (db_prompts st)) r = Inr (Some np)"
    and neq: "pid np \<noteq> pid cur"
    and st': "st' = put_settings (s\<lparr>swapUsedDate := Some today, lastPromptDate := Some today,
                             lastPromptId := Some (pid np)\<rparr>) st"
    by (rule swapTodayPrompt_InrE [OF sw])
  have np: "np \<in> set (tbl_values (db_prompts st)) \<and> source np = Seed"
    using getSwapPrompt_new [OF gs neq] by simp
  have "settings_id s = main_key" using store_ok_settings_id [OF ok s] .
  then have "get_settings st' = Some (s\<lparr>swapUsedDate := Some today, lastPromptDate := Some today,
                             lastPromptId := Some (pid np)\<rparr>)"
    unfolding st' by (simp add: get_settings_put)
  moreover have "find (\<lambda>p. pid p = pid np) (tbl_values (db_prompts st)) = Some np"
    using ok np by (auto simp: store_ok_def intro: tbl_find_keyed)
  moreover have "store_ok st'" unfolding st' using ok by (rule store_ok_put_settings)
  ultimately show ?thesis
    using np by (auto simp: st' put_settings_def)
qed

lemma days_since_install_nonneg: "installDate \<le> now \<Longrightarrow> 0 \<le> days_since_install installDate now"
  by (simp add: days_since_install_def)

lemma getTodayPrompt_index:
  assumes "active_seeds ps \<noteq> []"
  shows "getTodayPrompt installDate now ps
     = Inr (js_nth (active_seeds ps)
              (js_rem (pseudoRandom (days_since_install installDate now)) (int (length (active_seeds ps)))))"
  using assms by (simp add: getTodayPrompt_def Let_def)

lemma getTodayPrompt_defined:
  assumes "installDate \<le> now" "active_seeds ps \<noteq> []"
  shows "\<exists>p. getTodayPrompt installDate now ps = Inr (Some p) \<and> p \<in> set (active_seeds ps)"
proof -
  let ?n = "int (length (active_seeds ps))"
  let ?i = "js_rem (pseudoRandom (days_since_install installDate now)) ?n"
  have "0 \<le> pseudoRandom (days_since_install installDate now)"
    using pseudoRandom_bounds [of "days_since_install installDate now"]
      days_since_install_nonneg [OF assms(1)] by simp
  moreover have "0 < ?n" using assms(2) by simp
  ultimately have "0 \<le> ?i \<and> ?i < ?n" by (rule js_rem_bounds)
  then obtain p where "js_nth (active_seeds ps) ?i = Some p"
    by (simp add: js_nth_def)
  then show ?thesis
    using getTodayPrompt_index [OF assms(2)] js_nth_in_set by auto
qed

lemma seeded_ids:
  "map pid (active_seeds (tbl_values (db_prompts (snd (initializeSeedPrompts t empty_store)))))
     = [''seed-1'', ''seed-10'', ''seed-2'', ''seed-3'', ''seed-4'', ''seed-5'', ''seed-6'',
        ''seed-7'', ''seed-8'', ''seed-9'']"
  by code_simp

lemma lcg_index_ten:
  assumes "0 \<le> d" "d \<le> 1971"
  shows "js_rem (pseudoRandom d) 10 = (if even d then 3 else 8)"
proof -
  have "0 \<le> 1664525 * d + 1013904223" using assms(1) by simp
  then show ?thesis
    using pseudoRandom_small [OF assms] by (simp add: js_rem_nonneg lcg_mod10)
qed

lemma length_SEED_PROMPTS: "length SEED_PROMPTS = 10"
  by (simp add: SEED_PROMPTS_def)

lemma initializeSeedPrompts_no_seeds:
  "db_prompts st = [] \<Longrightarrow>
   initializeSeedPrompts t st = (None, st\<lparr>db_prompts := map (\<lambda>r. (pid r, r)) (seed_rows t)\<rparr>)"
  by (simp add: initializeSeedPrompts_def bulkAdd_def tbl_values_def seed_rows_def seed_row_def
      SEED_PROMPTS_def dec_nat.simps digit_char_def)


lemma seeded_swap_succeeds:
  "\<not> isl (fst (swapTodayPrompt 0 0 0 0 seeded_store))"
  by code_simp

lemma seeded_store_facts:
  "store_ok seeded_store" "\<forall>p \<in> set (tbl_values (db_prompts seeded_store)). pid p \<noteq> []"
  "\<exists>np st'. swapTodayPrompt 0 0 0 0 seeded_store = (Inr np, st')"
proof -
  show "store_ok seeded_store" "\<forall>p \<in> set (tbl_values (db_prompts seeded_store)). pid p \<noteq> []"
    by code_simp+
  show "\<exists>np st'. swapTodayPrompt 0 0 0 0 seeded_store = (Inr np, st')"
    using seeded_swap_succeeds
    by (cases "swapTodayPrompt 0 0 0 0 seeded_store") (metis fst_conv isl_def sum.exhaust)
qed

section \<open>Properties\<close>

text \<open>
  C6. After a successful swap, resolving the current prompt on the same local date
  (at any instant) returns the swapped-to prompt, not the default.
\<close>

theorem swap_then_current_prompt:
  assumes ok: "store_ok st" and ne: "\<forall>p \<in> set (tbl_values (db_prompts st)). pid p \<noteq> []"
    and sw: "swapTodayPrompt installDate now today r st = (Inr np, st')"
  shows "getCurrentPrompt installDate now' today st' = Some np"
proof -
  obtain s where "get_settings st' = Some (s\<lparr>swapUsedDate := Some today, lastPromptDate := Some today,
                             lastPromptId := Some (pid np)\<rparr>)"
    and "db_prompts st' = db_prompts st" "np \<in> set (tbl_values (db_prompts st))"
        "find (\<lambda>p. pid p = pid np) (tbl_values (db_prompts st)) = Some np"
    using swapTodayPrompt_Inr_store [OF ok sw] by blast
  with ne show ?thesis
    by (simp add: getCurrentPrompt_def swapped_prompt_def)
qed

theorem swap_then_current_prompt_witness:
  "\<exists>np st'. swapTodayPrompt 0 0 0 0 seeded_store = (Inr np, st')
     \<and> getCurrentPrompt 0 86399999 0 st' = Some np"
proof -
  obtain np st' where sw: "swapTodayPrompt 0 0 0 0 seeded_store = (Inr np, st')"
    using seeded_store_facts(3) by blast
  show ?thesis
    using swap_then_current_prompt [OF seeded_store_facts(1,2) sw] sw by blast
qed

text \<open>
  C7. Once a swap succeeded, every further swap on the same local date is rejected
  with "once per day" and leaves the store unchanged.
\<close>

theorem second_swap_rejected:
  assumes ok: "store_ok st" and sw: "swapTodayPrompt installDate now today r st = (Inr np, st')"
  shows "swapTodayPrompt installDate2 now2 today r2 st' = (Inl Swap_used_today, st')"
proof -
  obtain s where "get_settings st' = Some (s\<lparr>swapUsedDate := Some today, lastPromptDate := Some today,
                             lastPromptId := Some (pid np)\<rparr>)"
    using swapTodayPrompt_Inr_store [OF ok sw] by blast
  then show ?thesis by (simp add: swapTodayPrompt_def canSwapToday_def)
qed

theorem second_swap_rejected_witness:
  "\<exists>np st'. swapTodayPrompt 0 0 0 0 seeded_store = (Inr np, st')
     \<and> swapTodayPrompt 0 3600000 0 1 st' = (Inl Swap_used_today, st')"
proof -
  obtain np st' where sw: "swapTodayPrompt 0 0 0 0 seeded_store = (Inr np, st')"
    using seeded_store_facts(3) by blast
  show ?thesis
    using second_swap_rejected [OF seeded_store_facts(1) sw] sw by blast
qed

text \<open>
  C8. A successful swap selects an active seed prompt that differs from today's default
  prompt and from the previous swap result recorded in \<open>lastPromptId\<close>.
\<close>

theorem swap_picks_fresh_prompt:
  assumes sw: "swapTodayPrompt installDate now today r st = (Inr np, st')"
  shows "\<exists>s. get_settings st = Some s \<and> source np = Seed \<and> \<not> archived np
    \<and> getTodayPrompt installDate now (tbl_values (db_prompts st)) \<noteq> Inr (Some np)
    \<and> lastPromptId s \<noteq> Some (pid np)"
proof -
  obtain s cur where s: "get_settings st = Some s" and "swapUsedDate s \<noteq> Some today"
    and td: "getTodayPrompt installDate now (tbl_values (db_prompts st)) = Inr (Some cur)"
    and gs: "getSwapPrompt (pid cur) (lastPromptId s) (tbl_values (db_prompts st)) r = Inr (Some np)"
    and neq: "pid np \<noteq> pid cur"
    and "st' = put_settings (s\<lparr>swapUsedDate := Some today, lastPromptDate := Some today,
                             lastPromptId := Some (pid np)\<rparr>) st"
    by (rule swapTodayPrompt_InrE [OF sw])
  show ?thesis
    using s td neq getSwapPrompt_new [OF gs neq] by auto
qed


theorem swap_picks_fresh_prompt_witness:
  "\<exists>np st' s. swapTodayPrompt 0 0 0 0 seeded_store = (Inr np, st')
     \<and> get_settings seeded_store = Some s \<and> source np = Seed \<and> \<not> archived np
     \<and> getTodayPrompt 0 0 (tbl_values (db_prompts seeded_store)) \<noteq> Inr (Some np)
     \<and> lastPromptId s \<noteq> Some (pid np)"
proof -
  obtain np st' where sw: "swapTodayPrompt 0 0 0 0 seeded_store = (Inr np, st')"
    using seeded_store_facts(3) by blast
  show ?thesis
    using swap_picks_fresh_prompt [OF sw] sw by blast
qed

text \<open>
  C9. Whenever the clock is not before the install instant, resolving the current prompt
  yields a prompt: the swapped one, the default of the day, or the in-memory fallback
  when the store holds no active seed prompt.
\<close>

theorem getCurrentPrompt_total:
  assumes "installDate \<le> now"
  shows "\<exists>p. getCurrentPrompt installDate now today st = Some p"
proof (cases "active_seeds (tbl_values (db_prompts st)) = []")
  case True
  then show ?thesis
    by (auto simp: getCurrentPrompt_def getTodayPrompt_def split: option.splits)
next
  case False
  then show ?thesis
    using getTodayPrompt_defined [OF assms False]
    by (auto simp: getCurrentPrompt_def split: option.splits)
qed

theorem getCurrentPrompt_total_witness:
  "(0::int) \<le> 0 \<and> (\<exists>p. getCurrentPrompt 0 0 0 empty_store = Some p)"
  using getCurrentPrompt_total [of 0 0 0 empty_store] by simp

text \<open>
  C10. With 10 active seed prompts, during the first 1972 days after installation the
  default prompt is the 4th active seed prompt on even day counts and the 9th on odd
  ones: \<open>(1664525 d + 1013904223) % 10\<close> is 3 or 8, so the other eight prompts
  are never the default.
\<close>

theorem default_prompt_two_choices:
  assumes "0 \<le> days_since_install installDate now" "days_since_install installDate now \<le> 1971"
    "length (active_seeds ps) = 10"
  shows "getTodayPrompt installDate now ps
     = Inr (Some (active_seeds ps ! (if even (days_since_install installDate now) then 3 else 8)))"
proof -
  let ?d = "days_since_install installDate now"
  have "pseudoRandom ?d = 1664525 * ?d + 1013904223"
    using assms(1,2) by (rule pseudoRandom_small)
  moreover have "0 \<le> 1664525 * ?d + 1013904223" using assms(1) by simp
  ultimately have "js_rem (pseudoRandom ?d) 10 = (if even ?d then 3 else 8)"
    by (simp add: js_rem_nonneg lcg_mod10)
  moreover have "active_seeds ps \<noteq> []" using assms(3) by auto
  ultimately show ?thesis
    using assms(3) getTodayPrompt_index [of ps installDate now] by (simp add: js_nth_def)
qed

theorem default_prompt_two_choices_witness:
  "0 \<le> days_since_install 0 86400000 \<and> days_since_install 0 86400000 \<le> 1971
   \<and> length (active_seeds (tbl_values (db_prompts seeded_store))) = 10
   \<and> getTodayPrompt 0 86400000 (tbl_values (db_prompts seeded_store))
       = Inr (Some (active_seeds (tbl_values (db_prompts seeded_store)) ! 8))"
proof -
  have h: "0 \<le> days_since_install 0 86400000" "days_since_install 0 86400000 \<le> 1971"
    "length (active_seeds (tbl_values (db_prompts seeded_store))) = 10"
    "\<not> even (days_since_install 0 86400000)"
    by code_simp+
  show ?thesis
    using default_prompt_two_choices [OF h(1-3)] h by simp
qed

text \<open>
  C11. After seeding, on each of those days the default read from the store (rows in
  primary-key order \<open>seed-1, seed-10, seed-2, ...\<close>) and the fallback computed from
  the in-memory catalogue (ids \<open>seed-(index+1)\<close>) are different prompts.
\<close>

theorem fallback_differs_from_stored_default:
  assumes "0 \<le> days_since_install installDate now" "days_since_install installDate now \<le> 1971"
  shows "\<exists>p. getTodayPrompt installDate now
                (tbl_values (db_prompts (snd (initializeSeedPrompts t empty_store)))) = Inr (Some p)
           \<and> pid p \<noteq> pid (getFallbackPrompt installDate now)"
proof -
  let ?ps = "tbl_values (db_prompts (snd (initializeSeedPrompts t empty_store)))"
  let ?d = "days_since_install installDate now"
  have ids: "map pid (active_seeds ?ps) = [''seed-1'', ''seed-10'', ''seed-2'', ''seed-3'', ''seed-4'',
        ''seed-5'', ''seed-6'', ''seed-7'', ''seed-8'', ''seed-9'']"
    by (rule seeded_ids)
  have len: "length (active_seeds ?ps) = 10"
    using arg_cong [OF ids, of length] by simp
  have ix: "js_rem (pseudoRandom ?d) 10 = (if even ?d then 3 else 8)"
    using assms by (rule lcg_index_ten)
  have ne: "active_seeds ?ps \<noteq> []" using len by auto
  have p3: "pid (active_seeds ?ps ! 3) = ''seed-3''"
    using arg_cong [OF ids, of "\<lambda>xs. xs ! 3"] len by simp
  have p8: "pid (active_seeds ?ps ! 8) = ''seed-8''"
    using arg_cong [OF ids, of "\<lambda>xs. xs ! 8"] len by simp
  have fb: "pid (getFallbackPrompt installDate now) = (if even ?d then ''seed-4'' else ''seed-9'')"
    using ix by (simp add: getFallbackPrompt_def length_SEED_PROMPTS js_nth_def SEED_PROMPTS_def
        dec_int_def dec_nat.simps digit_char_def)
  have td: "getTodayPrompt installDate now ?ps = Inr (Some (active_seeds ?ps ! (if even ?d then 3 else 8)))"
    using getTodayPrompt_index [OF ne, of installDate now] ix len by (simp add: js_nth_def)
  show ?thesis
    using td p3 p8 fb by auto
qed


theorem fallback_differs_from_stored_default_witness:
  "0 \<le> days_since_install 0 0 \<and> days_since_install 0 0 \<le> 1971
   \<and> (\<exists>p. getTodayPrompt 0 0 (tbl_values (db_prompts (snd (initializeSeedPrompts 0 empty_store))))
            = Inr (Some p) \<and> pid p \<noteq> pid (getFallbackPrompt 0 0))"
proof -
  have h: "0 \<le> days_since_install 0 0" "days_since_install 0 0 \<le> 1971"
    by (simp_all add: days_since_install_def)
  show ?thesis
    using fallback_differs_from_stored_default [OF h, of 0] h by simp
qed

text \<open>
  The default prompt changes at the install time of day, not at local midnight:
  two instants of the same (UTC) calendar day, 09:00 and 13:00 of day 1 for an install at
  12:00 of day 0, get different default prompts.
\<close>

theorem default_prompt_changes_within_calendar_day:
  "(118800000::int) div ms_per_day = 133200000 div ms_per_day
   \<and> map_sum id (map_option pid) (getTodayPrompt 43200000 118800000
        (tbl_values (db_prompts (snd (initializeSeedPrompts 0 empty_store))))) = Inr (Some ''seed-3'')
   \<and> map_sum id (map_option pid) (getTodayPrompt 43200000 133200000
        (tbl_values (db_prompts (snd (initializeSeedPrompts 0 empty_store))))) = Inr (Some ''seed-8'')"
  by code_simp

text \<open>
  C13. If the clock is between 610 and 3189 days behind the install instant and no
  prompt was swapped in today, the default prompt of the ten seeds is \<open>undefined\<close>: the
  current prompt resolves to nothing, and a swap allowed today fails.
\<close>

theorem current_prompt_undefined_when_clock_behind:
  assumes sw: "swapped_prompt today st = None"
    and ten: "length (active_seeds (tbl_values (db_prompts st))) = 10"
    and d: "- 3189 \<le> days_since_install installDate now" "days_since_install installDate now \<le> - 610"
  shows "getCurrentPrompt installDate now today st = None
    \<and> (get_settings st = Some s \<longrightarrow> canSwapToday today (swapUsedDate s)
         \<longrightarrow> fst (swapTodayPrompt installDate now today r st) = Inl Swap_failed)"
proof -
  have t: "getTodayPrompt installDate now (tbl_values (db_prompts st)) = Inr None"
    using lcg_index_behind [OF d] ten by (auto simp: getTodayPrompt_def js_nth_def Let_def)
  show ?thesis
    using t sw by (auto simp: getCurrentPrompt_def swapTodayPrompt_def)
qed

theorem current_prompt_undefined_when_clock_behind_witness:
  "getCurrentPrompt 0 (- 610 * ms_per_day) 0 seeded_store = None
   \<and> fst (swapTodayPrompt 0 (- 610 * ms_per_day) 0 0 seeded_store) = Inl Swap_failed"
proof -
  have ten: "length (active_seeds (tbl_values (db_prompts seeded_store))) = 10"
    using arg_cong [OF seeded_ids [of 0], of length] by (simp add: seeded_store_def put_settings_def)
  have g: "get_settings seeded_store = Some (default_settings 0)"
    by (simp add: seeded_store_def get_settings_put default_settings_def main_key_def)
  have sw: "swapped_prompt 0 seeded_store = None"
    using g by (simp add: swapped_prompt_def default_settings_def)
  show ?thesis
    using current_prompt_undefined_when_clock_behind [OF sw ten, of 0 "- 610 * ms_per_day"
            "default_settings 0" 0] g
    by (simp add: days_since_install_def canSwapToday_def default_settings_def)
qed

text \<open>
  C14. Seeding an empty prompt table inserts the ten catalogue rows \<open>seed-1\<close> ..
  \<open>seed-10\<close>, and seeding again changes nothing.
\<close>

theorem initializeSeedPrompts_idempotent:
  assumes "db_prompts st = []"
  shows "map pid (tbl_values (db_prompts (snd (initializeSeedPrompts t st))))
           = [''seed-1'', ''seed-10'', ''seed-2'', ''seed-3'', ''seed-4'', ''seed-5'', ''seed-6'',
              ''seed-7'', ''seed-8'', ''seed-9'']
    \<and> initializeSeedPrompts t' (snd (initializeSeedPrompts t st)) = (None, snd (initializeSeedPrompts t st))"
proof -
  have r: "map pid (tbl_values (map (\<lambda>r. (pid r, r)) (seed_rows t)))
           = [''seed-1'', ''seed-10'', ''seed-2'', ''seed-3'', ''seed-4'', ''seed-5'', ''seed-6'',
              ''seed-7'', ''seed-8'', ''seed-9'']"
    by code_simp
  have n: "0 < length (filter (\<lambda>p. source p = Seed) (tbl_values (map (\<lambda>r. (pid r, r)) (seed_rows t))))"
    by code_simp
  show ?thesis
    using initializeSeedPrompts_no_seeds [OF assms, of t] r n
    by (simp add: initializeSeedPrompts_def [of t'])
qed

theorem initializeSeedPrompts_idempotent_witness:
  "db_prompts empty_store = []
   \<and> initializeSeedPrompts 5 (snd (initializeSeedPrompts 0 empty_store))
       = (None, snd (initializeSeedPrompts 0 empty_store))"
  using initializeSeedPrompts_idempotent [of empty_store 0 5] by (simp add: empty_store_def)

end
