(* ===== verification/Telemetry.thy ===== *)
theory Telemetry
  imports Store
begin

text \<open>
  The telemetry outbox, \<open>TelemetryService\<close> of \<open>src/src/lib/telemetry.ts\<close>.  The
  service's in-memory queue and the JSON value it keeps under \<open>nvj_telemetry_queue\<close>
  are the record \<open>telemetry_state\<close>; its settings live in the store's settings row and
  are read and written through \<open>getTelemetrySettings\<close> and
  \<open>updateTelemetrySettings\<close>, with the \<open>||\<close> and \<open>??\<close> of the source.  The network is an
  oracle \<open>net\<close> telling which events a drain delivers; the clock, \<open>Math.random\<close>, the
  platform and the time zone of a call are a \<open>tel_ctx\<close>.  A drain (\<open>processQueue\<close>)
  runs to completion before the next operation: the service's
  \<open>processingQueue\<close> flag then always reads \<open>false\<close> at the start of a call.
\<close>

datatype event_type = Activation | Daily_completion | D7_completion

text \<open>\<open>interface TelemetryEvent\<close>; time stamps are the ISO strings' instants.\<close>

record TelemetryEvent =
  ev_id :: string
  eventType :: event_type
  ev_timestamp :: ms
  ev_anonId :: string
  appVersion :: string
  ev_platform :: string
  ev_timezone :: string
  dayNumber :: "int option"
  retryCount :: "nat option"
  queuedAt :: ms

text \<open>\<open>interface TelemetrySettings\<close>; \<open>lastCompletionDate\<close> is a UTC calendar day.\<close>

record TelemetrySettings =
  isOptedIn :: bool
  ts_anonId :: "string option"
  activationSent :: bool
  consecutiveDays :: int
  lastCompletionDate :: "day option"
  d7EventSent :: bool
  installDate :: ms

text \<open>\<open>Partial<TelemetrySettings>\<close>: an absent or \<open>undefined\<close> field is \<open>None\<close>.\<close>

record ts_update =
  u_isOptedIn :: "bool option"
  u_anonId :: "string option"
  u_activationSent :: "bool option"
  u_consecutiveDays :: "int option"
  u_lastCompletionDate :: "day option"
  u_d7EventSent :: "bool option"

definition no_update :: ts_update where
  "no_update = \<lparr>u_isOptedIn = None, u_anonId = None, u_activationSent = None,
     u_consecutiveDays = None, u_lastCompletionDate = None, u_d7EventSent = None\<rparr>"

record telemetry_state =
  eventQueue :: "TelemetryEvent list"
  persisted_queue :: "TelemetryEvent list"
  retry_timers :: "ms list"

text \<open>
  What a call reads from its environment: \<open>Date.now()\<close>, the draws of \<open>Math.random()\<close>
  for a new anonymous id, for the id of the call's event and for the id of a second event
  the call creates (the D7 event of a daily completion), the platform and the time zone.
\<close>

record tel_ctx =
  t_now :: ms
  rand_anon :: string
  rand_evt :: string
  rand_evt2 :: string
  t_platform :: string
  t_timezone :: string

type_synonym tel_config = "telemetry_state \<times> store"

definition MAX_RETRY_ATTEMPTS :: nat where
  "MAX_RETRY_ATTEMPTS = 5"

definition RETRY_DELAYS :: "ms list" where
  "RETRY_DELAYS = [1000, 2000, 5000, 10000, 30000]"

text \<open>\<open>saveQueueToStorage\<close> after a change of the queue.\<close>

definition set_queue :: "TelemetryEvent list \<Rightarrow> telemetry_state \<Rightarrow> telemetry_state" where
  "set_queue q ts = ts\<lparr>eventQueue := q, persisted_queue := q\<rparr>"

text \<open>\<open>loadQueueFromStorage\<close> at construction.\<close>

definition loadQueueFromStorage :: "TelemetryEvent list \<Rightarrow> telemetry_state" where
  "loadQueueFromStorage stored =
     \<lparr>eventQueue = stored, persisted_queue = stored, retry_timers = []\<rparr>"

definition generateAnonId :: "tel_ctx \<Rightarrow> string" where
  "generateAnonId cx = ''anon_'' @ dec_int (t_now cx) @ ''_'' @ rand_anon cx"

definition utc_day :: "ms \<Rightarrow> day" where
  "utc_day t = t div ms_per_day"

text \<open>\<open>getDaysSinceInstall\<close>: \<open>Math.ceil(|now - installAt| / 86400000)\<close>.\<close>

definition getDaysSinceInstall :: "ms \<Rightarrow> store \<Rightarrow> int" where
  "getDaysSinceInstall now st =
     (case get_settings st of
        None \<Rightarrow> 0
      | Some s \<Rightarrow> if installAt s = 0 then 0
                 else - ((- \<bar>now - installAt s\<bar>) div ms_per_day))"

definition js_or_false :: "bool option \<Rightarrow> bool" where
  "js_or_false b = (case b of None \<Rightarrow> False | Some x \<Rightarrow> x)"

definition getTelemetrySettings :: "store \<Rightarrow> TelemetrySettings option" where
  "getTelemetrySettings st =
     (case get_settings st of
        None \<Rightarrow> None
      | Some s \<Rightarrow> Some \<lparr>isOptedIn = telemetryOptIn s, ts_anonId = telemetryAnonId s,
          activationSent = js_or_false (telemetryActivationSent s),
          consecutiveDays = (case telemetryConsecutiveDays s of None \<Rightarrow> 0 | Some n \<Rightarrow> n),
          lastCompletionDate = telemetryLastCompletionDate s,
          d7EventSent = js_or_false (telemetryD7EventSent s),
          installDate = installAt s\<rparr>)"

text \<open>The spread \<open>{...settings, ...}\<close> of \<open>updateTelemetrySettings\<close>, field by field.\<close>

definition apply_ts_update :: "ts_update \<Rightarrow> settings \<Rightarrow> settings" where
  "apply_ts_update u s = s\<lparr>
     telemetryOptIn := coalesce (u_isOptedIn u) (telemetryOptIn s),
     telemetryAnonId := coalesce_opt (u_anonId u) (telemetryAnonId s),
     telemetryActivationSent := coalesce_opt (u_activationSent u) (telemetryActivationSent s),
     telemetryConsecutiveDays := coalesce_opt (u_consecutiveDays u) (telemetryConsecutiveDays s),
     telemetryLastCompletionDate :=
       coalesce_opt (u_lastCompletionDate u) (telemetryLastCompletionDate s),
     telemetryD7EventSent := coalesce_opt (u_d7EventSent u) (telemetryD7EventSent s)\<rparr>"

definition updateTelemetrySettings :: "ts_update \<Rightarrow> store \<Rightarrow> store" where
  "updateTelemetrySettings u st =
     (case get_settings st of
        None \<Rightarrow> st
      | Some s \<Rightarrow> put_settings (apply_ts_update u s) st)"

text \<open>The stored anonymous id when it is truthy.\<close>

definition stored_anonId :: "TelemetrySettings option \<Rightarrow> string option" where
  "stored_anonId t = (case t of
       Some ts \<Rightarrow> (case ts_anonId ts of Some a \<Rightarrow> if a = [] then None else Some a | None \<Rightarrow> None)
     | None \<Rightarrow> None)"

definition createEvent :: "tel_ctx \<Rightarrow> event_type \<Rightarrow> int option \<Rightarrow> store
                           \<Rightarrow> TelemetryEvent \<times> store" where
  "createEvent cx et dn st =
     (let t = getTelemetrySettings st;
          anonId = (case stored_anonId t of Some a \<Rightarrow> a | None \<Rightarrow> generateAnonId cx);
          st1 = (if stored_anonId t = None
                 then updateTelemetrySettings (no_update\<lparr>u_anonId := Some anonId\<rparr>) st else st)
      in (\<lparr>ev_id = ''evt_'' @ dec_int (t_now cx) @ ''_'' @ rand_evt cx, eventType = et,
           ev_timestamp = t_now cx, ev_anonId = anonId, appVersion = ''0.1.0'',
           ev_platform = t_platform cx, ev_timezone = t_timezone cx, dayNumber = dn,
           retryCount = Some 0, queuedAt = t_now cx\<rparr>, st1))"

section \<open>The drain\<close>

definition retries :: "TelemetryEvent \<Rightarrow> nat" where
  "retries e = (case retryCount e of None \<Rightarrow> 0 | Some n \<Rightarrow> n)"

definition remove_event :: "TelemetryEvent \<Rightarrow> TelemetryEvent list \<Rightarrow> TelemetryEvent list" where
  "remove_event e q = filter (\<lambda>x. ev_id x \<noteq> ev_id e) q"

text \<open>\<open>Array.prototype.findIndex\<close>, \<open>None\<close> for \<open>-1\<close>.\<close>

fun findIndex :: "('a \<Rightarrow> bool) \<Rightarrow> 'a list \<Rightarrow> nat option" where
  "findIndex P [] = None"
| "findIndex P (x # xs) = (if P x then Some 0 else map_option Suc (findIndex P xs))"

text \<open>
  The loop of \<open>processQueue\<close> over the snapshot \<open>eventsToProcess\<close>: an event out of
  retries is removed, a delivered one is removed, and the first failure increments the
  retry count of the queued event, schedules a retry after
  \<open>RETRY_DELAYS[min(retryCount - 1, 4)]\<close> and stops the loop.
\<close>

fun drain :: "(TelemetryEvent \<Rightarrow> bool) \<Rightarrow> TelemetryEvent list \<Rightarrow> TelemetryEvent list
              \<Rightarrow> TelemetryEvent list \<times> ms option" where
  "drain net [] q = (q, None)"
| "drain net (e # es) q =
     (if MAX_RETRY_ATTEMPTS \<le> retries e then drain net es (remove_event e q)
      else if net e then drain net es (remove_event e q)
      else (case findIndex (\<lambda>x. ev_id x = ev_id e) q of
              Some i \<Rightarrow> (let rc = retries (q ! i) + 1
                         in (q[i := (q ! i)\<lparr>retryCount := Some rc\<rparr>],
                             Some (RETRY_DELAYS ! min (rc - 1) (length RETRY_DELAYS - 1))))
            | None \<Rightarrow> (q, None)))"

text \<open>\<open>processQueue\<close>: nothing for an empty queue; the queue is cleared when opted out.\<close>

definition processQueue :: "(TelemetryEvent \<Rightarrow> bool) \<Rightarrow> ms \<Rightarrow> tel_config \<Rightarrow> tel_config" where
  "processQueue net now c =
     (case c of (ts, st) \<Rightarrow>
        if eventQueue ts = [] then (ts, st)
        else (case getTelemetrySettings st of
                Some t \<Rightarrow>
                  if isOptedIn t
                  then (case drain net (eventQueue ts) (eventQueue ts) of
                          (q, d) \<Rightarrow> (set_queue q ts\<lparr>retry_timers := retry_timers ts @
                                       (case d of None \<Rightarrow> [] | Some delay \<Rightarrow> [now + delay])\<rparr>, st))
                  else (set_queue [] ts, st)
              | None \<Rightarrow> (set_queue [] ts, st)))"

definition push_event :: "TelemetryEvent \<Rightarrow> telemetry_state \<Rightarrow> telemetry_state" where
  "push_event e ts = set_queue (eventQueue ts @ [e]) ts"

section \<open>Public operations\<close>

definition sendActivationEvent :: "tel_ctx \<Rightarrow> (TelemetryEvent \<Rightarrow> bool) \<Rightarrow> tel_config
                                   \<Rightarrow> tel_config" where
  "sendActivationEvent cx net c =
     (case c of (ts, st) \<Rightarrow>
        (case getTelemetrySettings st of
           None \<Rightarrow> (ts, st)
         | Some t \<Rightarrow>
             if \<not> isOptedIn t \<or> activationSent t then (ts, st)
             else (case createEvent cx Activation None st of
                     (e, st1) \<Rightarrow>
                       processQueue net (t_now cx)
                         (push_event e ts,
                          updateTelemetrySettings (no_update\<lparr>u_activationSent := Some True\<rparr>) st1))))"

definition sendD7CompletionEvent :: "tel_ctx \<Rightarrow> (TelemetryEvent \<Rightarrow> bool) \<Rightarrow> tel_config
                                     \<Rightarrow> tel_config" where
  "sendD7CompletionEvent cx net c =
     (case c of (ts, st) \<Rightarrow>
        (case getTelemetrySettings st of
           None \<Rightarrow> (ts, st)
         | Some t \<Rightarrow>
             if \<not> isOptedIn t \<or> d7EventSent t \<or> consecutiveDays t < 7 then (ts, st)
             else (case createEvent cx D7_completion None st of
                     (e, st1) \<Rightarrow>
                       processQueue net (t_now cx)
                         (push_event e ts,
                          updateTelemetrySettings (no_update\<lparr>u_d7EventSent := Some True\<rparr>) st1))))"

text \<open>
  \<open>sendDailyCompletionEvent\<close>: today and yesterday are UTC dates
  (\<open>toISOString().split('T')[0]\<close>); yesterday is taken as the instant one day earlier.
\<close>

definition sendDailyCompletionEvent :: "tel_ctx \<Rightarrow> (TelemetryEvent \<Rightarrow> bool) \<Rightarrow> tel_config
                                        \<Rightarrow> tel_config" where
  "sendDailyCompletionEvent cx net c =
     (case c of (ts, st) \<Rightarrow>
        (case getTelemetrySettings st of
           None \<Rightarrow> (ts, st)
         | Some t \<Rightarrow>
             if \<not> isOptedIn t then (ts, st)
             else
               (let today = utc_day (t_now cx);
                    dn = getDaysSinceInstall (t_now cx) st
                in if lastCompletionDate t = Some today then (ts, st)
                   else (case createEvent cx Daily_completion (Some dn) st of
                           (e, st1) \<Rightarrow>
                             (let ts1 = push_event e ts;
                                  yesterday = utc_day (t_now cx - ms_per_day);
                                  n = (if lastCompletionDate t = Some yesterday
                                       then consecutiveDays t + 1 else 1);
                                  st2 = updateTelemetrySettings (no_update\<lparr>
                                          u_consecutiveDays := Some n,
                                          u_lastCompletionDate := Some today,
                                          u_d7EventSent := Some (if 7 \<le> n then False else d7EventSent t)\<rparr>) st1;
                                  c3 = (if n = 7 \<and> \<not> d7EventSent t
                                        then sendD7CompletionEvent (cx\<lparr>rand_evt := rand_evt2 cx\<rparr>) net (ts1, st2) else (ts1, st2))
                              in processQueue net (t_now cx) c3)))))"

definition optIn :: "tel_ctx \<Rightarrow> (TelemetryEvent \<Rightarrow> bool) \<Rightarrow> tel_config \<Rightarrow> tel_config" where
  "optIn cx net c =
     (case c of (ts, st) \<Rightarrow>
        (case getTelemetrySettings st of
           None \<Rightarrow> (ts, st)
         | Some t \<Rightarrow>
             (let anonId = (case stored_anonId (Some t) of Some a \<Rightarrow> a | None \<Rightarrow> generateAnonId cx);
                  st1 = updateTelemetrySettings
                          (no_update\<lparr>u_isOptedIn := Some True, u_anonId := Some anonId\<rparr>) st;
                  c2 = (if \<not> activationSent t then sendActivationEvent cx net (ts, st1) else (ts, st1))
              in processQueue net (t_now cx) c2)))"

text \<open>\<open>optOut\<close>: the \<open>undefined\<close> fields of the update are \<open>None\<close>, so \<open>??\<close> keeps them.\<close>

definition optOut :: "tel_config \<Rightarrow> tel_config" where
  "optOut c =
     (case c of (ts, st) \<Rightarrow>
        (set_queue [] ts,
         ls_remove ''nvj_telemetry_anonId''
           (updateTelemetrySettings (no_update\<lparr>u_isOptedIn := Some False, u_anonId := None,
              u_activationSent := Some False, u_consecutiveDays := Some 0,
              u_lastCompletionDate := None, u_d7EventSent := Some False\<rparr>) st)))"

definition telemetry_isOptedIn :: "store \<Rightarrow> bool" where
  "telemetry_isOptedIn st = (case getTelemetrySettings st of None \<Rightarrow> False | Some t \<Rightarrow> isOptedIn t)"

definition getQueueStatus :: "telemetry_state \<Rightarrow> nat \<times> (string \<times> event_type \<times> nat \<times> ms) list" where
  "getQueueStatus ts =
     (length (eventQueue ts), map (\<lambda>e. (ev_id e, eventType e, retries e, queuedAt e)) (eventQueue ts))"

text \<open>Construction of the singleton: load the stored queue, then drain once.\<close>

definition telemetry_boot :: "(TelemetryEvent \<Rightarrow> bool) \<Rightarrow> ms \<Rightarrow> TelemetryEvent list \<Rightarrow> store
                              \<Rightarrow> tel_config" where
  "telemetry_boot net now stored st = processQueue net now (loadQueueFromStorage stored, st)"

section \<open>Runs of the service\<close>

text \<open>
  The calls a client makes on the singleton (\<open>optIn\<close>, \<open>optOut\<close>, the three senders) and the
  drain started by a timer (the 30 s interval of \<open>startQueueProcessor\<close> or a retry
  scheduled by \<open>processQueue\<close>).
\<close>

datatype tel_op = Op_optIn | Op_optOut | Op_activation | Op_daily | Op_d7 | Op_timer

fun tel_step :: "tel_ctx \<Rightarrow> (TelemetryEvent \<Rightarrow> bool) \<Rightarrow> tel_op \<Rightarrow> tel_config \<Rightarrow> tel_config" where
  "tel_step cx net Op_optIn c = optIn cx net c"
| "tel_step cx net Op_optOut c = optOut c"
| "tel_step cx net Op_activation c = sendActivationEvent cx net c"
| "tel_step cx net Op_daily c = sendDailyCompletionEvent cx net c"
| "tel_step cx net Op_d7 c = sendD7CompletionEvent cx net c"
| "tel_step cx net Op_timer c = processQueue net (t_now cx) c"

fun tel_run :: "(tel_ctx \<times> (TelemetryEvent \<Rightarrow> bool) \<times> tel_op) list \<Rightarrow> tel_config \<Rightarrow> tel_config" where
  "tel_run [] c = c"
| "tel_run ((cx, net, op) # rest) c = tel_run rest (tel_step cx net op c)"

text \<open>\<open>n\<close> timer drains in a row, the \<open>k\<close>-th against the network \<open>nets k\<close>.\<close>

fun drains :: "(nat \<Rightarrow> TelemetryEvent \<Rightarrow> bool) \<Rightarrow> ms \<Rightarrow> nat \<Rightarrow> tel_config \<Rightarrow> tel_config" where
  "drains nets now 0 c = c"
| "drains nets now (Suc k) c = drains nets now k (processQueue (nets k) now c)"

text \<open>The measure of the drain: an event with \<open>r\<close> retries can be tried \<open>6 - r\<close> more times.\<close>

definition queue_weight :: "TelemetryEvent list \<Rightarrow> nat" where
  "queue_weight q = sum_list (map (\<lambda>e. 6 - min 5 (retries e)) q)"

definition opted_out :: "tel_config \<Rightarrow> bool" where
  "opted_out c \<longleftrightarrow> store_ok (snd c) \<and> \<not> telemetry_isOptedIn (snd c) \<and> eventQueue (fst c) = []"

text \<open>The settings fields a daily completion reads to decide whether it already ran today.\<close>

definition tel_view :: "store \<Rightarrow> (bool \<times> day option) option" where
  "tel_view st = map_option (\<lambda>s. (telemetryOptIn s, telemetryLastCompletionDate s)) (get_settings st)"

subsection \<open>Fixtures\<close>

definition tel_cx :: "ms \<Rightarrow> tel_ctx" where
  "tel_cx t = \<lparr>t_now = t, rand_anon = ''r'', rand_evt = ''a'', rand_evt2 = ''b'',
     t_platform = ''Linux'', t_timezone = ''UTC''\<rparr>"

definition offline :: "TelemetryEvent \<Rightarrow> bool" where
  "offline e = False"

definition tel_store0 :: store where
  "tel_store0 = put_settings (default_settings 0) empty_store"

definition tel_store_in :: store where
  "tel_store_in = put_settings ((default_settings 0)\<lparr>telemetryOptIn := True,
     telemetryAnonId := Some ''anon_1''\<rparr>) empty_store"

definition tel_store_d7 :: store where
  "tel_store_d7 = put_settings ((default_settings 0)\<lparr>telemetryOptIn := True,
     telemetryAnonId := Some ''anon_1'', telemetryConsecutiveDays := Some 7,
     telemetryLastCompletionDate := Some 7, telemetryD7EventSent := Some True\<rparr>) empty_store"

definition tel_event0 :: TelemetryEvent where
  "tel_event0 = \<lparr>ev_id = ''evt_1_a'', eventType = Activation, ev_timestamp = 1,
     ev_anonId = ''anon_1'', appVersion = ''0.1.0'', ev_platform = ''Linux'', ev_timezone = ''UTC'',
     dayNumber = None, retryCount = Some 0, queuedAt = 1\<rparr>"

text \<open>One daily completion an hour after UTC midnight of each given day, offline.\<close>

definition daily_ops :: "int list \<Rightarrow> (tel_ctx \<times> (TelemetryEvent \<Rightarrow> bool) \<times> tel_op) list" where
  "daily_ops ds = map (\<lambda>d. (tel_cx (d * ms_per_day + 3600000), offline, Op_daily)) ds"

definition count_type :: "event_type \<Rightarrow> tel_config \<Rightarrow> nat" where
  "count_type et c = length (filter (\<lambda>e. eventType e = et) (eventQueue (fst c)))"

section \<open>Lemmas\<close>

subsection \<open>Settings access\<close>

lemma apply_ts_update_id [simp]: "settings_id (apply_ts_update u s) = settings_id s"
  by (simp add: apply_ts_update_def)

lemma map_option_ident' [simp]: "map_option (\<lambda>p. p) x = x"
  by (simp add: option.map_ident)

lemma store_ok_empty: "store_ok empty_store"
  by (simp add: store_ok_def empty_store_def tbl_ok_def tbl_keyed_def)

lemma get_settings_updateTel:
  "store_ok st \<Longrightarrow>
   get_settings (updateTelemetrySettings u st) = map_option (apply_ts_update u) (get_settings st)"
  by (cases "get_settings st")
     (auto simp: updateTelemetrySettings_def get_settings_put dest: store_ok_settings_id)

lemma store_ok_updateTel: "store_ok st \<Longrightarrow> store_ok (updateTelemetrySettings u st)"
  by (simp add: updateTelemetrySettings_def store_ok_put_settings split: option.split)

lemma isOptedIn_updateTel:
  "store_ok st \<Longrightarrow> telemetry_isOptedIn (updateTelemetrySettings u st) =
     (case get_settings st of None \<Rightarrow> False | Some s \<Rightarrow> coalesce (u_isOptedIn u) (telemetryOptIn s))"
  by (simp add: get_settings_updateTel telemetry_isOptedIn_def getTelemetrySettings_def
                apply_ts_update_def split: option.split)

lemma getTelemetrySettings_ls [simp]:
  "getTelemetrySettings (ls_remove k st) = getTelemetrySettings st"
  "telemetry_isOptedIn (ls_remove k st) = telemetry_isOptedIn st"
  by (simp_all add: telemetry_isOptedIn_def getTelemetrySettings_def table_simps)

lemma getTelemetrySettings_Some:
  "get_settings st = Some s \<Longrightarrow> getTelemetrySettings st = Some \<lparr>isOptedIn = telemetryOptIn s,
     ts_anonId = telemetryAnonId s, activationSent = js_or_false (telemetryActivationSent s),
     consecutiveDays = (case telemetryConsecutiveDays s of None \<Rightarrow> 0 | Some n \<Rightarrow> n),
     lastCompletionDate = telemetryLastCompletionDate s,
     d7EventSent = js_or_false (telemetryD7EventSent s), installDate = installAt s\<rparr>"
  by (simp add: getTelemetrySettings_def)

lemma updateTel_view:
  "store_ok st \<Longrightarrow> tel_view (updateTelemetrySettings u st) =
     map_option (\<lambda>p. (coalesce (u_isOptedIn u) (fst p), coalesce_opt (u_lastCompletionDate u) (snd p)))
       (tel_view st)"
  by (simp add: tel_view_def get_settings_updateTel option.map_comp comp_def apply_ts_update_def)

lemma createEvent_store:
  "createEvent cx et dn st = (e, st') \<Longrightarrow> store_ok st \<Longrightarrow> store_ok st' \<and> tel_view st' = tel_view st"
  by (auto simp: createEvent_def Let_def store_ok_updateTel updateTel_view no_update_def)

subsection \<open>The drain\<close>

lemma remove_event_distinct:
  "distinct (map ev_id (e # es)) \<Longrightarrow> remove_event e (e # es) = es"
proof -
  assume d: "distinct (map ev_id (e # es))"
  then have "ev_id e \<notin> ev_id ` set es" by simp
  then have "\<forall>x \<in> set es. ev_id x \<noteq> ev_id e" by (metis imageI)
  then show ?thesis by (simp add: remove_event_def)
qed

lemma findIndex_Some: "findIndex P xs = Some i \<Longrightarrow> i < length xs \<and> P (xs ! i)"
  by (induction P xs arbitrary: i rule: findIndex.induct) (auto split: if_splits)

text \<open>
  On a queue with distinct ids, a drain over the whole queue removes the longest prefix of
  events that are out of retries or delivered, and stops at the first failure.
\<close>

lemma drain_fifo:
  assumes "distinct (map ev_id q)"
  shows "drain net q q =
    (case dropWhile (\<lambda>e. MAX_RETRY_ATTEMPTS \<le> retries e \<or> net e) q of
       [] \<Rightarrow> ([], None)
     | e # rest \<Rightarrow> (e\<lparr>retryCount := Some (retries e + 1)\<rparr> # rest,
                   Some (RETRY_DELAYS ! min (retries e) (length RETRY_DELAYS - 1))))"
  using assms
proof (induction q)
  case (Cons e es)
  have r: "remove_event e (e # es) = es" using Cons.prems by (rule remove_event_distinct)
  show ?case
  proof (cases "MAX_RETRY_ATTEMPTS \<le> retries e \<or> net e")
    case True
    then show ?thesis using Cons r by auto
  next
    case False
    then show ?thesis by (simp add: Let_def)
  qed
qed simp

lemma queue_weight_bound: "queue_weight q \<le> 6 * length q"
  by (induction q) (auto simp: queue_weight_def)

lemma queue_weight_pos: "q \<noteq> [] \<Longrightarrow> 0 < queue_weight q"
  by (cases q) (auto simp: queue_weight_def)

lemma queue_weight_append: "queue_weight (xs @ ys) = queue_weight xs + queue_weight ys"
  by (simp add: queue_weight_def)

lemma drain_shrinks:
  assumes d: "distinct (map ev_id q)" and ne: "q \<noteq> []"
  shows "queue_weight (fst (drain net q q)) < queue_weight q
         \<and> distinct (map ev_id (fst (drain net q q)))"
proof -
  let ?P = "\<lambda>e. MAX_RETRY_ATTEMPTS \<le> retries e \<or> net e"
  have split: "queue_weight q = queue_weight (takeWhile ?P q) + queue_weight (dropWhile ?P q)"
    by (metis queue_weight_append takeWhile_dropWhile_id)
  have dd: "distinct (map ev_id (dropWhile ?P q))"
    using d by (metis distinct_drop dropWhile_eq_drop drop_map)
  show ?thesis
  proof (cases "dropWhile ?P q")
    case Nil
    have "drain net q q = ([], None)"
      using drain_fifo [OF d, of net] by (simp only: Nil list.case)
    then show ?thesis using queue_weight_pos [OF ne] by (simp add: queue_weight_def)
  next
    case (Cons e rest)
    then have "\<not> ?P e" by (metis dropWhile_eq_Cons_conv)
    then have "retries e < 5" by (simp add: MAX_RETRY_ATTEMPTS_def)
    moreover have "drain net q q = (e\<lparr>retryCount := Some (retries e + 1)\<rparr> # rest,
                   Some (RETRY_DELAYS ! min (retries e) (length RETRY_DELAYS - 1)))"
      using drain_fifo [OF d, of net] by (simp only: Cons list.case)
    ultimately show ?thesis
      using Cons split dd by (simp add: queue_weight_def retries_def)
  qed
qed

lemma retry_delay_mem: "RETRY_DELAYS ! min n (length RETRY_DELAYS - 1) \<in> set RETRY_DELAYS"
  by (rule nth_mem) (simp add: RETRY_DELAYS_def)

lemma drain_bounds:
  assumes d: "distinct (map ev_id q)" and b: "\<forall>e\<in>set q. retries e \<le> MAX_RETRY_ATTEMPTS"
  shows "(\<forall>e\<in>set (fst (drain net q q)). retries e \<le> MAX_RETRY_ATTEMPTS)
         \<and> (\<forall>delay\<in>set_option (snd (drain net q q)). delay \<in> set RETRY_DELAYS)"
proof (cases "dropWhile (\<lambda>e. MAX_RETRY_ATTEMPTS \<le> retries e \<or> net e) q")
  case Nil
  then show ?thesis using drain_fifo [OF d, of net] by (simp only: Nil list.case) simp
next
  case (Cons e rest)
  then have "\<not> (MAX_RETRY_ATTEMPTS \<le> retries e \<or> net e)" "set rest \<subseteq> set q"
    by (metis dropWhile_eq_Cons_conv) (metis Cons list.set_intros(2) set_dropWhileD subsetI)
  then show ?thesis
    using drain_fifo [OF d, of net] b retry_delay_mem by (simp only: Cons list.case) (auto simp: retries_def)
qed

lemma drain_anonIds:
  "\<forall>x\<in>set q. ev_anonId x = a \<Longrightarrow> \<forall>x\<in>set (fst (drain net es q)). ev_anonId x = a"
proof (induction net es q rule: drain.induct)
  case (2 net e es q)
  have r: "\<forall>x\<in>set (remove_event e q). ev_anonId x = a"
    using "2.prems" by (simp add: remove_event_def)
  have u: "\<forall>x\<in>set (q[i := (q ! i)\<lparr>retryCount := r\<rparr>]). ev_anonId x = a"
    if "i < length q" for i r
    using that "2.prems" set_update_subset_insert [of q i] by fastforce
  show ?case
  proof (cases "MAX_RETRY_ATTEMPTS \<le> retries e \<or> net e")
    case True
    then show ?thesis using "2.IH" r by auto
  next
    case False
    then show ?thesis using "2.prems" u by (auto simp: Let_def split: option.split dest!: findIndex_Some)
  qed
qed simp

lemma processQueue_store: "snd (processQueue net now c) = snd c"
  by (auto simp: processQueue_def split: prod.splits option.splits)

lemma processQueue_queue:
  "eventQueue (fst (processQueue net now c)) =
     (if eventQueue (fst c) = [] then []
      else if telemetry_isOptedIn (snd c) then fst (drain net (eventQueue (fst c)) (eventQueue (fst c)))
      else [])"
  by (auto simp: processQueue_def telemetry_isOptedIn_def set_queue_def
           split: prod.splits option.splits)

lemma processQueue_anonIds:
  "\<forall>x\<in>set (eventQueue (fst c)). ev_anonId x = a \<Longrightarrow>
   \<forall>x\<in>set (eventQueue (fst (processQueue net now c))). ev_anonId x = a"
  using drain_anonIds [of "eventQueue (fst c)" a net] by (auto simp: processQueue_queue)

lemma drains_weight:
  assumes "distinct (map ev_id (eventQueue (fst c)))" "queue_weight (eventQueue (fst c)) \<le> n"
  shows "eventQueue (fst (drains nets now n c)) = []"
  using assms
proof (induction n arbitrary: c)
  case 0
  then show ?case using queue_weight_pos by fastforce
next
  case (Suc k)
  let ?c' = "processQueue (nets k) now c"
  let ?q = "eventQueue (fst c)"
  have "distinct (map ev_id (eventQueue (fst ?c'))) \<and> queue_weight (eventQueue (fst ?c')) \<le> k"
  proof (cases "?q = [] \<or> \<not> telemetry_isOptedIn (snd c)")
    case True
    then show ?thesis by (auto simp: processQueue_queue queue_weight_def)
  next
    case False
    then show ?thesis
      using drain_shrinks [OF Suc.prems(1), of "nets k"] Suc.prems(2) by (auto simp: processQueue_queue)
  qed
  then show ?case using Suc.IH by simp
qed

subsection \<open>Opting out\<close>

lemma processQueue_opted_out: "opted_out c \<Longrightarrow> processQueue net now c = c"
  by (auto simp: processQueue_def opted_out_def split: prod.splits)

lemma optOut_opted_out: "store_ok (snd c) \<Longrightarrow> opted_out (optOut c)"
  by (cases c) (simp add: opted_out_def optOut_def set_queue_def table_simps isOptedIn_updateTel
                  store_ok_updateTel no_update_def split: option.split)

lemma opted_out_step:
  assumes "opted_out c" "op \<noteq> Op_optIn"
  shows "opted_out (tel_step cx net op c)"
  using assms optOut_opted_out [of c]
  by (cases op) (auto simp: opted_out_def sendActivationEvent_def sendDailyCompletionEvent_def
        sendD7CompletionEvent_def processQueue_opted_out telemetry_isOptedIn_def
        split: prod.splits option.splits)

lemma opted_out_run:
  "opted_out c \<Longrightarrow> \<forall>(cx, net, op) \<in> set ops. op \<noteq> Op_optIn \<Longrightarrow> opted_out (tel_run ops c)"
proof (induction ops arbitrary: c)
  case (Cons x ops)
  obtain cx net op where "x = (cx, net, op)" by (cases x) blast
  then show ?case using Cons opted_out_step by simp
qed simp

subsection \<open>Daily completions\<close>

lemma sendD7_store:
  assumes ok: "store_ok (snd c)"
  shows "store_ok (snd (sendD7CompletionEvent cx net c))
         \<and> tel_view (snd (sendD7CompletionEvent cx net c)) = tel_view (snd c)"
proof -
  obtain ts st where c: "c = (ts, st)" by (cases c)
  show ?thesis
  proof (cases "createEvent cx D7_completion None st")
    case (Pair e st1)
    then have "store_ok st1 \<and> tel_view st1 = tel_view st" using createEvent_store ok c by auto
    then show ?thesis
      using ok by (auto simp: c sendD7CompletionEvent_def Pair processQueue_store store_ok_updateTel
                             updateTel_view no_update_def split: option.split)
  qed
qed

lemma sendDaily_view:
  assumes ok: "store_ok (snd c)" and opted: "telemetry_isOptedIn (snd c)"
  shows "store_ok (snd (sendDailyCompletionEvent cx net c))
         \<and> tel_view (snd (sendDailyCompletionEvent cx net c)) = Some (True, Some (utc_day (t_now cx)))"
proof -
  obtain ts st where c: "c = (ts, st)" by (cases c)
  obtain s where g: "get_settings st = Some s" and o: "telemetryOptIn s"
    using opted c by (auto simp: telemetry_isOptedIn_def getTelemetrySettings_def split: option.splits)
  obtain e st1 where ce: "createEvent cx Daily_completion (Some (getDaysSinceInstall (t_now cx) st)) st = (e, st1)"
    by (cases "createEvent cx Daily_completion (Some (getDaysSinceInstall (t_now cx) st)) st")
  have st1: "store_ok st1 \<and> tel_view st1 = Some (True, telemetryLastCompletionDate s)"
    using createEvent_store [OF ce] ok c g o by (simp add: tel_view_def)
  have v: "tel_view st = Some (True, telemetryLastCompletionDate s)"
    using g o by (simp add: tel_view_def)
  have st2: "store_ok (updateTelemetrySettings u st1)
             \<and> tel_view (updateTelemetrySettings u st1) = Some (True, Some (utc_day (t_now cx)))"
    if "u_isOptedIn u = None" "u_lastCompletionDate u = Some (utc_day (t_now cx))" for u
    using st1 that by (simp add: store_ok_updateTel updateTel_view coalesce_opt_def)
  show ?thesis
    using ok v st2 sendD7_store
    by (auto simp: c sendDailyCompletionEvent_def getTelemetrySettings_def g o ce Let_def
                   processQueue_store no_update_def)
qed

lemma sendDaily_same_day:
  "tel_view (snd c) = Some (True, Some (utc_day (t_now cx))) \<Longrightarrow> sendDailyCompletionEvent cx net c = c"
  by (auto simp: sendDailyCompletionEvent_def tel_view_def getTelemetrySettings_def Let_def
           split: prod.split option.splits)

lemma sendDaily_not_opted: "\<not> telemetry_isOptedIn (snd c) \<Longrightarrow> sendDailyCompletionEvent cx net c = c"
  by (auto simp: sendDailyCompletionEvent_def telemetry_isOptedIn_def split: prod.split option.splits)

subsection \<open>Evaluation\<close>

text \<open>The equations that evaluate runs of the service on the fixtures by \<open>simp\<close>.\<close>

lemmas tel_eval = count_type_def tel_cx_def offline_def tel_store0_def tel_store_in_def tel_event0_def
  optIn_def optOut_def sendActivationEvent_def processQueue_def getTelemetrySettings_def table_simps
  default_settings_def empty_store_def createEvent_def updateTelemetrySettings_def apply_ts_update_def
  stored_anonId_def generateAnonId_def push_event_def set_queue_def loadQueueFromStorage_def
  no_update_def js_or_false_def retries_def MAX_RETRY_ATTEMPTS_def RETRY_DELAYS_def main_key_def
  Let_def daily_ops_def sendDailyCompletionEvent_def sendD7CompletionEvent_def utc_day_def
  getDaysSinceInstall_def remove_event_def append_Cons_eq_iff dec_int_no_sep telemetry_isOptedIn_def

section \<open>Properties of the outbox\<close>

text \<open>
  C27. Liveness of the retry chain: whatever the network does, a queue with distinct event
  ids is empty after six drains per queued event, when no new event is queued in between;
  the queue weight, six minus the retries of each event, drops at every drain.
\<close>

theorem drains_empty_queue:
  assumes "distinct (map ev_id (eventQueue (fst c)))" "6 * length (eventQueue (fst c)) \<le> n"
  shows "eventQueue (fst (drains nets now n c)) = []"
  using drains_weight [OF assms(1)] queue_weight_bound assms(2) le_trans by blast

theorem drains_empty_queue_witness:
  "eventQueue (fst (drains (\<lambda>k. offline) 0 6 (loadQueueFromStorage [tel_event0], tel_store_in))) = []"
  using drains_empty_queue [of "(loadQueueFromStorage [tel_event0], tel_store_in)" 6 "\<lambda>k. offline" 0]
  by (simp add: loadQueueFromStorage_def)

text \<open>
  C28. FIFO delivery: an opted-in drain of a queue with distinct ids removes the longest
  prefix of events that are out of retries or delivered, stops at the first failure,
  increments that event's retry count, keeps the rest of the queue in order, and schedules
  one retry after \<open>RETRY_DELAYS[min(retryCount - 1, 4)]\<close>.
\<close>

theorem processQueue_fifo:
  assumes opted: "telemetry_isOptedIn st" and d: "distinct (map ev_id (eventQueue ts))"
  shows "eventQueue (fst (processQueue net now (ts, st))) =
           (case dropWhile (\<lambda>e. MAX_RETRY_ATTEMPTS \<le> retries e \<or> net e) (eventQueue ts) of
              [] \<Rightarrow> []
            | e # rest \<Rightarrow> e\<lparr>retryCount := Some (retries e + 1)\<rparr> # rest)
         \<and> retry_timers (fst (processQueue net now (ts, st))) = retry_timers ts @
           (case dropWhile (\<lambda>e. MAX_RETRY_ATTEMPTS \<le> retries e \<or> net e) (eventQueue ts) of
              [] \<Rightarrow> []
            | e # rest \<Rightarrow> [now + RETRY_DELAYS ! min (retries e) (length RETRY_DELAYS - 1)])"
proof -
  obtain t where g: "getTelemetrySettings st = Some t" "isOptedIn t"
    using opted by (auto simp: telemetry_isOptedIn_def split: option.splits)
  show ?thesis
  proof (cases "dropWhile (\<lambda>e. MAX_RETRY_ATTEMPTS \<le> retries e \<or> net e) (eventQueue ts)")
    case Nil
    have "drain net (eventQueue ts) (eventQueue ts) = ([], None)"
      using drain_fifo [OF d, of net] by (simp only: Nil list.case)
    then show ?thesis unfolding Nil list.case using g by (simp add: processQueue_def set_queue_def)
  next
    case (Cons e rest)
    have "drain net (eventQueue ts) (eventQueue ts) = (e\<lparr>retryCount := Some (retries e + 1)\<rparr> # rest,
                 Some (RETRY_DELAYS ! min (retries e) (length RETRY_DELAYS - 1)))"
      using drain_fifo [OF d, of net] by (simp only: Cons list.case)
    moreover have "eventQueue ts \<noteq> []" using Cons by auto
    ultimately show ?thesis unfolding Cons list.case using g by (simp add: processQueue_def set_queue_def)
  qed
qed

theorem processQueue_fifo_witness:
  "eventQueue (fst (processQueue offline 0 (loadQueueFromStorage [tel_event0], tel_store_in)))
     = [tel_event0\<lparr>retryCount := Some 1\<rparr>]
   \<and> retry_timers (fst (processQueue offline 0 (loadQueueFromStorage [tel_event0], tel_store_in))) = [1000]"
  using processQueue_fifo [of tel_store_in "loadQueueFromStorage [tel_event0]" offline 0]
  by (simp add: tel_eval)

text \<open>
  Bounds of the backoff: a drain of a queue with distinct ids keeps every retry count
  at most \<open>MAX_RETRY_ATTEMPTS\<close> and schedules at most one retry, at a delay of the
  \<open>RETRY_DELAYS\<close> schedule.
\<close>

theorem processQueue_retry_bounds:
  assumes "distinct (map ev_id (eventQueue ts))" "\<forall>e\<in>set (eventQueue ts). retries e \<le> MAX_RETRY_ATTEMPTS"
  shows "(\<forall>e\<in>set (eventQueue (fst (processQueue net now (ts, st)))). retries e \<le> MAX_RETRY_ATTEMPTS)
         \<and> (\<exists>new. retry_timers (fst (processQueue net now (ts, st))) = retry_timers ts @ new
                 \<and> length new \<le> 1 \<and> (\<forall>t\<in>set new. t - now \<in> set RETRY_DELAYS))"
  using drain_bounds [OF assms, of net]
  by (auto simp: processQueue_def set_queue_def split: prod.split option.splits)

theorem processQueue_retry_bounds_witness:
  "retries (hd (eventQueue (fst (processQueue offline 0 (loadQueueFromStorage [tel_event0\<lparr>retryCount := Some 4\<rparr>], tel_store_in)))))
     \<le> MAX_RETRY_ATTEMPTS
   \<and> length (retry_timers (fst (processQueue offline 0 (loadQueueFromStorage [tel_event0\<lparr>retryCount := Some 4\<rparr>], tel_store_in))))
     \<le> 1"
  using processQueue_retry_bounds [of "loadQueueFromStorage [tel_event0\<lparr>retryCount := Some 4\<rparr>]" offline 0 tel_store_in]
  by (simp add: tel_eval)

text \<open>
  C30. Opt-out gating: after \<open>optOut\<close>, on a well-formed store, any run of calls and timer
  drains without \<open>optIn\<close> leaves the queue empty and the user opted out.
\<close>

theorem optOut_gates_queue:
  assumes "store_ok (snd c)" "\<forall>(cx, net, op) \<in> set ops. op \<noteq> Op_optIn"
  shows "eventQueue (fst (tel_run ops (optOut c))) = []
         \<and> \<not> telemetry_isOptedIn (snd (tel_run ops (optOut c)))"
  using opted_out_run [OF optOut_opted_out [OF assms(1)] assms(2)] by (simp add: opted_out_def)

theorem optOut_gates_queue_witness:
  "eventQueue (fst (tel_run ((tel_cx 5, offline, Op_activation) # daily_ops [1, 2])
     (optOut (loadQueueFromStorage [tel_event0], tel_store_in)))) = []"
  using optOut_gates_queue [of "(loadQueueFromStorage [tel_event0], tel_store_in)"
                               "(tel_cx 5, offline, Op_activation) # daily_ops [1, 2]"]
  by (simp add: tel_store_in_def store_ok_put_settings store_ok_empty daily_ops_def)

text \<open>
  C31. Opting out does not discard the anonymous id: \<open>optOut\<close> writes \<open>anonId: undefined\<close>,
  which \<open>??\<close> in \<open>updateTelemetrySettings\<close> turns into the old id, so the id survives and a
  later \<open>optIn\<close> sends its activation event under the same id.
\<close>

theorem optOut_keeps_anonId:
  assumes ok: "store_ok st" and g: "get_settings st = Some s"
      and a: "telemetryAnonId s = Some a" "a \<noteq> []"
  shows "ts_anonId (the (getTelemetrySettings (snd (optOut (ts, st))))) = Some a
         \<and> ts_anonId (the (getTelemetrySettings (snd (optIn cx net (optOut (ts, st)))))) = Some a
         \<and> (\<forall>e\<in>set (eventQueue (fst (optIn cx net (optOut (ts, st))))). ev_anonId e = a)"
proof -
  obtain ts1 st1 where c1: "optOut (ts, st) = (ts1, st1)" by (cases "optOut (ts, st)")
  obtain s1 where g1: "get_settings st1 = Some s1" and ok1: "store_ok st1"
    and f1: "telemetryAnonId s1 = Some a" "\<not> js_or_false (telemetryActivationSent s1)" and q1: "eventQueue ts1 = []"
    using c1 ok g a by (auto simp: optOut_def table_simps get_settings_updateTel store_ok_updateTel
                                   apply_ts_update_def no_update_def coalesce_def js_or_false_def set_queue_def)
  define st2 where "st2 = updateTelemetrySettings (no_update\<lparr>u_isOptedIn := Some True, u_anonId := Some a\<rparr>) st1"
  have g2: "get_settings st2 = Some (apply_ts_update (no_update\<lparr>u_isOptedIn := Some True, u_anonId := Some a\<rparr>) s1)"
    and ok2: "store_ok st2"
    using ok1 g1 by (simp_all add: st2_def get_settings_updateTel store_ok_updateTel)
  define e where "e = fst (createEvent cx Activation None st2)"
  have ce: "createEvent cx Activation None st2 = (e, st2)" and ea: "ev_anonId e = a"
    using g2 f1 a by (simp_all add: e_def createEvent_def getTelemetrySettings_Some stored_anonId_def Let_def
                                    apply_ts_update_def no_update_def coalesce_opt_def)
  define st3 where "st3 = updateTelemetrySettings (no_update\<lparr>u_activationSent := Some True\<rparr>) st2"
  have run: "optIn cx net (ts1, st1) =
             processQueue net (t_now cx) (processQueue net (t_now cx) (push_event e ts1, st3))"
    using g1 g2 f1 a ce
    by (simp add: optIn_def sendActivationEvent_def getTelemetrySettings_Some stored_anonId_def
                  st2_def st3_def apply_ts_update_def no_update_def coalesce_def Let_def)
  have g3: "ts_anonId (the (getTelemetrySettings st3)) = Some a"
    using g2 ok2 f1 by (simp add: st3_def get_settings_updateTel getTelemetrySettings_Some apply_ts_update_def
                                  no_update_def coalesce_opt_def)
  have "\<forall>x\<in>set (eventQueue (fst (push_event e ts1, st3))). ev_anonId x = a"
    using q1 ea by (simp add: push_event_def set_queue_def)
  then have "\<forall>x\<in>set (eventQueue (fst (optIn cx net (ts1, st1)))). ev_anonId x = a"
    unfolding run by (intro processQueue_anonIds)
  then show ?thesis
    using c1 g1 f1 g3 run by (simp add: getTelemetrySettings_Some processQueue_store)
qed

theorem optOut_keeps_anonId_witness:
  "ts_anonId (the (getTelemetrySettings (snd (optOut (loadQueueFromStorage [], tel_store_in))))) = Some ''anon_1''
   \<and> ts_anonId (the (getTelemetrySettings (snd (optIn (tel_cx 5000) offline
       (optOut (loadQueueFromStorage [], tel_store_in)))))) = Some ''anon_1''"
proof -
  have "store_ok tel_store_in" by (simp add: tel_store_in_def store_ok_put_settings store_ok_empty)
  moreover have "get_settings tel_store_in = Some ((default_settings 0)\<lparr>telemetryOptIn := True,
     telemetryAnonId := Some ''anon_1''\<rparr>)"
    by (simp add: tel_store_in_def table_simps default_settings_def)
  ultimately show ?thesis
    using optOut_keeps_anonId [of tel_store_in _ "''anon_1''" "loadQueueFromStorage []" "tel_cx 5000" offline]
    by simp
qed

text \<open>
  C32. At most one daily completion per UTC day: a second \<open>sendDailyCompletionEvent\<close> on
  the same UTC day as the first, on a well-formed store, changes nothing.
\<close>

theorem daily_completion_once_per_utc_day:
  assumes "store_ok (snd c)" "utc_day (t_now cx2) = utc_day (t_now cx1)"
  shows "sendDailyCompletionEvent cx2 net2 (sendDailyCompletionEvent cx1 net1 c)
         = sendDailyCompletionEvent cx1 net1 c"
proof (cases "telemetry_isOptedIn (snd c)")
  case True
  then show ?thesis using sendDaily_view [OF assms(1) True, of cx1 net1] assms(2)
    by (simp add: sendDaily_same_day)
qed (simp add: sendDaily_not_opted)

theorem daily_completion_once_per_utc_day_witness:
  "sendDailyCompletionEvent (tel_cx (ms_per_day + 5000)) offline
     (sendDailyCompletionEvent (tel_cx (ms_per_day + 1000)) offline (loadQueueFromStorage [], tel_store_in))
   = sendDailyCompletionEvent (tel_cx (ms_per_day + 1000)) offline (loadQueueFromStorage [], tel_store_in)"
  using daily_completion_once_per_utc_day [of "(loadQueueFromStorage [], tel_store_in)"
          "tel_cx (ms_per_day + 5000)" "tel_cx (ms_per_day + 1000)" offline offline]
  by (simp add: tel_store_in_def store_ok_put_settings store_ok_empty tel_cx_def utc_day_def)

text \<open>
  The opt-in scenario of the specification: opting in offline queues exactly one
  activation event; opting out then empties the queue, and later calls queue nothing.
\<close>

theorem optIn_optOut_scenario:
  "count_type Activation (tel_run [(tel_cx 1000, offline, Op_optIn)] (loadQueueFromStorage [], tel_store0)) = 1
   \<and> eventQueue (fst (tel_run ([(tel_cx 1000, offline, Op_optIn), (tel_cx 2000, offline, Op_optOut),
        (tel_cx 3000, offline, Op_activation)] @ daily_ops [1]) (loadQueueFromStorage [], tel_store0))) = []"
  by (simp add: tel_eval)

text \<open>
  The seven-day scenario of the specification: seven consecutive daily completions
  after opting in queue exactly one \<open>d7_completion\<close> event, and an eighth consecutive day
  queues no second one.
\<close>

theorem d7_once_in_seven_days:
  "count_type D7_completion (tel_run ((tel_cx 1000, offline, Op_optIn) # daily_ops [1, 2, 3, 4, 5, 6, 7])
     (loadQueueFromStorage [], tel_store0)) = 1
   \<and> count_type D7_completion (tel_run ((tel_cx 1000, offline, Op_optIn) # daily_ops [1, 2, 3, 4, 5, 6, 7, 8])
     (loadQueueFromStorage [], tel_store0)) = 1"
  by (simp add: tel_eval)

lemma utc_yesterday: "utc_day (t - ms_per_day) = utc_day t - 1"
proof -
  have "(t + (- 1) * ms_per_day) div ms_per_day = - 1 + t div ms_per_day"
    by (rule div_mult_self1) simp
  then show ?thesis by (simp add: utc_day_def)
qed

text \<open>
  C35. The D7 flag does not stay set: a daily completion that continues a streak of 7 or
  more days (the previous completion on the UTC day before) stores \<open>d7EventSent = false\<close>,
  whatever it was, because \<open>newConsecutiveDays >= 7 ? false : ...\<close> clears it.  A later
  streak that reaches 7 days again therefore queues a second \<open>d7_completion\<close>, where the
  specification says the event fires once.
\<close>

theorem d7_refires_after_gap:
  assumes ok: "store_ok (snd c)" and t: "getTelemetrySettings (snd c) = Some t" and o: "isOptedIn t"
    and y: "lastCompletionDate t = Some (utc_day (t_now cx - ms_per_day))"
    and n: "7 \<le> consecutiveDays t"
  shows "\<exists>t'. getTelemetrySettings (snd (sendDailyCompletionEvent cx net c)) = Some t'
    \<and> consecutiveDays t' = consecutiveDays t + 1 \<and> \<not> d7EventSent t'"
proof -
  obtain ts st where c: "c = (ts, st)" by (cases c)
  have nt: "lastCompletionDate t \<noteq> Some (utc_day (t_now cx))" using y utc_yesterday [of "t_now cx"] by simp
  obtain e st1 where ce: "createEvent cx Daily_completion (Some (getDaysSinceInstall (t_now cx) st)) st = (e, st1)"
    by (metis prod.collapse)
  have st1: "store_ok st1" "tel_view st1 = tel_view st"
    using createEvent_store [OF ce] ok c by simp_all
  obtain s1 where g1: "get_settings st1 = Some s1"
    using st1(2) t c by (auto simp: tel_view_def getTelemetrySettings_def split: option.splits)
  define u where "u = no_update\<lparr>u_consecutiveDays := Some (consecutiveDays t + 1),
      u_lastCompletionDate := Some (utc_day (t_now cx)),
      u_d7EventSent := Some (if 7 \<le> consecutiveDays t + 1 then False else d7EventSent t)\<rparr>"
  have "sendDailyCompletionEvent cx net c = processQueue net (t_now cx) (push_event e ts, updateTelemetrySettings u st1)"
    using t o nt y n ce by (simp add: c sendDailyCompletionEvent_def Let_def u_def)
  then have "snd (sendDailyCompletionEvent cx net c) = updateTelemetrySettings u st1"
    by (simp add: processQueue_store)
  moreover have "get_settings (updateTelemetrySettings u st1) = Some (apply_ts_update u s1)"
    using get_settings_updateTel [OF st1(1)] g1 by simp
  ultimately show ?thesis
    using n by (simp add: getTelemetrySettings_def apply_ts_update_def u_def no_update_def
                          coalesce_opt_def js_or_false_def)
qed

theorem d7_refires_after_gap_witness:
  "\<not> d7EventSent (the (getTelemetrySettings (snd (sendDailyCompletionEvent (tel_cx (8 * ms_per_day + 3600000))
      offline (loadQueueFromStorage [], tel_store_d7)))))"
proof -
  have ok: "store_ok tel_store_d7" by (simp add: tel_store_d7_def store_ok_put_settings store_ok_empty)
  have t: "getTelemetrySettings tel_store_d7 = Some (the (getTelemetrySettings tel_store_d7))"
    and o: "isOptedIn (the (getTelemetrySettings tel_store_d7))"
    and y: "lastCompletionDate (the (getTelemetrySettings tel_store_d7))
            = Some (utc_day (t_now (tel_cx (8 * ms_per_day + 3600000)) - ms_per_day))"
    and n: "7 \<le> consecutiveDays (the (getTelemetrySettings tel_store_d7))"
    by (simp_all add: tel_store_d7_def getTelemetrySettings_def get_settings_put default_settings_def
                      main_key_def tel_cx_def utc_day_def)
  show ?thesis
    using d7_refires_after_gap [where c = "(loadQueueFromStorage [], tel_store_d7)"
        and t = "the (getTelemetrySettings tel_store_d7)" and cx = "tel_cx (8 * ms_per_day + 3600000)"
        and net = offline] ok t o y n by auto
qed

end
