(* ===== verification/Journal.thy ===== *)
theory Journal
  imports Streak Prompts Telemetry
begin

text \<open>
  The two screens of the daily practice, which compose the prompt scheduler, the streak
  engine and the telemetry outbox.  \<open>PromptEntry\<close> (\<open>src/src/components/PromptEntry.tsx\<close>):
  the form, \<open>validateForm\<close>, and \<open>handleSave\<close> with its edit and new-entry branches, the
  streak update and the daily-completion event.  \<open>TodayCard\<close>
  (\<open>src/src/components/TodayCard.tsx\<close>): \<open>loadTodayData\<close>, which probes the storage,
  seeds the prompts, resolves the current prompt, the swap flag, today's entry and the
  validated streak, and \<open>handleSwapPrompt\<close>.  The component state and the fields of the
  app store (\<open>useAppStore\<close>) they read and write are records; toasts are a list.
\<close>

section \<open>The entry form\<close>

record entry_form =
  f_setback :: string
  f_protective_step :: string
  f_gratitude :: string

text \<open>One field of \<open>validateForm\<close>: required after trimming, at most 280 characters before.\<close>

definition field_error :: "string \<Rightarrow> string option" where
  "field_error v =
     (if js_trim v = [] then Some ''This field is required''
      else if 280 < length v then Some ''Must be under 280 characters''
      else None)"

definition field_errors :: "string \<Rightarrow> string \<Rightarrow> (string \<times> string) list" where
  "field_errors k v = (case field_error v of None \<Rightarrow> [] | Some m \<Rightarrow> [(k, m)])"

text \<open>\<open>validateForm\<close>: the errors it sets; the form is valid when there is none.\<close>

definition validateForm :: "entry_form \<Rightarrow> (string \<times> string) list" where
  "validateForm f = field_errors ''setback'' (f_setback f)
     @ field_errors ''protective_step'' (f_protective_step f)
     @ field_errors ''gratitude'' (f_gratitude f)"

text \<open>
  The state of \<open>PromptEntry\<close>: the app store's \<open>settings\<close>, \<open>todayEntry\<close> and \<open>streak\<close>
  (kept in memory for the life of the page, not persisted), and the component's prompt
  text, form, errors, \<open>streakInfo\<close>, toasts and animation.
\<close>

record journal_screen =
  j_settings :: "settings option"
  j_prompt :: string
  todayEntry :: "entry option"
  j_streak :: "streak_summary option"
  form :: entry_form
  errors :: "(string \<times> string) list"
  streakInfo :: "(bool \<times> int option) option"
  j_toasts :: "toast list"
  animating :: bool

text \<open>\<open>settings?.installAt || now\<close>.\<close>

definition install_date :: "settings option \<Rightarrow> ms \<Rightarrow> ms" where
  "install_date s now = (case s of Some x \<Rightarrow> if installAt x = 0 then now else installAt x | None \<Rightarrow> now)"

text \<open>
  The two branches of \<open>handleSave\<close> up to the streak update: the edited or the new entry,
  the streak result, the store and the screen; \<open>None\<close> is an exception, raised by
  \<open>todayPrompt.id\<close> on an \<open>undefined\<close> prompt or by \<open>db.entries.add\<close> on an existing key.
\<close>

definition save_branch :: "ms \<Rightarrow> day \<Rightarrow> journal_screen \<Rightarrow> store
                           \<Rightarrow> (entry \<times> streak_update \<times> store \<times> journal_screen) option" where
  "save_branch now today scr st =
     (let f = form scr;
          sb = js_trim (f_setback f); ps = js_trim (f_protective_step f); gr = js_trim (f_gratitude f);
          todayPrompt = getCurrentPrompt (install_date (j_settings scr) now) now today st
      in case todayEntry scr of
           Some te \<Rightarrow>
             (let e = te\<lparr>setback := sb, protective_step := ps, gratitude := gr, edited_at := Some now\<rparr>;
                  (r, st2) = updateStreak now today today (put_entry e st)
              in Some (e, r, st2, scr\<lparr>streakInfo := Some (False, None)\<rparr>))
         | None \<Rightarrow>
             (case todayPrompt of
                None \<Rightarrow> None
              | Some p \<Rightarrow>
                  (case saveNewEntry now today (pid p) sb ps gr st of
                     Inl _ \<Rightarrow> None
                   | Inr (r, st2) \<Rightarrow>
                       Some (new_entry now today (pid p) sb ps gr, r, st2,
                             scr\<lparr>streakInfo := Some (isFirstToday r, Some (current_streak (streakData r))),
                                 j_streak := (if updated r then Some (streakData r) else j_streak scr)\<rparr>))))"

text \<open>The toast after a save: streak started or continued, or a repeated entry of the day.\<close>

definition save_toast :: "streak_update \<Rightarrow> entry option \<Rightarrow> toast list" where
  "save_toast r old =
     (if isFirstToday r \<and> updated r
      then [(Toast_success, if current_streak (streakData r) = 1 then ''Streak Started!'' else ''Streak Continued!'')]
      else if old = None then [(Toast_info, ''Entry Already Recorded'')] else [])"

text \<open>
  \<open>handleSave\<close>: the form is validated, the branch runs, the entry becomes \<open>todayEntry\<close>,
  the daily-completion event is sent when the streak engine reports the first entry of
  the day, the animation is shown and the toast added.  An exception sets the general
  error and the error toast; what the store got before it stays.
\<close>

definition handleSave :: "tel_ctx \<Rightarrow> (TelemetryEvent \<Rightarrow> bool) \<Rightarrow> day \<Rightarrow> journal_screen
                          \<Rightarrow> tel_config \<Rightarrow> journal_screen \<times> tel_config" where
  "handleSave cx net today scr c =
     (let errs = validateForm (form scr) in
      if errs \<noteq> [] then (scr\<lparr>errors := errs\<rparr>, c)
      else (case c of (ts, st) \<Rightarrow>
        (let scr0 = scr\<lparr>errors := []\<rparr> in
         case save_branch (t_now cx) today scr0 st of
           None \<Rightarrow> (scr0\<lparr>errors := [(''general'', ''Failed to save entry. Please try again.'')],
                         j_toasts := j_toasts scr @ [(Toast_error, ''Save Failed'')]\<rparr>, (ts, st))
         | Some (e, r, st2, scr1) \<Rightarrow>
             (scr1\<lparr>todayEntry := Some e, animating := True,
                   j_toasts := j_toasts scr @ save_toast r (todayEntry scr)\<rparr>,
              if isFirstToday r then sendDailyCompletionEvent cx net (ts, st2) else (ts, st2)))))"

section \<open>The Today screen\<close>

text \<open>
  \<open>promptUtils.isStorageAvailable\<close> (\<open>src/unnamed/part_012\<close>): the message of the
  exception \<open>db.settings.get\<close> throws, if it throws, mapped to the warning shown.
\<close>

definition isStorageAvailable :: "string option \<Rightarrow> bool \<times> string option" where
  "isStorageAvailable exc =
     (case exc of
        None \<Rightarrow> (True, None)
      | Some msg \<Rightarrow> (False, Some (if js_includes ''QuotaExceededError'' msg
                                  then ''Storage quota exceeded - please free up space''
                                  else if js_includes ''NotFoundError'' msg
                                  then ''Database not accessible - using session storage''
                                  else ''Storage is unavailable - using session storage'')))"

record today_screen =
  todayPrompt :: "prompt option"
  canSwap :: bool
  isSwapping :: bool
  hasEntryToday :: bool
  todayEntryLocal :: "entry option"
  totalEntries :: nat
  storageError :: "string option"
  t_streak :: "streak_summary option"
  t_toasts :: "toast list"

text \<open>\<open>db.entries.where('dateLocal').equals(d).first()\<close>: the first match in key order.\<close>

definition first_entry_on :: "day \<Rightarrow> store \<Rightarrow> entry option" where
  "first_entry_on d st = find (\<lambda>e. dateLocal e = d) (map snd (sort_key fst (db_entries st)))"

text \<open>\<open>currentSettings?.swapUsedDate\<close>.\<close>

definition stored_swap_date :: "store \<Rightarrow> day option" where
  "stored_swap_date st = (case get_settings st of None \<Rightarrow> None | Some s \<Rightarrow> swapUsedDate s)"

text \<open>
  \<open>loadTodayData\<close> with a working store: seeding (its error is caught), the current
  prompt, the swap flag, today's entry, the validated streak with the recovery toast,
  and the entry count.
\<close>

definition load_available :: "ms \<Rightarrow> day \<Rightarrow> settings option \<Rightarrow> today_screen \<Rightarrow> store
                              \<Rightarrow> today_screen \<times> store" where
  "load_available now today s scr st =
     (let st1 = snd (initializeSeedPrompts now st);
          p = getCurrentPrompt (install_date s now) now today st1;
          e = first_entry_on today st1;
          (v, st2) = validateAndRecoverStreakData now st1
      in (scr\<lparr>todayPrompt := p, canSwap := canSwapToday today (stored_swap_date st1),
              todayEntryLocal := e, hasEntryToday := (e \<noteq> None), t_streak := Some (v_streak v),
              t_toasts := t_toasts scr @
                (if recovered v \<and> \<not> isValid v then [(Toast_info, ''Data Recovery'')] else []),
              totalEntries := tbl_count (db_entries st2)\<rparr>, st2))"

text \<open>
  \<open>loadTodayData\<close>.  When the probe fails every database call throws: seeding is skipped,
  \<open>getCurrentPrompt\<close> catches and returns the fallback prompt, swapping is disabled, and the
  entry block falls back to its session-only defaults.
\<close>

definition loadTodayData :: "ms \<Rightarrow> day \<Rightarrow> string option \<Rightarrow> settings option \<Rightarrow> today_screen
                             \<Rightarrow> store \<Rightarrow> today_screen \<times> store" where
  "loadTodayData now today exc s scr st =
     (case isStorageAvailable exc of
        (True, _) \<Rightarrow> load_available now today s scr st
      | (False, err) \<Rightarrow>
          (scr\<lparr>storageError := err,
               t_toasts := t_toasts scr @ [(Toast_error, ''Storage Warning'')],
               todayPrompt := Some (getFallbackPrompt (install_date s now) now), canSwap := False,
               todayEntryLocal := None, hasEntryToday := False,
               t_streak := Some \<lparr>streak_id = main_key, start_date = now, current_streak = 0,
                                 longest_streak = 0, last_entry_date = None\<rparr>,
               totalEntries := 0\<rparr>, st))"

text \<open>
  \<open>handleSwapPrompt\<close>: nothing while swapping is disabled or running or without an install
  time; otherwise \<open>swapTodayPrompt\<close>, whose prompt is shown and disables the button.
\<close>

definition handleSwapPrompt :: "ms \<Rightarrow> day \<Rightarrow> nat \<Rightarrow> settings option \<Rightarrow> today_screen \<Rightarrow> store
                                \<Rightarrow> today_screen \<times> store" where
  "handleSwapPrompt now today r s scr st =
     (case s of
        None \<Rightarrow> (scr, st)
      | Some x \<Rightarrow>
          if \<not> canSwap scr \<or> isSwapping scr \<or> installAt x = 0 then (scr, st)
          else (case swapTodayPrompt (installAt x) now today r st of
                  (Inr np, st') \<Rightarrow>
                    (scr\<lparr>todayPrompt := Some np, canSwap := False,
                         t_toasts := t_toasts scr @ [(Toast_success, ''Prompt swapped!'')]\<rparr>, st')
                | (Inl _, st') \<Rightarrow> (scr\<lparr>t_toasts := t_toasts scr @ [(Toast_error, ''Unable to swap'')]\<rparr>, st')))"

text \<open>
  \<open>loadTodayPrompt\<close>, the mount effect of \<open>PromptEntry\<close>: seeding (a rejected
  \<open>bulkAdd\<close> throws), the current prompt (\<open>todayPrompt.text\<close> throws on \<open>undefined\<close>),
  and today's entry, which fills the form and becomes \<open>todayEntry\<close> when there is one;
  otherwise \<open>todayEntry\<close> keeps its value.
\<close>

definition loadTodayPrompt :: "ms \<Rightarrow> day \<Rightarrow> journal_screen \<Rightarrow> store \<Rightarrow> journal_screen \<times> store" where
  "loadTodayPrompt now today scr st =
     (let failed = scr\<lparr>errors := [(''general'', ''Failed to load today's prompt. Please try again.'')]\<rparr> in
      case initializeSeedPrompts now st of
        (Some _, st1) \<Rightarrow> (failed, st1)
      | (None, st1) \<Rightarrow>
          (case getCurrentPrompt (install_date (j_settings scr) now) now today st1 of
             None \<Rightarrow> (failed, st1)
           | Some p \<Rightarrow>
               (let scr1 = scr\<lparr>j_prompt := prompt_text p\<rparr> in
                case first_entry_on today st1 of
                  None \<Rightarrow> (scr1, st1)
                | Some e \<Rightarrow> (scr1\<lparr>form := \<lparr>f_setback = setback e, f_protective_step = protective_step e,
                                                f_gratitude = gratitude e\<rparr>,
                                       todayEntry := Some e\<rparr>, st1))))"

subsection \<open>Fixtures\<close>

text \<open>
  A store holding the entry of local day 5 saved at 20:00 UTC of day 5, with the
  streak it counted and the daily-completion event it sent; a store whose install
  instant is 610 days after the clock; a seeded store installed at 1000 ms.
\<close>

definition form_abc :: entry_form where
  "form_abc = \<lparr>f_setback = ''a'', f_protective_step = ''b'', f_gratitude = ''c''\<rparr>"

definition entry5 :: entry where
  "entry5 = new_entry (5 * ms_per_day + 72000000) 5 ''seed-1'' ''a'' ''b'' ''c''"

definition journal_store :: store where
  "journal_store = put_settings ((default_settings 1000)\<lparr>telemetryOptIn := True,
     telemetryAnonId := Some ''anon_1'', telemetryLastCompletionDate := Some 5,
     telemetryConsecutiveDays := Some 1\<rparr>)
     (empty_store\<lparr>db_entries := [(entry_id entry5, entry5)],
                  db_streak := [(main_key, advance_streak (5 * ms_per_day + 72000000) 4 5 (fresh_streak 1000))]\<rparr>)"

definition edit_screen :: journal_screen where
  "edit_screen = \<lparr>j_settings = None, j_prompt = [], todayEntry = Some entry5, j_streak = None,
     form = form_abc\<lparr>f_setback := ''a, edited''\<rparr>, errors = [], streakInfo = None, j_toasts = [],
     animating = False\<rparr>"

text \<open>The form typed on local day 6 in a page that saved the entry of day 5.\<close>

definition form_day6 :: entry_form where
  "form_day6 = \<lparr>f_setback = ''six'', f_protective_step = ''step'', f_gratitude = ''thanks''\<rparr>"

definition behind_store :: store where
  "behind_store = put_settings (default_settings (611 * ms_per_day)) (snd (initializeSeedPrompts 0 empty_store))"

definition new_screen :: "settings option \<Rightarrow> journal_screen" where
  "new_screen s = \<lparr>j_settings = s, j_prompt = [], todayEntry = None, j_streak = None, form = form_abc, errors = [],
     streakInfo = None, j_toasts = [], animating = False\<rparr>"

definition today_store :: store where
  "today_store = put_settings (default_settings 1000) (snd (initializeSeedPrompts 0 empty_store))"

definition today_screen0 :: today_screen where
  "today_screen0 = \<lparr>todayPrompt = None, canSwap = True, isSwapping = False, hasEntryToday = False,
     todayEntryLocal = None, totalEntries = 0, storageError = None, t_streak = None, t_toasts = []\<rparr>"

section \<open>Lemmas\<close>

lemma count_filter_update:
  "map_of t k = Some old \<Longrightarrow> P old = P v \<Longrightarrow>
   length (filter (\<lambda>(k, e). P e) (AList.update k v t)) = length (filter (\<lambda>(k, e). P e) t)"
  by (induction t) (auto split: if_splits)

lemma count_on_date_put_entry:
  "tbl_get (db_entries st) (entry_id e) = Some old \<Longrightarrow> dateLocal old = dateLocal e \<Longrightarrow>
   count_on_date d (put_entry e st) = count_on_date d st"
  by (simp add: count_on_date_def put_entry_def tbl_put_def tbl_get_def count_filter_update)

lemma initializeSeedPrompts_seeded:
  "\<exists>p\<in>set (tbl_values (db_prompts st)). source p = Seed \<Longrightarrow> initializeSeedPrompts now st = (None, st)"
  by (auto simp: initializeSeedPrompts_def filter_empty_conv)

text \<open>The form is valid exactly when every field is non-blank and at most 280 characters.\<close>

lemma validateForm_Nil_iff:
  "validateForm f = [] \<longleftrightarrow>
     js_trim (f_setback f) \<noteq> [] \<and> length (f_setback f) \<le> 280
     \<and> js_trim (f_protective_step f) \<noteq> [] \<and> length (f_protective_step f) \<le> 280
     \<and> js_trim (f_gratitude f) \<noteq> [] \<and> length (f_gratitude f) \<le> 280"
  by (auto simp: validateForm_def field_errors_def field_error_def split: option.splits if_splits)

lemma count_filter_update_le:
  "\<not> P v \<Longrightarrow> length (filter (\<lambda>(k, e). P e) (AList.update k v t)) \<le> length (filter (\<lambda>(k, e). P e) t)"
  by (induction t) auto

lemma count_on_date_put_other:
  "dateLocal e \<noteq> d \<Longrightarrow> count_on_date d (put_entry e st) \<le> count_on_date d st"
  by (simp add: count_on_date_def put_entry_def tbl_put_def count_filter_update_le)

lemma get_streak_put_entry [simp]: "get_streak (put_entry e st) = get_streak st"
  by (simp add: put_entry_def get_streak_def)

lemma handleSave_stale_entry:
  assumes valid: "validateForm (form scr) = []" and te: "todayEntry scr = Some e"
    and old: "dateLocal e \<noteq> today" and none: "count_on_date today st = 0"
    and sk: "get_streak st = Some sk"
  shows "tbl_get (db_entries (snd (snd (handleSave cx net today scr (ts, st))))) (entry_id e)
           = Some (e\<lparr>setback := js_trim (f_setback (form scr)),
                     protective_step := js_trim (f_protective_step (form scr)),
                     gratitude := js_trim (f_gratitude (form scr)), edited_at := Some (t_now cx)\<rparr>)
    \<and> count_on_date today (snd (snd (handleSave cx net today scr (ts, st)))) = 0
    \<and> get_streak (snd (snd (handleSave cx net today scr (ts, st)))) = Some sk
    \<and> fst (snd (handleSave cx net today scr (ts, st))) = ts"
proof -
  let ?f = "form scr"
  define e' where "e' = e\<lparr>setback := js_trim (f_setback ?f), protective_step := js_trim (f_protective_step ?f),
                         gratitude := js_trim (f_gratitude ?f), edited_at := Some (t_now cx)\<rparr>"
  have c0: "count_on_date today (put_entry e' st) = 0"
    using count_on_date_put_other [of e' today st] old none by (simp add: e'_def)
  have u: "updateStreak (t_now cx) today today (put_entry e' st)
           = (\<lparr>updated = False, isFirstToday = False, streakData = sk\<rparr>, put_entry e' st)"
    using c0 sk by (simp add: updateStreak_def initializeStreakSummary_def Let_def)
  have "handleSave cx net today scr (ts, st)
        = (scr\<lparr>errors := [], streakInfo := Some (False, None), todayEntry := Some e', animating := True,
               j_toasts := j_toasts scr @ save_toast \<lparr>updated = False, isFirstToday = False, streakData = sk\<rparr> (Some e)\<rparr>,
           (ts, put_entry e' st))"
    using valid te u by (simp add: handleSave_def save_branch_def e'_def [symmetric] Let_def)
  then show ?thesis
    using c0 sk by (simp add: put_entry_def tbl_get_put e'_def)
qed

lemma initializeSeedPrompts_tables [simp]:
  "db_entries (snd (initializeSeedPrompts now st)) = db_entries st"
  "db_streak (snd (initializeSeedPrompts now st)) = db_streak st"
  by (simp_all add: initializeSeedPrompts_def Let_def split: prod.split)

lemma first_entry_on_None: "count_on_date d st = 0 \<Longrightarrow> first_entry_on d st = None"
  by (auto simp: first_entry_on_def count_on_date_def find_None_iff filter_empty_conv)

lemma loadTodayPrompt_no_entry:
  assumes "count_on_date today st = 0"
  shows "todayEntry (fst (loadTodayPrompt now today scr st)) = todayEntry scr
         \<and> db_entries (snd (loadTodayPrompt now today scr st)) = db_entries st
         \<and> db_streak (snd (loadTodayPrompt now today scr st)) = db_streak st"
proof -
  obtain err st1 where i: "initializeSeedPrompts now st = (err, st1)" by (cases "initializeSeedPrompts now st")
  have t: "db_entries st1 = db_entries st" "db_streak st1 = db_streak st"
    using initializeSeedPrompts_tables [of now st] i by simp_all
  have "first_entry_on today st1 = None"
    using assms t by (intro first_entry_on_None) (simp add: count_on_date_def)
  then show ?thesis
    using t by (auto simp: loadTodayPrompt_def i Let_def split: option.split)
qed

lemmas journal_eval = tel_eval streak_eval handleSave_def save_branch_def validateForm_def
  field_errors_def field_error_def js_trim_def is_js_space_def put_entry_def install_date_def
  save_toast_def form_abc_def entry5_def journal_store_def edit_screen_def tbl_count_def
  put_settings_def get_settings_def tbl_get_def

lemma edit_fixture:
  "validateForm (form edit_screen) = []" "todayEntry edit_screen = Some entry5"
  "tbl_get (db_entries journal_store) (entry_id entry5) = Some entry5" "dateLocal entry5 = 5"
  "count_on_date 5 journal_store = 1" "store_ok journal_store"
  by (simp_all add: journal_eval store_ok_def tbl_ok_def tbl_keyed_def)

lemma edit_fixture_event:
  "count_type Daily_completion (snd (handleSave (tel_cx (6 * ms_per_day + 7200000)) offline 5 edit_screen
       (loadQueueFromStorage [], journal_store))) = 1"
  by (simp add: journal_eval)

lemma behind_fixture:
  "getCurrentPrompt (install_date (Some (default_settings (611 * ms_per_day))) ms_per_day) ms_per_day 1
     behind_store = None"
  "validateForm (form (new_screen (Some (default_settings (611 * ms_per_day))))) = []"
  by code_simp (simp add: journal_eval new_screen_def)

lemma today_fixture:
  "store_ok today_store" "\<forall>p \<in> set (tbl_values (db_prompts today_store)). pid p \<noteq> []"
  "\<not> isl (fst (swapTodayPrompt 1000 1000 0 0 today_store))"
  by code_simp+

lemma stale_fixture:
  "validateForm form_day6 = []" "todayEntry edit_screen = Some entry5" "dateLocal entry5 \<noteq> 6"
  "count_on_date 6 journal_store = 0"
  "get_streak journal_store = Some (advance_streak (5 * ms_per_day + 72000000) 4 5 (fresh_streak 1000))"
  by (simp_all add: journal_eval form_day6_def count_on_date_def)

section \<open>Properties of the screens\<close>

text \<open>
  C36. Editing the day's entry reports it again as the first entry of the day: the edit
  branch of \<open>handleSave\<close> re-runs \<open>updateStreak\<close>, which counts one entry of today and
  answers \<open>isFirstToday\<close>, so the save sends a daily-completion event; once the UTC date has
  changed since the first save of the local day, that event is queued a second time.
\<close>

theorem edit_resends_daily_completion:
  assumes valid: "validateForm (form scr) = []" and te: "todayEntry scr = Some te"
    and stored: "tbl_get (db_entries st) (entry_id te) = Some te0" "dateLocal te0 = today" "dateLocal te = today"
    and one: "count_on_date today st = 1" and ok: "store_ok st"
  shows "\<exists>st2. snd (handleSave cx net today scr (ts, st)) = sendDailyCompletionEvent cx net (ts, st2)
           \<and> streakInfo (fst (handleSave cx net today scr (ts, st))) = Some (False, None)"
proof -
  let ?f = "form scr"
  define e where "e = te\<lparr>setback := js_trim (f_setback ?f), protective_step := js_trim (f_protective_step ?f),
                         gratitude := js_trim (f_gratitude ?f), edited_at := Some (t_now cx)\<rparr>"
  have c1: "count_on_date today (put_entry e st) = 1"
    using one stored by (simp add: count_on_date_put_entry e_def)
  have first: "isFirstToday (fst (updateStreak (t_now cx) today today (put_entry e st)))"
    using updateStreak_first [OF c1 store_ok_put_entry [OF ok]] by simp
  show ?thesis
    using first valid te
    by (auto simp: handleSave_def save_branch_def e_def [symmetric] Let_def split: prod.split)
qed

theorem edit_resends_daily_completion_witness:
  "streakInfo (fst (handleSave (tel_cx (6 * ms_per_day + 7200000)) offline 5 edit_screen
       (loadQueueFromStorage [], journal_store))) = Some (False, None)
   \<and> count_type Daily_completion (snd (handleSave (tel_cx (6 * ms_per_day + 7200000)) offline 5 edit_screen
       (loadQueueFromStorage [], journal_store))) = 1"
  using edit_resends_daily_completion [OF edit_fixture(1,2,3,4,4,5,6),
          of "tel_cx (6 * ms_per_day + 7200000)" offline "loadQueueFromStorage []"] edit_fixture_event
  by blast

text \<open>
  C37. When the current prompt resolves to \<open>undefined\<close> (the clock far behind the install
  instant), a new entry cannot be saved: \<open>todayPrompt.id\<close> throws, the save reports the
  general error and the error toast, and neither the store nor the outbox changes.
\<close>

theorem save_fails_without_prompt:
  assumes "validateForm (form scr) = []" "todayEntry scr = None"
    and "getCurrentPrompt (install_date (j_settings scr) (t_now cx)) (t_now cx) today st = None"
  shows "handleSave cx net today scr (ts, st)
         = (scr\<lparr>errors := [(''general'', ''Failed to save entry. Please try again.'')],
                j_toasts := j_toasts scr @ [(Toast_error, ''Save Failed'')]\<rparr>, (ts, st))"
  using assms by (simp add: handleSave_def save_branch_def Let_def)

theorem save_fails_without_prompt_witness:
  "handleSave (tel_cx ms_per_day) offline 1 (new_screen (Some (default_settings (611 * ms_per_day))))
     (loadQueueFromStorage [], behind_store)
   = ((new_screen (Some (default_settings (611 * ms_per_day))))\<lparr>errors := [(''general'', ''Failed to save entry. Please try again.'')],
        j_toasts := [(Toast_error, ''Save Failed'')]\<rparr>, (loadQueueFromStorage [], behind_store))"
  using save_fails_without_prompt [of "new_screen (Some (default_settings (611 * ms_per_day)))" "tel_cx ms_per_day" 1
          behind_store offline "loadQueueFromStorage []"] behind_fixture
  by (simp add: new_screen_def tel_cx_def)

text \<open>
  C38. A swap made on the Today screen survives a reload: the swapped prompt is shown at
  once, and a later \<open>loadTodayData\<close> of the same local day (seeding included) shows the
  same prompt with swapping disabled.
\<close>

theorem today_swap_survives_reload:
  assumes ok: "store_ok st" and ne: "\<forall>p \<in> set (tbl_values (db_prompts st)). pid p \<noteq> []"
    and x: "installAt x \<noteq> 0" and can: "canSwap scr" "\<not> isSwapping scr"
    and sw: "swapTodayPrompt (installAt x) now today r st = (Inr np, st')"
  shows "todayPrompt (fst (handleSwapPrompt now today r (Some x) scr st)) = Some np
    \<and> todayPrompt (fst (loadTodayData later today None sr scrr (snd (handleSwapPrompt now today r (Some x) scr st))))
        = Some np
    \<and> \<not> canSwap (fst (loadTodayData later today None sr scrr (snd (handleSwapPrompt now today r (Some x) scr st))))"
proof -
  have h: "handleSwapPrompt now today r (Some x) scr st
           = (scr\<lparr>todayPrompt := Some np, canSwap := False,
                  t_toasts := t_toasts scr @ [(Toast_success, ''Prompt swapped!'')]\<rparr>, st')"
    using can x sw by (simp add: handleSwapPrompt_def)
  obtain s where g': "get_settings st' = Some (s\<lparr>swapUsedDate := Some today, lastPromptDate := Some today,
                             lastPromptId := Some (pid np)\<rparr>)"
    and f: "db_prompts st' = db_prompts st" "np \<in> set (tbl_values (db_prompts st))" "source np = Seed"
        "find (\<lambda>p. pid p = pid np) (tbl_values (db_prompts st)) = Some np"
    using swapTodayPrompt_Inr_store [OF ok sw] by blast
  have seeded: "initializeSeedPrompts later st' = (None, st')"
    using f by (intro initializeSeedPrompts_seeded) auto
  have cur: "getCurrentPrompt i later today st' = Some np" for i
    using g' f ne by (simp add: getCurrentPrompt_def swapped_prompt_def)
  have "\<not> canSwapToday today (stored_swap_date st')"
    using g' by (simp add: stored_swap_date_def canSwapToday_def)
  then show ?thesis
    using h seeded cur
    by (simp add: loadTodayData_def isStorageAvailable_def load_available_def Let_def split: prod.split)
qed

theorem today_swap_survives_reload_witness:
  "\<exists>np st'. swapTodayPrompt 1000 1000 0 0 today_store = (Inr np, st')
     \<and> todayPrompt (fst (loadTodayData 5000 0 None None today_screen0
          (snd (handleSwapPrompt 1000 0 0 (Some (default_settings 1000)) today_screen0 today_store)))) = Some np"
proof -
  obtain np st' where sw: "swapTodayPrompt 1000 1000 0 0 today_store = (Inr np, st')"
    using today_fixture(3) by (cases "swapTodayPrompt 1000 1000 0 0 today_store") (metis fst_conv isl_def sum.exhaust)
  have x: "installAt (default_settings 1000) \<noteq> 0" "canSwap today_screen0" "\<not> isSwapping today_screen0"
    by (simp_all add: default_settings_def today_screen0_def)
  show ?thesis
    using today_swap_survives_reload [OF today_fixture(1,2) x(1) x(2,3),
            where now = 1000 and today = 0 and r = 0 and np = np and st' = st' and later = 5000
              and sr = None and scrr = today_screen0]
      sw by (simp add: default_settings_def)
qed

text \<open>
  C40. A page left open past midnight overwrites yesterday's entry: \<open>todayEntry\<close> lives in
  the app store for the life of the page, and \<open>loadTodayPrompt\<close> replaces it only when the
  new day already has an entry.  The first save of the new day then takes the edit branch:
  the old entry's text is replaced, no entry of the new day exists, the streak row is
  unchanged and no daily-completion event is sent.
\<close>

theorem stale_entry_overwritten:
  assumes valid: "validateForm f = []" and te: "todayEntry scr = Some e"
    and old: "dateLocal e \<noteq> today" and none: "count_on_date today st = 0"
    and sk: "get_streak st = Some sk"
  shows "todayEntry (fst (loadTodayPrompt now today scr st)) = Some e
    \<and> tbl_get (db_entries (snd (snd (handleSave cx net today ((fst (loadTodayPrompt now today scr st))\<lparr>form := f\<rparr>)
          (ts, snd (loadTodayPrompt now today scr st)))))) (entry_id e)
        = Some (e\<lparr>setback := js_trim (f_setback f), protective_step := js_trim (f_protective_step f),
                  gratitude := js_trim (f_gratitude f), edited_at := Some (t_now cx)\<rparr>)
    \<and> count_on_date today (snd (snd (handleSave cx net today ((fst (loadTodayPrompt now today scr st))\<lparr>form := f\<rparr>)
          (ts, snd (loadTodayPrompt now today scr st))))) = 0
    \<and> get_streak (snd (snd (handleSave cx net today ((fst (loadTodayPrompt now today scr st))\<lparr>form := f\<rparr>)
          (ts, snd (loadTodayPrompt now today scr st))))) = Some sk
    \<and> fst (snd (handleSave cx net today ((fst (loadTodayPrompt now today scr st))\<lparr>form := f\<rparr>)
          (ts, snd (loadTodayPrompt now today scr st)))) = ts"
proof -
  let ?scr1 = "fst (loadTodayPrompt now today scr st)" and ?st1 = "snd (loadTodayPrompt now today scr st)"
  have l: "todayEntry ?scr1 = Some e" "count_on_date today ?st1 = 0" "get_streak ?st1 = Some sk"
    using loadTodayPrompt_no_entry [OF none, of now scr] te none sk
    by (simp_all add: count_on_date_def get_streak_def)
  show ?thesis
    using handleSave_stale_entry [of "?scr1\<lparr>form := f\<rparr>" e today ?st1 sk cx net ts] valid l old by simp
qed

theorem stale_entry_overwritten_witness:
  "todayEntry (fst (loadTodayPrompt (6 * ms_per_day + 3600000) 6 edit_screen journal_store)) = Some entry5
   \<and> count_on_date 6 (snd (snd (handleSave (tel_cx (6 * ms_per_day + 3600000)) offline 6
       ((fst (loadTodayPrompt (6 * ms_per_day + 3600000) 6 edit_screen journal_store))\<lparr>form := form_day6\<rparr>)
       (loadQueueFromStorage [], snd (loadTodayPrompt (6 * ms_per_day + 3600000) 6 edit_screen journal_store))))) = 0"
  using stale_entry_overwritten [OF stale_fixture, where now = "6 * ms_per_day + 3600000"
          and cx = "tel_cx (6 * ms_per_day + 3600000)" and net = offline and ts = "loadQueueFromStorage []"]
  by blast

end
