(* ===== verification/PinCrypto.thy ===== *)
theory PinCrypto
  imports Prelude
begin

text \<open>
  The \<open>cryptoUtils\<close> object of \<open>src/lib/crypto.ts\<close> (bundled in
  \<open>src/src/components/TodayCard.tsx\<close>, lines 785-921): PIN format check, PBKDF2
  hashing of a PIN with a random salt, verification against stored \<open>PinHashData\<close>,
  the base64 conversions and the constant-time string comparison.  The Web platform
  primitives the code calls (\<open>btoa\<close>, \<open>atob\<close>, \<open>crypto.subtle.deriveBits\<close>) are the
  fields of a \<open>crypto_env\<close>; a primitive that throws returns \<open>None\<close>.  The lemmas show
  that \<open>constantTimeEquals\<close> is string equality, that the byte/base64 conversions round
  trip, and that a PIN verifies against its own hash and not against another PIN's.
\<close>

unbundle bit_operations_syntax

type_synonym byte = "8 word"

text \<open>\<open>interface PinHashData\<close>.\<close>

record PinHashData =
  hd_salt :: string
  hd_iterations :: nat
  hd_hash :: string

text \<open>
  The platform: \<open>btoa\<close> of a binary string, \<open>atob\<close> (throws on malformed input),
  and \<open>deriveBits\<close> of PBKDF2/SHA-256 with 256 output bits, from the key material,
  the salt and the iteration count (rejects, e.g., a zero iteration count).
\<close>

record crypto_env =
  btoa :: "string \<Rightarrow> string"
  atob :: "string \<Rightarrow> string option"
  pbkdf2_sha256 :: "byte list \<Rightarrow> byte list \<Rightarrow> nat \<Rightarrow> byte list option"

definition isValidPin :: "string \<Rightarrow> bool" where
  "isValidPin pin \<longleftrightarrow> length pin = 4 \<and> list_all is_digit pin"

text \<open>\<open>TextEncoder.encode\<close> on the ASCII strings it is applied to (valid PINs).\<close>

definition utf8_encode :: "string \<Rightarrow> byte list" where
  "utf8_encode s = map of_char s"

text \<open>
  \<open>arrayBufferToBase64\<close>: one \<open>String.fromCharCode(bytes[i])\<close> per byte, then \<open>btoa\<close>;
  \<open>base64ToArrayBuffer\<close>: \<open>atob\<close>, then \<open>charCodeAt\<close> stored into a \<open>Uint8Array\<close>.
\<close>

definition arrayBufferToBase64 :: "crypto_env \<Rightarrow> byte list \<Rightarrow> string" where
  "arrayBufferToBase64 env bytes = btoa env (map (\<lambda>b. char_of (unat b)) bytes)"

definition base64ToArrayBuffer :: "crypto_env \<Rightarrow> string \<Rightarrow> byte list option" where
  "base64ToArrayBuffer env s = map_option (map of_char) (atob env s)"

text \<open>\<open>hashPin\<close>: 100000 iterations; \<open>salt\<close> is the result of \<open>generateSalt\<close>.\<close>

definition hashPin :: "crypto_env \<Rightarrow> byte list \<Rightarrow> string \<Rightarrow> PinHashData option" where
  "hashPin env salt pin =
     (case pbkdf2_sha256 env (utf8_encode pin) salt 100000 of
        None \<Rightarrow> None
      | Some bits \<Rightarrow> Some \<lparr>hd_salt = arrayBufferToBase64 env salt, hd_iterations = 100000,
                           hd_hash = arrayBufferToBase64 env bits\<rparr>)"

text \<open>
  \<open>constantTimeEquals\<close>: \<open>result |= a.charCodeAt(i) ^ b.charCodeAt(i)\<close> over the common
  length; JavaScript bitwise operators work on 32-bit integers.
\<close>

fun ct_acc :: "32 word \<Rightarrow> string \<Rightarrow> string \<Rightarrow> 32 word" where
  "ct_acc r (a # as) (b # bs) = ct_acc (r OR (of_char a XOR of_char b)) as bs"
| "ct_acc r _ _ = r"

definition constantTimeEquals :: "string \<Rightarrow> string \<Rightarrow> bool" where
  "constantTimeEquals a b = (if length a \<noteq> length b then False else ct_acc 0 a b = 0)"

text \<open>\<open>cryptoUtils.verifyPin\<close>; every exception of the body is caught and gives \<open>false\<close>.\<close>

definition crypto_verifyPin :: "crypto_env \<Rightarrow> string \<Rightarrow> PinHashData \<Rightarrow> bool" where
  "crypto_verifyPin env pin phd =
     (case base64ToArrayBuffer env (hd_salt phd) of
        None \<Rightarrow> False
      | Some salt \<Rightarrow>
          (case pbkdf2_sha256 env (utf8_encode pin) salt (hd_iterations phd) of
             None \<Rightarrow> False
           | Some bits \<Rightarrow> constantTimeEquals (arrayBufferToBase64 env bits) (hd_hash phd)))"

text \<open>
  The platform laws the round trip needs: \<open>atob\<close> inverts \<open>btoa\<close>, \<open>btoa\<close> of a
  non-empty string is non-empty, and \<open>deriveBits\<close> succeeds for a positive iteration
  count with 256 bits (32 bytes).
\<close>

definition env_ok :: "crypto_env \<Rightarrow> bool" where
  "env_ok env \<longleftrightarrow> (\<forall>s. atob env (btoa env s) = Some s) \<and> (\<forall>s. btoa env s = [] \<longleftrightarrow> s = [])
                   \<and> (\<forall>k s n. 0 < n \<longrightarrow> pbkdf2_sha256 env k s n \<noteq> None)
                   \<and> (\<forall>k s n bits. pbkdf2_sha256 env k s n = Some bits \<longrightarrow> length bits = 32)"

text \<open>A platform satisfying the laws, used by the witnesses.\<close>

definition demo_env :: crypto_env where
  "demo_env = \<lparr>btoa = id, atob = Some,
     pbkdf2_sha256 = (\<lambda>k s n. if n = 0 then None else Some (take 32 (k @ s @ replicate 32 0)))\<rparr>"

section \<open>Lemmas\<close>

lemma xor_eq_0_iff_word: "(x::32 word) XOR y = 0 \<longleftrightarrow> x = y"
proof
  assume a: "x XOR y = 0"
  have "x = x XOR (y XOR y)" by simp
  also have "\<dots> = (x XOR y) XOR y" by (simp only: xor.assoc)
  also have "\<dots> = y" using a by simp
  finally show "x = y" .
qed simp

lemma of_char_word_eq_iff: "(of_char c :: 32 word) = of_char d \<longleftrightarrow> c = d"
proof
  assume "(of_char c :: 32 word) = of_char d"
  then have "unat (of_nat (of_char c) :: 32 word) = unat (of_nat (of_char d) :: 32 word)"
    by (simp add: of_nat_of_char)
  then have "(of_char c :: nat) = of_char d"
    using nat_of_char_less_256 [of c] nat_of_char_less_256 [of d] by (simp add: unat_of_nat)
  then show "c = d" by simp
qed simp

lemma ct_acc_eq_0:
  "length as = length bs \<Longrightarrow> ct_acc r as bs = 0 \<longleftrightarrow> r = 0 \<and> as = bs"
proof (induction r as bs rule: ct_acc.induct)
  case (1 r a as b bs)
  then show ?case by (simp add: or_eq_0_iff xor_eq_0_iff_word of_char_word_eq_iff conj_assoc)
qed auto

lemma byte_char_roundtrip: "(of_char (char_of (unat b)) :: byte) = b"
proof -
  have "(of_char (char_of (unat b)) :: nat) = unat b"
    using unsigned_less [of b, where ?'a = nat] by simp
  then have "(of_char (char_of (unat b)) :: byte) = of_nat (unat b)"
    by (metis of_nat_of_char)
  then show ?thesis by simp
qed

lemma base64_roundtrip:
  "env_ok env \<Longrightarrow> base64ToArrayBuffer env (arrayBufferToBase64 env bs) = Some bs"
  by (simp add: env_ok_def base64ToArrayBuffer_def arrayBufferToBase64_def comp_def
                byte_char_roundtrip)

lemma arrayBufferToBase64_inj:
  assumes "env_ok env" "arrayBufferToBase64 env xs = arrayBufferToBase64 env ys"
  shows "xs = ys"
  by (metis assms base64_roundtrip option.inject)

lemma arrayBufferToBase64_Nil_iff:
  "env_ok env \<Longrightarrow> arrayBufferToBase64 env bs = [] \<longleftrightarrow> bs = []"
  by (simp add: env_ok_def arrayBufferToBase64_def)

lemma byte_of_char_of_nat: "(of_char (char_of (n::nat)) :: byte) = of_nat (n mod 256)"
  by (metis of_char_of of_nat_of_char)

lemma hashPin_Some:
  "env_ok env \<Longrightarrow> \<exists>bits. pbkdf2_sha256 env (utf8_encode pin) salt 100000 = Some bits
     \<and> hashPin env salt pin = Some \<lparr>hd_salt = arrayBufferToBase64 env salt,
          hd_iterations = 100000, hd_hash = arrayBufferToBase64 env bits\<rparr>"
proof -
  assume "env_ok env"
  then obtain bits where "pbkdf2_sha256 env (utf8_encode pin) salt 100000 = Some bits"
    unfolding env_ok_def by (metis not_None_eq zero_less_numeral)
  then show ?thesis by (simp add: hashPin_def)
qed

lemma hashPin_verifies:
  assumes "env_ok env" "hashPin env salt pin = Some phd"
  shows "crypto_verifyPin env pin phd"
proof -
  obtain bits where b: "pbkdf2_sha256 env (utf8_encode pin) salt 100000 = Some bits"
    and h: "hashPin env salt pin = Some \<lparr>hd_salt = arrayBufferToBase64 env salt,
          hd_iterations = 100000, hd_hash = arrayBufferToBase64 env bits\<rparr>"
    using hashPin_Some [OF assms(1)] by blast
  show ?thesis
    using h b assms(2) base64_roundtrip [OF assms(1), of salt]
    by (auto simp: crypto_verifyPin_def constantTimeEquals_def ct_acc_eq_0)
qed

lemma hashPin_fields:
  assumes "env_ok env" "hashPin env salt pin = Some phd" "salt \<noteq> []"
  shows "hd_salt phd \<noteq> [] \<and> hd_hash phd \<noteq> [] \<and> hd_iterations phd = 100000"
proof -
  obtain bits where b: "pbkdf2_sha256 env (utf8_encode pin) salt 100000 = Some bits"
    and h: "hashPin env salt pin = Some \<lparr>hd_salt = arrayBufferToBase64 env salt,
          hd_iterations = 100000, hd_hash = arrayBufferToBase64 env bits\<rparr>"
    using hashPin_Some [OF assms(1)] by blast
  have "length bits = 32" using b assms(1) by (simp add: env_ok_def)
  then show ?thesis
    using h assms by (auto simp: arrayBufferToBase64_Nil_iff)
qed

text \<open>
  C15. \<open>constantTimeEquals\<close> decides string equality: the XOR/OR accumulator over
  32-bit words is zero exactly when the two strings have the same length and the same
  characters.
\<close>

theorem constantTimeEquals_iff: "constantTimeEquals a b \<longleftrightarrow> a = b"
  by (auto simp: constantTimeEquals_def ct_acc_eq_0)

text \<open>
  C16. Round trip: when the platform laws hold, \<open>hashPin\<close> succeeds and the PIN
  verifies against the \<open>PinHashData\<close> it produced (the salt comes back from its base64
  form, the derivation is repeated, the comparison succeeds).
\<close>

theorem hashPin_verifyPin_roundtrip:
  assumes "env_ok env"
  shows "\<exists>phd. hashPin env salt pin = Some phd \<and> crypto_verifyPin env pin phd"
  using hashPin_Some [OF assms] hashPin_verifies [OF assms] by blast

text \<open>
  C17. A different PIN is rejected: if its PBKDF2 output under the stored salt
  differs from the enrolled PIN's, \<open>verifyPin\<close> returns false.
\<close>

theorem hashPin_wrong_pin_rejected:
  assumes "env_ok env" "hashPin env salt pin = Some phd"
    and "pbkdf2_sha256 env (utf8_encode other) salt 100000
         \<noteq> pbkdf2_sha256 env (utf8_encode pin) salt 100000"
  shows "\<not> crypto_verifyPin env other phd"
proof -
  obtain bits where b: "pbkdf2_sha256 env (utf8_encode pin) salt 100000 = Some bits"
    and h: "hashPin env salt pin = Some \<lparr>hd_salt = arrayBufferToBase64 env salt,
          hd_iterations = 100000, hd_hash = arrayBufferToBase64 env bits\<rparr>"
    using hashPin_Some [OF assms(1)] by blast
  have phd: "phd = \<lparr>hd_salt = arrayBufferToBase64 env salt, hd_iterations = 100000,
                  hd_hash = arrayBufferToBase64 env bits\<rparr>"
    using h assms(2) by simp
  show ?thesis
  proof (cases "pbkdf2_sha256 env (utf8_encode other) salt 100000")
    case (Some bits')
    then have "bits' \<noteq> bits" using assms(3) b by auto
    then have "arrayBufferToBase64 env bits' \<noteq> arrayBufferToBase64 env bits"
      using arrayBufferToBase64_inj [OF assms(1)] by blast
    then show ?thesis
      using Some base64_roundtrip [OF assms(1), of salt]
      by (simp add: phd crypto_verifyPin_def constantTimeEquals_def ct_acc_eq_0)
  qed (simp add: phd crypto_verifyPin_def base64_roundtrip [OF assms(1)])
qed

lemma demo_env_ok: "env_ok demo_env"
  unfolding env_ok_def demo_env_def by (auto simp: min_def)

theorem hashPin_verifyPin_roundtrip_witness:
  "\<exists>phd. hashPin demo_env [7, 9] ''2468'' = Some phd \<and> crypto_verifyPin demo_env ''2468'' phd"
  by (rule hashPin_verifyPin_roundtrip [OF demo_env_ok])

theorem hashPin_wrong_pin_rejected_witness:
  "\<not> crypto_verifyPin demo_env ''1357''
      (the (hashPin demo_env [7, 9] ''2468''))"
proof (rule hashPin_wrong_pin_rejected [OF demo_env_ok])
  show "hashPin demo_env [7, 9] ''2468'' = Some (the (hashPin demo_env [7, 9] ''2468''))"
    by (simp add: hashPin_def demo_env_def)
  show "pbkdf2_sha256 demo_env (utf8_encode ''1357'') [7, 9] 100000
        \<noteq> pbkdf2_sha256 demo_env (utf8_encode ''2468'') [7, 9] 100000"
    by (simp add: demo_env_def utf8_encode_def)
qed

end
