(* ===== verification/Session.thy ===== *)
theory Session
  imports Store PinCrypto
begin

text \<open>
  The session lock: \<open>sessionUtils\<close> of \<open>src/lib/crypto.ts\<close> and the \<open>PinProvider\<close>
  of \<open>src/lib/pin-context.tsx\<close> (both bundled in \<open>src/src/components/TodayCard.tsx\<close>,
  lines 430-1026), with the \<open>AppGuard\<close> that loads the settings and shows the lock
  screen.  The React state of the provider is the record \<open>pin_state\<close>; the
  \<open>nvj_\<close> keys it keeps in \<open>localStorage\<close> live in the store's \<open>local_kv\<close>, so the
  wipe and a reload act on them as the browser does.  Each handler is a function on
  \<open>pin_state \<times> store\<close>; \<open>pin_step\<close> is the event step of the whole lock, with the
  guards the views put on each event; \<open>pin_reach\<close> its reachable configurations.
\<close>

section \<open>sessionUtils\<close>

definition updateLastActivity :: "ms \<Rightarrow> store \<Rightarrow> store" where
  "updateLastActivity now st = ls_set ''nvj_lastActivity'' (dec_int now) st"

definition shouldLock :: "ms \<Rightarrow> int \<Rightarrow> store \<Rightarrow> bool" where
  "shouldLock now timeoutMinutes st =
     (case ls_get ''nvj_lastActivity'' st of
        None \<Rightarrow> True
      | Some s \<Rightarrow>
          if s = [] then True
          else (case js_parseInt s of
                  None \<Rightarrow> False
                | Some lastActivityTime \<Rightarrow> now - lastActivityTime > timeoutMinutes * 60 * 1000))"

definition lockSession :: "store \<Rightarrow> store" where
  "lockSession st = ls_set ''nvj_sessionLocked'' ''true'' (ls_remove ''nvj_lastActivity'' st)"

definition unlockSession :: "ms \<Rightarrow> store \<Rightarrow> store" where
  "unlockSession now st = updateLastActivity now (ls_remove ''nvj_sessionLocked'' st)"

definition session_isLocked :: "store \<Rightarrow> bool" where
  "session_isLocked st \<longleftrightarrow> ls_get ''nvj_sessionLocked'' st = Some ''true''"

definition clearPinData :: "store \<Rightarrow> store" where
  "clearPinData st =
     ls_remove ''nvj_pinLockoutEnd'' (ls_remove ''nvj_pinAttempts''
       (ls_remove ''nvj_sessionLocked'' (ls_remove ''nvj_lastActivity'' st)))"

section \<open>PinProvider state\<close>

text \<open>
  \<open>app_settings\<close> is \<open>useAppStore().settings\<close>; \<open>attemptCount\<close> is a JavaScript number
  that \<open>parseInt\<close> may have made \<open>NaN\<close> (\<open>None\<close>); \<open>activity_timeout\<close> is the timeout
  of the listeners installed by \<open>initActivityTracking\<close> (\<open>None\<close>: none installed) and
  \<open>lock_deadline\<close> the due time of its pending \<open>setTimeout\<close>.
\<close>

record pin_state =
  app_settings :: "settings option"
  isInitialized :: bool
  isLocked :: bool
  attemptCount :: "int option"
  isTemporaryLocked :: bool
  lockoutEndTime :: "ms option"
  activity_timeout :: "int option"
  lock_deadline :: "ms option"

definition initial_pin_state :: pin_state where
  "initial_pin_state = \<lparr>app_settings = None, isInitialized = False, isLocked = False,
     attemptCount = Some 0, isTemporaryLocked = False, lockoutEndTime = None,
     activity_timeout = None, lock_deadline = None\<rparr>"

datatype pin_error =
    Temporarily_locked | Invalid_pin_format | Not_configured | Wrong_pin "int option"
  | Too_many_attempts | Setup_failed | Disable_failed | Update_failed

type_synonym pin_config = "pin_state \<times> store"
type_synonym pin_result = "(pin_error + unit) \<times> pin_state \<times> store"

text \<open>JavaScript truthiness of an optional string and \<open>x || d\<close> on numbers.\<close>

definition js_truthy_str :: "string option \<Rightarrow> bool" where
  "js_truthy_str s \<longleftrightarrow> s \<noteq> None \<and> s \<noteq> Some []"

definition js_or_int :: "int \<Rightarrow> int \<Rightarrow> int" where
  "js_or_int x d = (if x = 0 then d else x)"

text \<open>The \<open>hashData\<close> of \<open>verifyPin\<close>, present when the three PIN fields are truthy.\<close>

definition pin_hash_data :: "pin_state \<Rightarrow> PinHashData option" where
  "pin_hash_data ps =
     (case app_settings ps of
        None \<Rightarrow> None
      | Some s \<Rightarrow>
          (case (pinHash s, pinSalt s, pinIterations s) of
             (Some h, Some sa, Some it) \<Rightarrow>
               if h \<noteq> [] \<and> sa \<noteq> [] \<and> it \<noteq> 0
               then Some \<lparr>hd_salt = sa, hd_iterations = it, hd_hash = h\<rparr> else None
           | _ \<Rightarrow> None))"

text \<open>The context value: \<open>isPinEnabled\<close>, \<open>isLocked\<close> and \<open>lockTimeoutMinutes\<close>.\<close>

definition isPinEnabled :: "pin_state \<Rightarrow> bool" where
  "isPinEnabled ps \<longleftrightarrow> pin_hash_data ps \<noteq> None"

definition pinHash_set :: "pin_state \<Rightarrow> bool" where
  "pinHash_set ps \<longleftrightarrow> (case app_settings ps of None \<Rightarrow> False | Some s \<Rightarrow> js_truthy_str (pinHash s))"

definition exposed_isLocked :: "pin_state \<Rightarrow> bool" where
  "exposed_isLocked ps \<longleftrightarrow> isLocked ps \<and> pinHash_set ps"

definition lock_timeout_of :: "pin_state \<Rightarrow> int" where
  "lock_timeout_of ps =
     (case app_settings ps of None \<Rightarrow> 5 | Some s \<Rightarrow> js_or_int (lockTimeoutMinutes s) 5)"

text \<open>\<open>AppGuard\<close> renders the \<open>LockScreen\<close> instead of the app.\<close>

definition locked_view :: "pin_state \<Rightarrow> bool" where
  "locked_view ps \<longleftrightarrow> isPinEnabled ps \<and> exposed_isLocked ps"

section \<open>Effects and timers\<close>

text \<open>\<open>resetTimer\<close> of \<open>initActivityTracking\<close>: record the activity, re-arm the timer.\<close>

fun resetTimer :: "ms \<Rightarrow> int \<Rightarrow> pin_config \<Rightarrow> pin_config" where
  "resetTimer now t (ps, st) =
     (ps\<lparr>lock_deadline := Some (now + t * 60 * 1000)\<rparr>, updateLastActivity now st)"

text \<open>
  The auto-lock effect (lines 496-508), run when its dependencies change: the previous
  listeners are removed; with a PIN hash and an initialised provider the tracker is
  installed (which calls \<open>resetTimer\<close> at once) and the startup check runs.
\<close>

fun autoLockEffect :: "ms \<Rightarrow> pin_config \<Rightarrow> pin_config" where
  "autoLockEffect now (ps, st) =
     (let ps0 = ps\<lparr>activity_timeout := None, lock_deadline := None\<rparr> in
      if pinHash_set ps \<and> isInitialized ps then
        (let t = lock_timeout_of ps;
             (ps1, st1) = resetTimer now t (ps0\<lparr>activity_timeout := Some t\<rparr>, st)
         in (if shouldLock now t st1 \<or> session_isLocked st1 then ps1\<lparr>isLocked := True\<rparr> else ps1,
             st1))
      else (ps0, st))"

definition effect_deps :: "pin_state \<Rightarrow> string option \<times> int option \<times> bool" where
  "effect_deps ps = (Option.bind (app_settings ps) pinHash,
                     map_option lockTimeoutMinutes (app_settings ps), isInitialized ps)"

text \<open>The re-render after a handler: the effect re-runs when a dependency changed.\<close>

fun rerender :: "ms \<Rightarrow> pin_state \<Rightarrow> pin_result \<Rightarrow> pin_result" where
  "rerender now ps0 (r, ps, st) =
     (r, (if effect_deps ps0 = effect_deps ps then (ps, st) else autoLockEffect now (ps, st)))"

text \<open>The listeners of \<open>initActivityTracking\<close> and the callback of its timer.\<close>

fun handleActivity :: "ms \<Rightarrow> pin_config \<Rightarrow> pin_config" where
  "handleActivity now (ps, st) =
     (case activity_timeout ps of None \<Rightarrow> (ps, st) | Some t \<Rightarrow> resetTimer now t (ps, st))"

fun handleVisibilityChange :: "bool \<Rightarrow> ms \<Rightarrow> pin_config \<Rightarrow> pin_config" where
  "handleVisibilityChange hidden now (ps, st) =
     (case activity_timeout ps of
        None \<Rightarrow> (ps, st)
      | Some t \<Rightarrow> if hidden then (ps\<lparr>isLocked := True\<rparr>, lockSession st)
                 else resetTimer now t (ps, st))"

fun lockTimerFires :: "ms \<Rightarrow> pin_config \<Rightarrow> pin_config" where
  "lockTimerFires now (ps, st) =
     (case lock_deadline ps of
        None \<Rightarrow> (ps, st)
      | Some d \<Rightarrow> if d \<le> now then (ps\<lparr>isLocked := True, lock_deadline := None\<rparr>, lockSession st)
                 else (ps, st))"

text \<open>\<open>updateTimer\<close> of the lockout effect (lines 510-531), run every second.\<close>

fun lockoutTimer :: "ms \<Rightarrow> pin_config \<Rightarrow> pin_config" where
  "lockoutTimer now (ps, st) =
     (case lockoutEndTime ps of
        Some e \<Rightarrow>
          if isTemporaryLocked ps \<and> e \<noteq> 0 \<and> e - now \<le> 0
          then (ps\<lparr>isTemporaryLocked := False, lockoutEndTime := None, attemptCount := Some 0\<rparr>,
                ls_remove ''nvj_pinAttempts'' (ls_remove ''nvj_pinLockoutEnd'' st))
          else (ps, st)
      | None \<Rightarrow> (ps, st))"

section \<open>Handlers\<close>

text \<open>\<open>initializePinState\<close> (lines 533-560).\<close>

fun initializePinState :: "ms \<Rightarrow> pin_config \<Rightarrow> pin_config" where
  "initializePinState now (ps, st) =
     (let (ps1, st1) =
        (case ls_get ''nvj_pinLockoutEnd'' st of
           None \<Rightarrow> (ps, st)
         | Some s \<Rightarrow>
             if s = [] then (ps, st)
             else (case js_parseInt s of
                     Some endTime \<Rightarrow>
                       if now < endTime
                       then (ps\<lparr>isTemporaryLocked := True, lockoutEndTime := Some endTime,
                                attemptCount := Some 5\<rparr>, st)
                       else (ps, ls_remove ''nvj_pinAttempts'' (ls_remove ''nvj_pinLockoutEnd'' st))
                   | None \<Rightarrow> (ps, ls_remove ''nvj_pinAttempts'' (ls_remove ''nvj_pinLockoutEnd'' st))));
          ps2 = (case ls_get ''nvj_pinAttempts'' st1 of
                   None \<Rightarrow> ps1
                 | Some a \<Rightarrow> if a = [] then ps1 else ps1\<lparr>attemptCount := js_parseInt a\<rparr>)
      in (ps2\<lparr>isInitialized := True\<rparr>, st1))"

text \<open>\<open>verifyPin\<close> (lines 596-656).\<close>

fun verifyPin :: "crypto_env \<Rightarrow> ms \<Rightarrow> string \<Rightarrow> pin_config \<Rightarrow> pin_result" where
  "verifyPin env now pin (ps, st) =
     (if isTemporaryLocked ps then (Inl Temporarily_locked, ps, st)
      else if \<not> isValidPin pin then (Inl Invalid_pin_format, ps, st)
      else (case pin_hash_data ps of
              None \<Rightarrow> (Inl Not_configured, ps, st)
            | Some phd \<Rightarrow>
                if crypto_verifyPin env pin phd
                then (Inr (), ps\<lparr>attemptCount := Some 0, isTemporaryLocked := False,
                                 lockoutEndTime := None, isLocked := False\<rparr>,
                      unlockSession now (ls_remove ''nvj_pinLockoutEnd''
                                          (ls_remove ''nvj_pinAttempts'' st)))
                else
                  (let n = map_option (\<lambda>k. k + 1) (attemptCount ps);
                       st1 = ls_set ''nvj_pinAttempts'' (js_num_str n) st
                   in if (case n of Some k \<Rightarrow> 5 \<le> k | None \<Rightarrow> False)
                      then (Inl Too_many_attempts,
                            ps\<lparr>attemptCount := n, isTemporaryLocked := True,
                               lockoutEndTime := Some (now + 300000)\<rparr>,
                            ls_set ''nvj_pinLockoutEnd'' (dec_int (now + 300000)) st1)
                      else (Inl (Wrong_pin (map_option (\<lambda>k. 5 - k) n)), ps\<lparr>attemptCount := n\<rparr>, st1))))"

text \<open>
  \<open>setupPin\<close> (lines 566-594); \<open>salt\<close> is the output of \<open>generateSalt\<close>.  With no
  settings loaded the spread object has no primary key and \<open>db.settings.put\<close> rejects.
\<close>

fun setupPin :: "crypto_env \<Rightarrow> byte list \<Rightarrow> ms \<Rightarrow> string \<Rightarrow> pin_config \<Rightarrow> pin_result" where
  "setupPin env salt now pin (ps, st) =
     (if \<not> isValidPin pin then (Inl Invalid_pin_format, ps, st)
      else (case hashPin env salt pin of
              None \<Rightarrow> (Inl Setup_failed, ps, st)
            | Some phd \<Rightarrow>
                (case app_settings ps of
                   None \<Rightarrow> (Inl Setup_failed, ps, st)
                 | Some s \<Rightarrow>
                     (let s' = s\<lparr>pinHash := Some (hd_hash phd), pinSalt := Some (hd_salt phd),
                                 pinIterations := Some (hd_iterations phd),
                                 lockTimeoutMinutes := js_or_int (lockTimeoutMinutes s) 5\<rparr>
                      in (Inr (), ps\<lparr>app_settings := Some s', isLocked := False\<rparr>,
                          unlockSession now (put_settings s' st))))))"

text \<open>\<open>disablePin\<close> (lines 658-689): \<open>verifyPin\<close> first, its failure returned as is.\<close>

fun disablePin :: "crypto_env \<Rightarrow> ms \<Rightarrow> string \<Rightarrow> pin_config \<Rightarrow> pin_result" where
  "disablePin env now pin (ps, st) =
     (case verifyPin env now pin (ps, st) of
        (Inl e, c) \<Rightarrow> (Inl e, c)
      | (Inr _, ps1, st1) \<Rightarrow>
          (case app_settings ps of
             None \<Rightarrow> (Inl Disable_failed, ps1, st1)
           | Some s \<Rightarrow>
               (let s' = s\<lparr>pinHash := None, pinSalt := None, pinIterations := None\<rparr>
                in (Inr (), ps1\<lparr>app_settings := Some s', isLocked := False, attemptCount := Some 0,
                                isTemporaryLocked := False, lockoutEndTime := None\<rparr>,
                    clearPinData (put_settings s' st1)))))"

text \<open>\<open>lock\<close> and \<open>unlock\<close> (lines 691-699): part of the context, called by no view.\<close>

fun lock :: "pin_config \<Rightarrow> pin_config" where
  "lock (ps, st) = (ps\<lparr>isLocked := True\<rparr>, lockSession st)"

fun unlock :: "ms \<Rightarrow> pin_config \<Rightarrow> pin_config" where
  "unlock now (ps, st) = (ps\<lparr>isLocked := False\<rparr>, unlockSession now st)"

text \<open>\<open>updateLockTimeout\<close> (lines 701-714).\<close>

fun updateLockTimeout :: "int \<Rightarrow> pin_config \<Rightarrow> pin_result" where
  "updateLockTimeout minutes (ps, st) =
     (case app_settings ps of
        None \<Rightarrow> (Inl Update_failed, ps, st)
      | Some s \<Rightarrow> (let s' = s\<lparr>lockTimeoutMinutes := minutes\<rparr>
                  in (Inr (), ps\<lparr>app_settings := Some s'\<rparr>, put_settings s' st)))"

text \<open>\<open>resetWithWipe\<close> (lines 716-761): the four tables, then the browser storage.\<close>

fun resetWithWipe :: "pin_config \<Rightarrow> pin_result" where
  "resetWithWipe (ps, st) = (Inr (), ps, purge_browser_storage (wipeAllData st))"

text \<open>
  A page load: a fresh provider runs \<open>initializePinState\<close>; \<open>AppGuard\<close> then loads
  \<open>db.settings.get('main')\<close> into the app store (\<open>src/unnamed/part_002\<close>, lines
  18-43); the auto-lock effect then runs with its final dependencies.
\<close>

definition app_reload :: "ms \<Rightarrow> store \<Rightarrow> pin_config" where
  "app_reload now st =
     (let (ps1, st1) = initializePinState now (initial_pin_state, st);
          ps2 = (case get_settings st1 of None \<Rightarrow> ps1 | Some s \<Rightarrow> ps1\<lparr>app_settings := Some s\<rparr>)
      in autoLockEffect now (ps2, st1))"

section \<open>The lock as an event system\<close>

text \<open>
  The events the application can deliver: a page load; a PIN typed on the lock screen;
  the set-up, disable and timeout forms of \<open>SecuritySettings\<close> (shown only when the
  lock screen is not, set-up only without a PIN, the others only with one; the form
  accepts 1 to 120 minutes); user activity and visibility changes; the two timers;
  and the reset (from the lock screen or the settings), which both callers follow by
  a reload.
\<close>

datatype pin_event =
    Reload | EnterPin string | SetupPin "byte list" string | DisablePin string
  | ChangeTimeout int | UserActivity | TabHidden | TabVisible | LockTimerFires
  | LockoutTick | ResetWithWipe

fun pin_step :: "crypto_env \<Rightarrow> ms \<Rightarrow> pin_event \<Rightarrow> pin_config \<Rightarrow> pin_result option" where
  "pin_step env now ev (ps, st) =
     (case ev of
        Reload \<Rightarrow> Some (Inr (), app_reload now st)
      | EnterPin p \<Rightarrow>
          if locked_view ps then Some (rerender now ps (verifyPin env now p (ps, st))) else None
      | SetupPin salt p \<Rightarrow>
          if \<not> locked_view ps \<and> \<not> isPinEnabled ps
          then Some (rerender now ps (setupPin env salt now p (ps, st))) else None
      | DisablePin p \<Rightarrow>
          if \<not> locked_view ps \<and> isPinEnabled ps
          then Some (rerender now ps (disablePin env now p (ps, st))) else None
      | ChangeTimeout m \<Rightarrow>
          if \<not> locked_view ps \<and> isPinEnabled ps \<and> 1 \<le> m \<and> m \<le> 120
          then Some (rerender now ps (updateLockTimeout m (ps, st))) else None
      | UserActivity \<Rightarrow> Some (Inr (), handleActivity now (ps, st))
      | TabHidden \<Rightarrow> Some (Inr (), handleVisibilityChange True now (ps, st))
      | TabVisible \<Rightarrow> Some (Inr (), handleVisibilityChange False now (ps, st))
      | LockTimerFires \<Rightarrow> Some (Inr (), lockTimerFires now (ps, st))
      | LockoutTick \<Rightarrow> Some (Inr (), lockoutTimer now (ps, st))
      | ResetWithWipe \<Rightarrow>
          (case resetWithWipe (ps, st) of (r, _, st') \<Rightarrow> Some (r, app_reload now st')))"

text \<open>The events that submit a PIN for verification.\<close>

fun is_pin_attempt :: "pin_event \<Rightarrow> bool" where
  "is_pin_attempt (EnterPin _) = True"
| "is_pin_attempt (DisablePin _) = True"
| "is_pin_attempt _ = False"

text \<open>Timed runs; \<open>None\<close> when an event is not available in the current view.\<close>

fun pin_run :: "crypto_env \<Rightarrow> (ms \<times> pin_event) list \<Rightarrow> pin_config
                \<Rightarrow> ((pin_error + unit) list \<times> pin_config) option" where
  "pin_run env [] c = Some ([], c)"
| "pin_run env ((now, ev) # evs) c =
     (case pin_step env now ev c of
        None \<Rightarrow> None
      | Some (r, c') \<Rightarrow> map_option (\<lambda>(rs, c''). (r # rs, c'')) (pin_run env evs c'))"

text \<open>
  A first load of a store whose attempt and lockout keys are absent and whose timeout
  is not negative, then any events.
\<close>

definition clean_start :: "store \<Rightarrow> bool" where
  "clean_start st \<longleftrightarrow> store_ok st \<and> ls_get ''nvj_pinAttempts'' st = None
     \<and> ls_get ''nvj_pinLockoutEnd'' st = None
     \<and> (\<forall>s. get_settings st = Some s \<longrightarrow> 0 \<le> lockTimeoutMinutes s)"

inductive pin_reach :: "crypto_env \<Rightarrow> pin_config \<Rightarrow> bool" for env where
  start: "clean_start st \<Longrightarrow> pin_reach env (app_reload now st)"
| step: "pin_reach env c \<Longrightarrow> pin_step env now ev c = Some (r, c') \<Longrightarrow> pin_reach env c'"

text \<open>A store with the default settings row, the start of the scenarios below.\<close>

definition demo_store :: store where
  "demo_store = put_settings (default_settings 0) empty_store"

text \<open>
  The invariant of the reachable configurations.  \<open>stored_attempts k\<close> is the
  \<open>nvj_pinAttempts\<close> entry that goes with \<open>k\<close> failed attempts.
\<close>

definition stored_attempts :: "int \<Rightarrow> string option" where
  "stored_attempts k = (if k = 0 then None else Some (dec_int k))"

text \<open>What a page load needs of the store: the two keys written by \<open>verifyPin\<close> together.\<close>

definition reload_ok :: "store \<Rightarrow> bool" where
  "reload_ok st \<longleftrightarrow> store_ok st \<and> (\<forall>s. get_settings st = Some s \<longrightarrow> 0 \<le> lockTimeoutMinutes s)
     \<and> (case ls_get ''nvj_pinLockoutEnd'' st of
          None \<Rightarrow> (\<exists>k. 0 \<le> k \<and> k < 5 \<and> ls_get ''nvj_pinAttempts'' st = stored_attempts k)
        | Some v \<Rightarrow> (\<exists>e. v = dec_int e) \<and> ls_get ''nvj_pinAttempts'' st = Some (dec_int 5))"

definition pin_inv :: "pin_config \<Rightarrow> bool" where
  "pin_inv c \<longleftrightarrow> (case c of (ps, st) \<Rightarrow>
       store_ok st \<and> app_settings ps = get_settings st \<and> isInitialized ps
     \<and> (\<forall>s. get_settings st = Some s \<longrightarrow> 0 \<le> lockTimeoutMinutes s)
     \<and> (\<exists>k. attemptCount ps = Some k \<and> 0 \<le> k \<and> k \<le> 5 \<and> (isTemporaryLocked ps \<longleftrightarrow> k = 5)
            \<and> ls_get ''nvj_pinAttempts'' st = stored_attempts k)
     \<and> (isTemporaryLocked ps \<longleftrightarrow> lockoutEndTime ps \<noteq> None)
     \<and> ls_get ''nvj_pinLockoutEnd'' st = map_option dec_int (lockoutEndTime ps)
     \<and> (isLocked ps \<longrightarrow> session_isLocked st))"

text \<open>
  Scenario fixtures: the provider of a store whose settings hold the hash of PIN
  \<open>2468\<close> under \<open>demo_env\<close>, and event runs from a first load of \<open>demo_store\<close>.
\<close>

definition lo_run :: "(ms \<times> pin_event) list" where
  "lo_run = [(2000, SetupPin [7, 9] ''2468''), (3000, TabHidden), (4000, EnterPin ''1111''),
     (4001, EnterPin ''1111''), (4002, EnterPin ''1111''), (4003, EnterPin ''1111''),
     (4004, EnterPin ''1111'')]"

definition demo_hash :: PinHashData where
  "demo_hash = the (hashPin demo_env [7, 9] ''2468'')"

definition demo_locked :: pin_state where
  "demo_locked = initial_pin_state\<lparr>app_settings := Some ((default_settings 0)\<lparr>
       pinSalt := Some (hd_salt demo_hash), pinIterations := Some (hd_iterations demo_hash),
       pinHash := Some (hd_hash demo_hash)\<rparr>), isInitialized := True, isLocked := True\<rparr>"

definition lo_config :: pin_config where
  "lo_config = snd (the (pin_run demo_env lo_run (app_reload 1000 demo_store)))"

definition lo_tail :: "(ms \<times> pin_event) list" where
  "lo_tail = [(5000, Reload), (6000, EnterPin ''2468''), (7000, UserActivity)]"

definition lv_config :: pin_config where
  "lv_config = snd (the (pin_run demo_env (take 2 lo_run) (app_reload 1000 demo_store)))"

definition demo_pin_store :: store where
  "demo_pin_store = ls_set ''nvj_lastActivity'' ''0''
     (put_settings (the (app_settings demo_locked)) empty_store)"

section \<open>Lemmas\<close>


lemma session_ls [table_simps]:
  "ls_get k (updateLastActivity now st) = (if k = ''nvj_lastActivity'' then Some (dec_int now) else ls_get k st)"
  "ls_get k (lockSession st) = (if k = ''nvj_sessionLocked'' then Some ''true''
                                 else if k = ''nvj_lastActivity'' then None else ls_get k st)"
  "ls_get k (unlockSession now st) = (if k = ''nvj_lastActivity'' then Some (dec_int now)
                                       else if k = ''nvj_sessionLocked'' then None else ls_get k st)"
  "ls_get k (clearPinData st) = (if k \<in> {''nvj_lastActivity'', ''nvj_sessionLocked'', ''nvj_pinAttempts'',
                                  ''nvj_pinLockoutEnd''} then None else ls_get k st)"
  by (auto simp: updateLastActivity_def lockSession_def unlockSession_def clearPinData_def table_simps)

lemma session_store [table_simps]:
  "get_settings (updateLastActivity now st) = get_settings st"
  "get_settings (lockSession st) = get_settings st"
  "get_settings (unlockSession now st) = get_settings st"
  "get_settings (clearPinData st) = get_settings st"
  "store_ok (updateLastActivity now st) = store_ok st"
  "store_ok (lockSession st) = store_ok st"
  "store_ok (unlockSession now st) = store_ok st"
  "store_ok (clearPinData st) = store_ok st"
  by (simp_all add: updateLastActivity_def lockSession_def unlockSession_def clearPinData_def table_simps)

lemma session_isLocked_simps [table_simps]:
  "session_isLocked (updateLastActivity now st) = session_isLocked st"
  "session_isLocked (lockSession st)"
  "\<not> session_isLocked (unlockSession now st)"
  "\<not> session_isLocked (clearPinData st)"
  by (simp_all add: session_isLocked_def table_simps)

lemma session_isLocked_ls [table_simps]:
  "session_isLocked (ls_set k v st) = (if k = ''nvj_sessionLocked'' then v = ''true'' else session_isLocked st)"
  "session_isLocked (ls_remove k st) = (k \<noteq> ''nvj_sessionLocked'' \<and> session_isLocked st)"
  "session_isLocked (put_settings s st) = session_isLocked st"
  by (simp_all add: session_isLocked_def table_simps)

lemma stored_attempts_simps [simp]:
  "stored_attempts 0 = None" "0 < k \<Longrightarrow> stored_attempts k = Some (dec_int k)"
  by (simp_all add: stored_attempts_def)

lemma lock_timeout_nonneg:
  "pin_inv (ps, st) \<Longrightarrow> 0 \<le> lock_timeout_of ps"
  unfolding pin_inv_def lock_timeout_of_def js_or_int_def by (auto split: option.splits)

lemma shouldLock_after_activity:
  "0 \<le> t \<Longrightarrow> \<not> shouldLock now t (updateLastActivity now st)"
  by (simp add: shouldLock_def table_simps js_simps)

lemma autoLockEffect_eq:
  assumes "0 \<le> lock_timeout_of ps"
  shows "autoLockEffect now (ps, st) =
     (if pinHash_set ps \<and> isInitialized ps
      then (ps\<lparr>activity_timeout := Some (lock_timeout_of ps),
               lock_deadline := Some (now + lock_timeout_of ps * 60 * 1000),
               isLocked := isLocked ps \<or> session_isLocked st\<rparr>, updateLastActivity now st)
      else (ps\<lparr>activity_timeout := None, lock_deadline := None\<rparr>, st))"
  using assms shouldLock_after_activity [OF assms, of now st]
  by (auto simp: Let_def table_simps)


lemma inv_resetTimer: "pin_inv (ps, st) \<Longrightarrow> pin_inv (resetTimer now t (ps, st))"
  by (auto simp: pin_inv_def table_simps)

lemma inv_handleActivity: "pin_inv c \<Longrightarrow> pin_inv (handleActivity now c)"
  by (cases c) (auto split: option.splits simp: pin_inv_def table_simps)

lemma inv_handleVisibilityChange: "pin_inv c \<Longrightarrow> pin_inv (handleVisibilityChange h now c)"
  by (cases c) (auto split: option.splits simp: pin_inv_def table_simps)

lemma inv_lockTimerFires: "pin_inv c \<Longrightarrow> pin_inv (lockTimerFires now c)"
  by (cases c) (auto split: option.splits simp: pin_inv_def table_simps)

lemma inv_lockoutTimer: "pin_inv c \<Longrightarrow> pin_inv (lockoutTimer now c)"
  by (cases c) (auto split: option.splits simp: pin_inv_def table_simps)

lemma inv_autoLockEffect: "pin_inv (ps, st) \<Longrightarrow> pin_inv (autoLockEffect now (ps, st))"
  using lock_timeout_nonneg [of ps st]
  by (simp add: autoLockEffect_eq del: autoLockEffect.simps) (auto simp: pin_inv_def table_simps)

lemma inv_rerender: "pin_inv (snd x) \<Longrightarrow> pin_inv (snd (rerender now ps0 x))"
  by (cases x) (simp add: inv_autoLockEffect del: autoLockEffect.simps)

lemma inv_verifyPin: "pin_inv c \<Longrightarrow> pin_inv (snd (verifyPin env now p c))"
  by (cases c) (auto simp: pin_inv_def table_simps js_num_str_def Let_def split: option.splits)


lemma inv_setupPin: "pin_inv c \<Longrightarrow> pin_inv (snd (setupPin env salt now p c))"
proof (cases c)
  case (Pair ps st)
  assume inv: "pin_inv c"
  show ?thesis
  proof (cases "isValidPin p \<and> hashPin env salt p \<noteq> None \<and> app_settings ps \<noteq> None")
    case True
    then obtain phd s where h: "hashPin env salt p = Some phd" and s: "app_settings ps = Some s"
      by auto
    have id: "settings_id s = main_key"
      using inv s by (auto simp: Pair pin_inv_def intro: store_ok_settings_id)
    show ?thesis
      using inv True h s id by (auto simp: Pair pin_inv_def table_simps js_or_int_def Let_def)
  qed (use inv in \<open>auto simp: Pair split: option.splits\<close>)
qed


lemma inv_disablePin: "pin_inv c \<Longrightarrow> pin_inv (snd (disablePin env now p c))"
proof (cases c)
  case (Pair ps st)
  assume inv: "pin_inv c"
  obtain r ps1 st1 where vr: "verifyPin env now p (ps, st) = (r, ps1, st1)"
    by (metis prod.collapse)
  have v: "pin_inv (ps1, st1)"
    using inv inv_verifyPin [of "(ps, st)" env now p] vr Pair by simp
  show ?thesis
  proof (cases r)
    case (Inl e)
    then show ?thesis using v vr
      by (simp add: Pair del: verifyPin.simps)
  next
    case (Inr u)
    then have ok: "pin_hash_data ps \<noteq> None"
      and st1: "st1 = unlockSession now (ls_remove ''nvj_pinLockoutEnd'' (ls_remove ''nvj_pinAttempts'' st))"
      and ps1: "ps1 = ps\<lparr>attemptCount := Some 0, isTemporaryLocked := False,
                       lockoutEndTime := None, isLocked := False\<rparr>"
      using vr by (auto simp: Let_def split: if_splits option.splits)
    then obtain s where s: "app_settings ps = Some s"
      by (auto simp: pin_hash_data_def split: option.splits)
    have g: "get_settings st = Some s" and ok: "store_ok st"
      using inv s by (simp_all add: Pair pin_inv_def)
    then have id: "settings_id s = main_key"
      by (rule store_ok_settings_id [rotated])
    show ?thesis
      using vr Inr s g ok id st1 ps1 inv
      by (auto simp: Pair pin_inv_def table_simps Let_def simp del: verifyPin.simps)
  qed
qed

lemma inv_updateLockTimeout: "pin_inv c \<Longrightarrow> 0 \<le> m \<Longrightarrow> pin_inv (snd (updateLockTimeout m c))"
proof (cases c)
  case (Pair ps st)
  assume inv: "pin_inv c" and m: "0 \<le> m"
  show ?thesis
  proof (cases "app_settings ps")
    case (Some s)
    have g: "get_settings st = Some s" and ok: "store_ok st"
      using inv Some by (simp_all add: Pair pin_inv_def)
    then have id: "settings_id s = main_key"
      by (rule store_ok_settings_id [rotated])
    show ?thesis
      using inv g ok Some id m by (auto simp: Pair pin_inv_def table_simps Let_def)
  qed (use inv in \<open>simp add: Pair\<close>)
qed


lemma initializePinState_inv:
  assumes ok: "reload_ok st" and i: "initializePinState now (initial_pin_state, st) = (ps1, st1)"
  shows "pin_inv (ps1\<lparr>app_settings := get_settings st1\<rparr>, st1)"
proof (cases "ls_get ''nvj_pinLockoutEnd'' st")
  case None
  then obtain k where k: "0 \<le> k" "k < 5" "ls_get ''nvj_pinAttempts'' st = stored_attempts k"
    using ok by (auto simp: reload_ok_def)
  show ?thesis
  proof (cases "k = 0")
    case True
    then show ?thesis using i None k ok
      by (auto simp: pin_inv_def reload_ok_def initial_pin_state_def)
  next
    case False
    then show ?thesis using i None k ok
      by (auto simp: pin_inv_def reload_ok_def initial_pin_state_def js_simps)
  qed
next
  case (Some v)
  then obtain e where e: "v = dec_int e" "ls_get ''nvj_pinAttempts'' st = Some (dec_int 5)"
    using ok by (auto simp: reload_ok_def)
  show ?thesis
  proof (cases "now < e")
    case True
    then show ?thesis using i Some e ok
      by (auto simp: pin_inv_def reload_ok_def initial_pin_state_def js_simps table_simps)
  next
    case False
    then show ?thesis using i Some e ok
      by (auto simp: pin_inv_def reload_ok_def initial_pin_state_def js_simps table_simps)
  qed
qed

lemma inv_app_reload: "reload_ok st \<Longrightarrow> pin_inv (app_reload now st)"
proof -
  assume ok: "reload_ok st"
  obtain ps1 st1 where i: "initializePinState now (initial_pin_state, st) = (ps1, st1)"
    by (metis prod.collapse)
  have "app_settings ps1 = None"
    using i by (auto simp: initial_pin_state_def Let_def split: option.splits if_splits prod.splits)
  then have "(case get_settings st1 of None \<Rightarrow> ps1 | Some s \<Rightarrow> ps1\<lparr>app_settings := Some s\<rparr>)
             = ps1\<lparr>app_settings := get_settings st1\<rparr>"
    by (cases "get_settings st1") auto
  then show ?thesis
    using initializePinState_inv [OF ok i] i
    by (simp add: app_reload_def inv_autoLockEffect del: autoLockEffect.simps initializePinState.simps)
qed

lemma reload_ok_pin_inv: "pin_inv (ps, st) \<Longrightarrow> reload_ok st"
  unfolding pin_inv_def reload_ok_def by (fastforce split: option.splits)

lemma reload_ok_clean_start: "clean_start st \<Longrightarrow> reload_ok st"
  unfolding clean_start_def reload_ok_def by (auto intro: exI [of _ 0])

lemma reload_ok_wipe: "reload_ok (purge_browser_storage (wipeAllData st))"
proof -
  have "\<exists>k\<ge>0. k < 5 \<and> None = stored_attempts k"
    by (rule exI [of _ 0]) simp
  then show ?thesis
    by (simp add: reload_ok_def table_simps store_ok_wipe ls_get_purge app_key_def)
qed


lemma pin_step_inv:
  assumes inv: "pin_inv c" and step: "pin_step env now ev c = Some (r, c')"
  shows "pin_inv c'"
proof (cases c)
  case (Pair ps st)
  have inv': "pin_inv (ps, st)" using inv Pair by simp
  have eq: "pin_step env now ev (ps, st) = Some (r, c')" using step Pair by simp
  note dels = rerender.simps verifyPin.simps setupPin.simps disablePin.simps
    updateLockTimeout.simps handleActivity.simps handleVisibilityChange.simps
    lockTimerFires.simps lockoutTimer.simps
  show ?thesis
  proof (cases ev)
    case Reload
    then show ?thesis using eq inv' reload_ok_pin_inv inv_app_reload by auto
  next
    case ResetWithWipe
    then show ?thesis using eq inv_app_reload reload_ok_wipe by auto
  next
    case (EnterPin p)
    then have "c' = snd (rerender now ps (verifyPin env now p (ps, st)))"
      using eq by (auto split: if_splits simp del: dels)
    then show ?thesis using inv_rerender [OF inv_verifyPin [OF inv']] by simp
  next
    case (SetupPin salt p)
    then have "c' = snd (rerender now ps (setupPin env salt now p (ps, st)))"
      using eq by (auto split: if_splits simp del: dels)
    then show ?thesis using inv_rerender [OF inv_setupPin [OF inv']] by simp
  next
    case (DisablePin p)
    then have "c' = snd (rerender now ps (disablePin env now p (ps, st)))"
      using eq by (auto split: if_splits simp del: dels)
    then show ?thesis using inv_rerender [OF inv_disablePin [OF inv']] by simp
  next
    case (ChangeTimeout m)
    then have "c' = snd (rerender now ps (updateLockTimeout m (ps, st)))" and "0 \<le> m"
      using eq by (auto split: if_splits simp del: dels)
    then show ?thesis using inv_rerender [OF inv_updateLockTimeout [OF inv']] by simp
  next
    case UserActivity
    then show ?thesis using eq inv_handleActivity [OF inv'] by (auto simp del: dels)
  next
    case TabHidden
    then show ?thesis using eq inv_handleVisibilityChange [OF inv'] by (auto simp del: dels)
  next
    case TabVisible
    then show ?thesis using eq inv_handleVisibilityChange [OF inv'] by (auto simp del: dels)
  next
    case LockTimerFires
    then show ?thesis using eq inv_lockTimerFires [OF inv'] by (auto simp del: dels)
  next
    case LockoutTick
    then show ?thesis using eq inv_lockoutTimer [OF inv'] by (auto simp del: dels)
  qed
qed

lemma pin_reach_inv: "pin_reach env c \<Longrightarrow> pin_inv c"
proof (induction rule: pin_reach.induct)
  case (start st now)
  then show ?case by (simp add: inv_app_reload reload_ok_clean_start)
next
  case (step c now ev r c')
  then show ?case using pin_step_inv by blast
qed


lemma autoLockEffect_keeps:
  "isTemporaryLocked (fst (autoLockEffect now c)) = isTemporaryLocked (fst c)"
  "lockoutEndTime (fst (autoLockEffect now c)) = lockoutEndTime (fst c)"
  "app_settings (fst (autoLockEffect now c)) = app_settings (fst c)"
  "isLocked (fst c) \<Longrightarrow> isLocked (fst (autoLockEffect now c))"
  by (cases c; simp add: Let_def split: prod.splits)+

lemma rerender_keeps:
  "isTemporaryLocked (fst (snd (rerender now ps0 x))) = isTemporaryLocked (fst (snd x))"
  "lockoutEndTime (fst (snd (rerender now ps0 x))) = lockoutEndTime (fst (snd x))"
  "app_settings (fst (snd (rerender now ps0 x))) = app_settings (fst (snd x))"
  "isLocked (fst (snd x)) \<Longrightarrow> isLocked (fst (snd (rerender now ps0 x)))"
  by (cases x; simp add: autoLockEffect_keeps del: autoLockEffect.simps)+

lemma app_reload_settings:
  "app_settings (fst (app_reload now st)) = get_settings st"
proof -
  obtain ps1 st1 where i: "initializePinState now (initial_pin_state, st) = (ps1, st1)"
    by (metis prod.collapse)
  have "app_settings ps1 = None" and g: "get_settings st1 = get_settings st"
    using i by (auto simp: initial_pin_state_def Let_def table_simps
                     split: option.splits if_splits prod.splits)
  then show ?thesis using i
    by (cases "get_settings st")
       (simp_all add: app_reload_def autoLockEffect_keeps g del: autoLockEffect.simps initializePinState.simps)
qed

lemma app_reload_lockout:
  assumes "ls_get ''nvj_pinLockoutEnd'' st = Some (dec_int e)" "now < e"
  shows "isTemporaryLocked (fst (app_reload now st)) \<and> lockoutEndTime (fst (app_reload now st)) = Some e"
proof -
  obtain ps1 st1 where i: "initializePinState now (initial_pin_state, st) = (ps1, st1)"
    by (metis prod.collapse)
  have "isTemporaryLocked ps1 \<and> lockoutEndTime ps1 = Some e"
    using i assms by (auto simp: initial_pin_state_def Let_def js_simps split: option.splits)
  then show ?thesis using i
    by (cases "get_settings st1")
       (simp_all add: app_reload_def autoLockEffect_keeps del: autoLockEffect.simps initializePinState.simps)
qed

lemma handler_keeps_lockout:
  "isTemporaryLocked (fst (snd (setupPin env salt now p (ps, st)))) = isTemporaryLocked ps"
  "lockoutEndTime (fst (snd (setupPin env salt now p (ps, st)))) = lockoutEndTime ps"
  "isTemporaryLocked (fst (snd (updateLockTimeout m (ps, st)))) = isTemporaryLocked ps"
  "lockoutEndTime (fst (snd (updateLockTimeout m (ps, st)))) = lockoutEndTime ps"
  "isTemporaryLocked (fst (handleActivity now (ps, st))) = isTemporaryLocked ps"
  "lockoutEndTime (fst (handleActivity now (ps, st))) = lockoutEndTime ps"
  "isTemporaryLocked (fst (handleVisibilityChange h now (ps, st))) = isTemporaryLocked ps"
  "lockoutEndTime (fst (handleVisibilityChange h now (ps, st))) = lockoutEndTime ps"
  "isTemporaryLocked (fst (lockTimerFires now (ps, st))) = isTemporaryLocked ps"
  "lockoutEndTime (fst (lockTimerFires now (ps, st))) = lockoutEndTime ps"
  by (auto simp: Let_def split: option.splits)

lemma verifyPin_locked:
  "isTemporaryLocked ps \<Longrightarrow> verifyPin env now p (ps, st) = (Inl Temporarily_locked, ps, st)"
  by simp

lemma disablePin_locked:
  "isTemporaryLocked ps \<Longrightarrow> disablePin env now p (ps, st) = (Inl Temporarily_locked, ps, st)"
  by simp

lemma rerender_unchanged [simp]: "rerender now ps (r, ps, st) = (r, ps, st)"
  by simp

lemma pin_step_lockout:
  assumes inv: "pin_inv (ps, st)" and temp: "isTemporaryLocked ps" and e: "lockoutEndTime ps = Some e"
    and t: "now < e" and nw: "ev \<noteq> ResetWithWipe"
    and step: "pin_step env now ev (ps, st) = Some (r, c')"
  shows "isTemporaryLocked (fst c') \<and> lockoutEndTime (fst c') = Some e
         \<and> (is_pin_attempt ev \<longrightarrow> r = Inl Temporarily_locked)"
proof -
  note dels = rerender.simps verifyPin.simps setupPin.simps disablePin.simps
    updateLockTimeout.simps handleActivity.simps handleVisibilityChange.simps
    lockTimerFires.simps lockoutTimer.simps
  show ?thesis
  proof (cases ev)
    case Reload
    have "ls_get ''nvj_pinLockoutEnd'' st = Some (dec_int e)"
      using inv e by (simp add: pin_inv_def)
    then have "isTemporaryLocked (fst (app_reload now st)) \<and> lockoutEndTime (fst (app_reload now st)) = Some e"
      by (rule app_reload_lockout [OF _ t])
    moreover have "c' = app_reload now st" using Reload step by auto
    ultimately show ?thesis using Reload by simp
  next
    case (EnterPin p)
    then have "r = Inl Temporarily_locked \<and> c' = (ps, st)"
      using step by (simp add: verifyPin_locked [OF temp] rerender_unchanged split: if_splits del: dels)
    then show ?thesis using EnterPin temp e by simp
  next
    case (DisablePin p)
    then have "r = Inl Temporarily_locked \<and> c' = (ps, st)"
      using step by (simp add: disablePin_locked [OF temp] rerender_unchanged split: if_splits del: dels)
    then show ?thesis using DisablePin temp e by simp
  next
    case (SetupPin salt p)
    then have "c' = snd (rerender now ps (setupPin env salt now p (ps, st)))"
      using step by (auto split: if_splits simp del: dels)
    then show ?thesis using SetupPin temp e by (simp add: rerender_keeps handler_keeps_lockout del: dels)
  next
    case (ChangeTimeout m)
    then have "c' = snd (rerender now ps (updateLockTimeout m (ps, st)))"
      using step by (auto split: if_splits simp del: dels)
    then show ?thesis using ChangeTimeout temp e by (simp add: rerender_keeps handler_keeps_lockout del: dels)
  next
    case UserActivity
    then have "c' = handleActivity now (ps, st)" using step by (simp del: dels)
    then show ?thesis using UserActivity temp e by (simp add: handler_keeps_lockout del: dels)
  next
    case TabHidden
    then have "c' = handleVisibilityChange True now (ps, st)" using step by (simp del: dels)
    then show ?thesis using TabHidden temp e by (simp add: handler_keeps_lockout del: dels)
  next
    case TabVisible
    then have "c' = handleVisibilityChange False now (ps, st)" using step by (simp del: dels)
    then show ?thesis using TabVisible temp e by (simp add: handler_keeps_lockout del: dels)
  next
    case LockTimerFires
    then have "c' = lockTimerFires now (ps, st)" using step by (simp del: dels)
    then show ?thesis using LockTimerFires temp e by (simp add: handler_keeps_lockout del: dels)
  next
    case LockoutTick
    then show ?thesis using step temp e t by auto
  next
    case ResetWithWipe
    then show ?thesis using nw by simp
  qed
qed

lemmas session_eval = app_reload_def demo_store_def put_settings_def default_settings_def empty_store_def
  initial_pin_state_def ls_get_def ls_set_def ls_remove_def tbl_get_def tbl_put_def tbl_delete_def
  get_settings_def main_key_def pinHash_set_def js_truthy_str_def lock_timeout_of_def js_or_int_def
  updateLastActivity_def shouldLock_def session_isLocked_def lockSession_def unlockSession_def
  pin_hash_data_def isPinEnabled_def exposed_isLocked_def locked_view_def effect_deps_def
  crypto_verifyPin_def hashPin_def demo_env_def utf8_encode_def arrayBufferToBase64_def
  base64ToArrayBuffer_def constantTimeEquals_def ct_acc_eq_0 isValidPin_def is_digit_def
  js_num_str_def dec_int_def dec_nat.simps digit_char_def Let_def
  js_parseInt_def is_js_space_def parse_nat_def digit_val_def

lemma s1: "\<exists>rs c. pin_run demo_env (take 2 lo_run) (app_reload 1000 demo_store) = Some (rs, c) \<and> locked_view (fst c)"
  by (simp add: lo_run_def session_eval)

lemma pin_run_reach:
  "pin_reach env c \<Longrightarrow> pin_run env evs c = Some (rs, c') \<Longrightarrow> pin_reach env c'"
proof (induction evs arbitrary: c rs)
  case (Cons a evs)
  obtain t ev where a: "a = (t, ev)" by (cases a)
  from Cons.prems a obtain r c1 rs1 where s: "pin_step env t ev c = Some (r, c1)"
    and run: "pin_run env evs c1 = Some (rs1, c')"
    by (auto split: option.splits)
  have "pin_reach env c1" using Cons.prems(1) s by (rule pin_reach.step)
  then show ?case using Cons.IH run by blast
qed simp

lemma pin_run_lockout:
  assumes "pin_inv c" "isTemporaryLocked (fst c)" "lockoutEndTime (fst c) = Some e"
    "\<forall>(t, ev) \<in> set evs. t < e \<and> ev \<noteq> ResetWithWipe" "pin_run env evs c = Some (rs, c')"
  shows "isTemporaryLocked (fst c') \<and> lockoutEndTime (fst c') = Some e
         \<and> (\<forall>(r, t, ev) \<in> set (zip rs evs). is_pin_attempt ev \<longrightarrow> r = Inl Temporarily_locked)"
  using assms
proof (induction evs arbitrary: c rs)
  case (Cons a evs)
  obtain t ev where a: "a = (t, ev)" by (cases a)
  obtain ps st where c: "c = (ps, st)" by (cases c)
  from Cons.prems(5) a obtain r c1 rs1 where s: "pin_step env t ev c = Some (r, c1)"
    and run: "pin_run env evs c1 = Some (rs1, c')" and rs: "rs = r # rs1"
    by (auto split: option.splits)
  have te: "t < e" "ev \<noteq> ResetWithWipe" using Cons.prems(4) a by auto
  have l1: "isTemporaryLocked (fst c1) \<and> lockoutEndTime (fst c1) = Some e
            \<and> (is_pin_attempt ev \<longrightarrow> r = Inl Temporarily_locked)"
    using pin_step_lockout [of ps st e t ev env r c1] Cons.prems(1-3) s te c by simp
  have "pin_inv c1" using pin_step_inv Cons.prems(1) s by blast
  then have "isTemporaryLocked (fst c') \<and> lockoutEndTime (fst c') = Some e
         \<and> (\<forall>(r, t, ev) \<in> set (zip rs1 evs). is_pin_attempt ev \<longrightarrow> r = Inl Temporarily_locked)"
    using Cons.IH l1 run Cons.prems(4) by simp
  then show ?case using l1 rs a by simp
qed simp

text \<open>
  C19. A lockout cannot be bypassed before it ends: from a reachable configuration in
  lockout with end time \<open>e\<close>, any run of events dated before \<open>e\<close> (page reloads
  included, the reset with wipe excluded) stays in lockout with the same end time, and
  every PIN submitted in it (lock screen or disable form) is refused as
  \<open>Temporarily_locked\<close>.
\<close>

theorem lockout_not_bypassed:
  assumes "pin_reach env c" "isTemporaryLocked (fst c)" "lockoutEndTime (fst c) = Some e"
    "\<forall>(t, ev) \<in> set evs. t < e \<and> ev \<noteq> ResetWithWipe" "pin_run env evs c = Some (rs, c')"
  shows "isTemporaryLocked (fst c') \<and> lockoutEndTime (fst c') = Some e
         \<and> (\<forall>(r, t, ev) \<in> set (zip rs evs). is_pin_attempt ev \<longrightarrow> r = Inl Temporarily_locked)"
  using pin_run_lockout [OF pin_reach_inv [OF assms(1)] assms(2-5)] .

lemma rerender_fst: "fst (rerender now ps0 x) = fst x"
  by (cases x) simp

lemma locked_view_keep:
  "app_settings ps' = app_settings ps \<Longrightarrow> (isLocked ps \<longrightarrow> isLocked ps') \<Longrightarrow> locked_view ps
   \<Longrightarrow> locked_view ps'"
  by (simp add: locked_view_def isPinEnabled_def pin_hash_data_def exposed_isLocked_def pinHash_set_def)

lemma verifyPin_cases:
  assumes "verifyPin env now p (ps, st) = (r, ps', st')"
  shows "(r = Inr () \<and> (\<exists>phd. pin_hash_data ps = Some phd \<and> crypto_verifyPin env p phd))
         \<or> (r \<noteq> Inr () \<and> app_settings ps' = app_settings ps \<and> isLocked ps' = isLocked ps)"
  using assms by (auto simp: Let_def split: if_splits option.splits)

lemma app_reload_isLocked:
  assumes ok: "reload_ok st"
  shows "isLocked (fst (app_reload now st)) \<longleftrightarrow>
           (case get_settings st of None \<Rightarrow> False | Some s \<Rightarrow> js_truthy_str (pinHash s))
           \<and> session_isLocked st"
proof -
  obtain ps1 st1 where i: "initializePinState now (initial_pin_state, st) = (ps1, st1)"
    by (metis prod.collapse)
  have p1: "app_settings ps1 = None" "\<not> isLocked ps1" "isInitialized ps1"
    and g: "get_settings st1 = get_settings st" and sl: "session_isLocked st1 = session_isLocked st"
    using i by (auto simp: initial_pin_state_def Let_def table_simps
                     split: option.splits if_splits prod.splits)
  let ?ps2 = "ps1\<lparr>app_settings := get_settings st\<rparr>"
  have ps2: "(case get_settings st1 of None \<Rightarrow> ps1 | Some s \<Rightarrow> ps1\<lparr>app_settings := Some s\<rparr>) = ?ps2"
    using p1 g by (cases "get_settings st") auto
  have t: "0 \<le> lock_timeout_of ?ps2"
    using ok by (auto simp: reload_ok_def lock_timeout_of_def js_or_int_def split: option.splits)
  have "app_reload now st = autoLockEffect now (?ps2, st1)"
    using i ps2 by (simp add: app_reload_def del: autoLockEffect.simps initializePinState.simps)
  then show ?thesis
    using p1 sl t by (simp add: autoLockEffect_eq pinHash_set_def table_simps
                           del: autoLockEffect.simps split: option.splits)
qed

lemma locked_view_reload:
  assumes inv: "pin_inv (ps, st)" and lv': "locked_view ps"
  shows "locked_view (fst (app_reload now st))"
proof -
  have "isLocked (fst (app_reload now st))"
    using app_reload_isLocked [OF reload_ok_pin_inv [OF inv]] inv lv'
    by (auto simp: pin_inv_def locked_view_def exposed_isLocked_def pinHash_set_def)
  moreover have "app_settings (fst (app_reload now st)) = app_settings ps"
    using app_reload_settings inv by (simp add: pin_inv_def)
  ultimately show ?thesis using locked_view_keep [OF _ _ lv'] by auto
qed

lemma locked_view_verify_exit:
  assumes lv': "locked_view ps" and v: "verifyPin env now p (ps, st) = (r0, ps0, st0)"
    and ex: "\<not> locked_view (fst (snd (rerender now ps (r0, ps0, st0))))"
  shows "r0 = Inr () \<and> (\<exists>phd. pin_hash_data ps = Some phd \<and> crypto_verifyPin env p phd)"
  using verifyPin_cases [OF v]
proof
  assume f: "r0 \<noteq> Inr () \<and> app_settings ps0 = app_settings ps \<and> isLocked ps0 = isLocked ps"
  then have "app_settings (fst (snd (rerender now ps (r0, ps0, st0)))) = app_settings ps"
    "isLocked ps \<longrightarrow> isLocked (fst (snd (rerender now ps (r0, ps0, st0))))"
    using rerender_keeps(3,4) [where now = now and ?ps0.0 = ps and x = "(r0, ps0, st0)"] by auto
  then show ?thesis using locked_view_keep [OF _ _ lv'] ex by blast
qed

lemma pin_step_keeps_locked_view:
  assumes "pin_step env now ev (ps, st) = Some (r, c')"
    and "ev \<in> {UserActivity, TabHidden, TabVisible, LockTimerFires, LockoutTick}" and "locked_view ps"
  shows "locked_view (fst c')"
  using assms locked_view_keep [OF _ _ assms(3)] by (auto split: option.splits)

text \<open>
  C20. The lock screen is left only by a correct PIN or by the reset: if a reachable
  configuration shows the lock screen and one event leads to a configuration that does
  not, the event was the reset with wipe, or a PIN entered on the lock screen that the
  stored PBKDF2 hash data verifies, with a successful result.
\<close>

theorem locked_view_exit:
  assumes reach: "pin_reach env c" and lv: "locked_view (fst c)"
    and step: "pin_step env now ev c = Some (r, c')" and ex: "\<not> locked_view (fst c')"
  shows "ev = ResetWithWipe \<or> (\<exists>p phd. ev = EnterPin p \<and> r = Inr ()
           \<and> pin_hash_data (fst c) = Some phd \<and> crypto_verifyPin env p phd)"
proof -
  obtain ps st where c: "c = (ps, st)" by (cases c)
  have inv: "pin_inv (ps, st)" using pin_reach_inv [OF reach] c by simp
  note dels = rerender.simps verifyPin.simps setupPin.simps disablePin.simps
    updateLockTimeout.simps handleActivity.simps handleVisibilityChange.simps
    lockTimerFires.simps lockoutTimer.simps
  have lv': "locked_view ps" using lv c by simp
  have eq: "pin_step env now ev (ps, st) = Some (r, c')" using step c by simp
  show ?thesis
  proof (cases ev)
    case Reload
    then show ?thesis using locked_view_reload [OF inv lv', of now] eq ex by simp
  next
    case (EnterPin p)
    obtain r0 ps0 st0 where v: "verifyPin env now p (ps, st) = (r0, ps0, st0)"
      by (metis prod.collapse)
    have "rerender now ps (r0, ps0, st0) = (r, c')"
      using EnterPin eq v lv' by (auto simp del: dels)
    then have c': "c' = snd (rerender now ps (r0, ps0, st0))" "r = r0"
      using rerender_fst [of now ps "(r0, ps0, st0)"] by auto
    then show ?thesis using locked_view_verify_exit [OF lv' v] ex EnterPin c by auto
  qed (use eq lv' ex pin_step_keeps_locked_view [OF eq _ lv'] in \<open>auto simp del: dels\<close>)
qed

lemma clean_demo_store: "clean_start demo_store"
  by (simp add: clean_start_def session_eval store_ok_def tbl_ok_def tbl_keyed_def)

text \<open>
  C21. \<open>verifyPin\<close> with the correct PIN (outside a lockout, well formed, PIN
  configured) succeeds, resets the attempt counter to 0 and unlocks, removing the
  persisted attempt, lockout and session-lock keys.
\<close>

theorem verifyPin_correct_pin:
  assumes "\<not> isTemporaryLocked ps" "isValidPin p" "pin_hash_data ps = Some phd"
    "crypto_verifyPin env p phd" "verifyPin env now p (ps, st) = (r, ps', st')"
  shows "r = Inr () \<and> attemptCount ps' = Some 0 \<and> \<not> isTemporaryLocked ps'
    \<and> \<not> exposed_isLocked ps' \<and> ls_get ''nvj_pinAttempts'' st' = None
    \<and> ls_get ''nvj_pinLockoutEnd'' st' = None \<and> \<not> session_isLocked st'"
  using assms by (auto simp: exposed_isLocked_def table_simps session_isLocked_def)

text \<open>
  C22. \<open>verifyPin\<close> with a wrong PIN increments the attempt counter and persists it;
  below 5 it reports the remaining attempts, and the 5th consecutive failure starts a
  lockout ending 300000 ms later, persisted as an absolute time stamp.
\<close>

theorem verifyPin_wrong_pin:
  assumes "\<not> isTemporaryLocked ps" "isValidPin p" "pin_hash_data ps = Some phd"
    "\<not> crypto_verifyPin env p phd" "attemptCount ps = Some k" "0 \<le> k"
    "verifyPin env now p (ps, st) = (r, ps', st')"
  shows "attemptCount ps' = Some (k + 1)
    \<and> ls_get ''nvj_pinAttempts'' st' = Some (dec_int (k + 1))
    \<and> (k + 1 < 5 \<longrightarrow> r = Inl (Wrong_pin (Some (4 - k))) \<and> \<not> isTemporaryLocked ps')
    \<and> (5 \<le> k + 1 \<longrightarrow> r = Inl Too_many_attempts \<and> isTemporaryLocked ps'
         \<and> lockoutEndTime ps' = Some (now + 300000)
         \<and> ls_get ''nvj_pinLockoutEnd'' st' = Some (dec_int (now + 300000)))"
  using assms by (auto simp: table_simps js_num_str_def Let_def split: if_splits)

lemmas demo_eval = session_eval demo_hash_def demo_locked_def byte_char_roundtrip byte_of_char_of_nat
  or_eq_0_iff xor_eq_0_iff_word of_char_word_eq_iff

theorem verifyPin_correct_pin_witness:
  "fst (verifyPin demo_env 5000 ''2468'' (demo_locked, demo_store)) = Inr ()
   \<and> attemptCount (fst (snd (verifyPin demo_env 5000 ''2468'' (demo_locked, demo_store)))) = Some 0"
proof -
  have h: "pin_hash_data demo_locked = Some demo_hash"
    by (simp add: demo_eval)
  have v: "crypto_verifyPin demo_env ''2468'' demo_hash" by (simp add: demo_eval)
  obtain r ps' st' where e: "verifyPin demo_env 5000 ''2468'' (demo_locked, demo_store) = (r, ps', st')"
    by (metis prod.collapse)
  have "\<not> isTemporaryLocked demo_locked" "isValidPin ''2468''" by (simp_all add: demo_eval)
  then show ?thesis
    using verifyPin_correct_pin [OF _ _ h v e] e by (simp del: verifyPin.simps)
qed

theorem verifyPin_wrong_pin_witness:
  "fst (verifyPin demo_env 5000 ''1111'' (demo_locked\<lparr>attemptCount := Some 4\<rparr>, demo_store))
     = Inl Too_many_attempts
   \<and> isTemporaryLocked (fst (snd (verifyPin demo_env 5000 ''1111''
                                    (demo_locked\<lparr>attemptCount := Some 4\<rparr>, demo_store))))"
proof -
  obtain r ps' st' where e: "verifyPin demo_env 5000 ''1111'' (demo_locked\<lparr>attemptCount := Some 4\<rparr>, demo_store)
                             = (r, ps', st')"
    by (metis prod.collapse)
  have h: "pin_hash_data (demo_locked\<lparr>attemptCount := Some 4\<rparr>) = Some demo_hash"
    by (simp add: demo_eval)
  have v: "\<not> crypto_verifyPin demo_env ''1111'' demo_hash" by (simp add: demo_eval)
  have "\<not> isTemporaryLocked (demo_locked\<lparr>attemptCount := Some 4\<rparr>)" "isValidPin ''1111''"
    by (simp_all add: demo_eval)
  then show ?thesis
    using verifyPin_wrong_pin [OF _ _ h v _ _ e, of 4] e by (simp del: verifyPin.simps)
qed

lemma lo_run_eval:
  "\<exists>rs c. pin_run demo_env lo_run (app_reload 1000 demo_store) = Some (rs, c)
     \<and> isTemporaryLocked (fst c) \<and> lockoutEndTime (fst c) = Some 304004"
  by (simp add: lo_run_def demo_eval)

lemma lo_config_reach: "pin_reach demo_env lo_config"
proof -
  obtain rs c where r: "pin_run demo_env lo_run (app_reload 1000 demo_store) = Some (rs, c)"
    using lo_run_eval by blast
  have "pin_reach demo_env c"
    using pin_run_reach [OF pin_reach.start [OF clean_demo_store] r] .
  then show ?thesis using r by (simp add: lo_config_def)
qed

theorem lockout_not_bypassed_witness:
  "isTemporaryLocked (fst (snd (the (pin_run demo_env lo_tail lo_config))))
   \<and> fst (the (pin_run demo_env lo_tail lo_config)) ! 1 = Inl Temporarily_locked"
proof -
  have l: "isTemporaryLocked (fst lo_config) \<and> lockoutEndTime (fst lo_config) = Some 304004"
    using lo_run_eval by (auto simp: lo_config_def)
  have t: "\<forall>(t, ev) \<in> set lo_tail. t < 304004 \<and> ev \<noteq> ResetWithWipe"
    by (simp add: lo_tail_def)
  have "pin_run demo_env lo_tail lo_config \<noteq> None"
    by (simp add: lo_tail_def lo_config_def lo_run_def demo_eval)
  then have r: "pin_run demo_env lo_tail lo_config
      = Some (fst (the (pin_run demo_env lo_tail lo_config)), snd (the (pin_run demo_env lo_tail lo_config)))"
    by auto
  have m: "(fst (the (pin_run demo_env lo_tail lo_config)) ! 1, lo_tail ! 1)
           \<in> set (zip (fst (the (pin_run demo_env lo_tail lo_config))) lo_tail)"
    by (simp add: lo_tail_def lo_config_def lo_run_def demo_eval)
  have "is_pin_attempt (snd (lo_tail ! 1))" by (simp add: lo_tail_def)
  then show ?thesis
    using lockout_not_bypassed [OF lo_config_reach conjunct1 [OF l] conjunct2 [OF l] t r] m
    by fastforce
qed

lemma lv_config_reach: "pin_reach demo_env lv_config \<and> locked_view (fst lv_config)"
proof -
  have e: "\<exists>rs c. pin_run demo_env (take 2 lo_run) (app_reload 1000 demo_store) = Some (rs, c)
              \<and> locked_view (fst c)"
    by (simp add: lo_run_def demo_eval)
  then obtain rs c where r: "pin_run demo_env (take 2 lo_run) (app_reload 1000 demo_store) = Some (rs, c)"
    and "locked_view (fst c)" by blast
  moreover have "pin_reach demo_env c"
    using pin_run_reach [OF pin_reach.start [OF clean_demo_store] r] .
  ultimately show ?thesis by (simp add: lv_config_def)
qed

theorem locked_view_exit_witness:
  "\<exists>phd. pin_hash_data (fst lv_config) = Some phd \<and> crypto_verifyPin demo_env ''2468'' phd"
proof -
  have s: "pin_step demo_env 4000 (EnterPin ''2468'') lv_config
        = Some (fst (the (pin_step demo_env 4000 (EnterPin ''2468'') lv_config)),
                snd (the (pin_step demo_env 4000 (EnterPin ''2468'') lv_config)))"
    by (simp add: lv_config_def lo_run_def demo_eval)
  have n: "\<not> locked_view (fst (snd (the (pin_step demo_env 4000 (EnterPin ''2468'') lv_config))))"
    by (simp add: lv_config_def lo_run_def demo_eval)
  show ?thesis
    using locked_view_exit [OF conjunct1 [OF lv_config_reach] conjunct2 [OF lv_config_reach] s n]
    by simp
qed

lemma db_settings_session [table_simps]:
  "db_settings (unlockSession now st) = db_settings st"
  "db_settings (lockSession st) = db_settings st"
  "db_settings (clearPinData st) = db_settings st"
  by (simp_all add: unlockSession_def lockSession_def clearPinData_def updateLastActivity_def table_simps)

text \<open>
  C23. \<open>setupPin\<close> with a valid PIN and working platform succeeds, leaves the app
  unlocked, writes the settings row it keeps in memory to the database, and the stored
  hash data verifies the same PIN.
\<close>

theorem setupPin_enables_pin:
  assumes env: "env_ok env" and p: "isValidPin p" and salt: "salt \<noteq> []"
    and s: "app_settings ps = Some s" and r: "setupPin env salt now p (ps, st) = (r, ps', st')"
  shows "r = Inr () \<and> \<not> exposed_isLocked ps' \<and> \<not> session_isLocked st'
    \<and> (\<exists>phd. pin_hash_data ps' = Some phd \<and> crypto_verifyPin env p phd)
    \<and> tbl_get (db_settings st') (settings_id s) = app_settings ps'"
proof -
  obtain phd where h: "hashPin env salt p = Some phd"
    using hashPin_Some [OF env] by blast
  have f: "hd_salt phd \<noteq> [] \<and> hd_hash phd \<noteq> [] \<and> hd_iterations phd = 100000"
    using hashPin_fields [OF env h salt] .
  have v: "crypto_verifyPin env p phd" using hashPin_verifies [OF env h] .
  have eta: "\<lparr>hd_salt = hd_salt phd, hd_iterations = 100000, hd_hash = hd_hash phd\<rparr> = phd"
    using f by (cases phd) simp
  have v2: "crypto_verifyPin env p \<lparr>hd_salt = hd_salt phd, hd_iterations = 100000, hd_hash = hd_hash phd\<rparr>"
    using v eta by simp
  show ?thesis
    using r p h s f v2
    by (auto simp: Let_def pin_hash_data_def exposed_isLocked_def table_simps put_settings_def
                   tbl_get_put session_isLocked_def)
qed

theorem setupPin_enables_pin_witness:
  "fst (setupPin demo_env [7, 9] 2000 ''2468'' (fst (app_reload 1000 demo_store), demo_store)) = Inr ()
   \<and> isPinEnabled (fst (snd (setupPin demo_env [7, 9] 2000 ''2468''
                                (fst (app_reload 1000 demo_store), demo_store))))"
proof -
  obtain r ps' st' where e: "setupPin demo_env [7, 9] 2000 ''2468'' (fst (app_reload 1000 demo_store), demo_store)
                             = (r, ps', st')"
    by (metis prod.collapse)
  have "isValidPin ''2468''" "app_settings (fst (app_reload 1000 demo_store)) = Some (default_settings 0)"
    by (simp_all add: demo_eval)
  then show ?thesis
    using setupPin_enables_pin [OF demo_env_ok _ _ _ e] e
    by (auto simp: isPinEnabled_def simp del: setupPin.simps)
qed

text \<open>
  C24. The start-up inactivity check is ineffective: on a page load with a PIN set and no
  persisted session lock, the app starts unlocked even when the stored last-activity time
  is older than the timeout (\<open>shouldLock\<close> on the stored state says to lock), because
  \<open>initActivityTracking\<close> refreshes \<open>nvj_lastActivity\<close> before the check runs.
\<close>

theorem startup_check_ignores_inactivity:
  assumes ok: "reload_ok st" and g: "get_settings st = Some s" and h: "js_truthy_str (pinHash s)"
    and nl: "\<not> session_isLocked st" and la: "ls_get ''nvj_lastActivity'' st = Some (dec_int lastActivity)"
    and old: "now - lastActivity > js_or_int (lockTimeoutMinutes s) 5 * 60 * 1000"
  shows "shouldLock now (js_or_int (lockTimeoutMinutes s) 5) st \<and> \<not> isLocked (fst (app_reload now st))"
  using app_reload_isLocked [OF ok, of now] g nl la old
  by (simp add: shouldLock_def js_simps)

theorem startup_check_ignores_inactivity_witness:
  "shouldLock 864000000 5 demo_pin_store \<and> \<not> isLocked (fst (app_reload 864000000 demo_pin_store))"
proof -
  have ok: "reload_ok demo_pin_store"
    by (auto simp: reload_ok_def demo_pin_store_def demo_eval store_ok_def tbl_ok_def tbl_keyed_def
             intro: exI [of _ 0])
  have g: "get_settings demo_pin_store = Some (the (app_settings demo_locked))"
    by (simp add: demo_pin_store_def demo_eval)
  have "js_truthy_str (pinHash (the (app_settings demo_locked)))"
       "\<not> session_isLocked demo_pin_store"
       "ls_get ''nvj_lastActivity'' demo_pin_store = Some (dec_int 0)"
       "js_or_int (lockTimeoutMinutes (the (app_settings demo_locked))) 5 = 5"
    by (simp_all add: demo_pin_store_def demo_eval)
  then show ?thesis
    using startup_check_ignores_inactivity [OF ok g, of 0 864000000] by simp
qed

text \<open>
  C25. The disable form counts toward the lockout while the app is unlocked: a wrong PIN
  submitted there (with the lock screen not shown) increments the attempt counter and
  leaves the lock screen hidden; the submission that brings the counter to 5 starts a
  lockout, still without the lock screen, after which every PIN in the disable form,
  the correct one included, is refused.
\<close>

theorem disable_attempts_lock_out_unlocked_app:
  assumes v: "\<not> locked_view ps" "\<not> isTemporaryLocked ps" "attemptCount ps = Some k"
    and h: "pin_hash_data ps = Some phd" "isValidPin p" "\<not> crypto_verifyPin env p phd"
    and s: "pin_step env now (DisablePin p) (ps, st) = Some (r, ps', st')"
  shows "attemptCount ps' = Some (k + 1) \<and> \<not> locked_view ps'
    \<and> (5 \<le> k + 1 \<longrightarrow> r = Inl Too_many_attempts \<and> isTemporaryLocked ps'
         \<and> (\<forall>q t. fst (the (pin_step env t (DisablePin q) (ps', st'))) = Inl Temporarily_locked))"
proof -
  have en: "isPinEnabled ps" using h(1) by (simp add: isPinEnabled_def)
  obtain r0 ps0 st0 where e: "verifyPin env now p (ps, st) = (r0, ps0, st0)" by (metis prod.collapse)
  have f: "r0 \<noteq> Inr () \<and> app_settings ps0 = app_settings ps \<and> isLocked ps0 = isLocked ps
      \<and> isInitialized ps0 = isInitialized ps \<and> attemptCount ps0 = Some (k + 1)
      \<and> (5 \<le> k + 1 \<longrightarrow> r0 = Inl Too_many_attempts \<and> isTemporaryLocked ps0)"
    using e v(2,3) h by (auto simp: Let_def split: if_splits)
  have d: "disablePin env now p (ps, st) = (r0, ps0, st0)"
    using e f by (cases r0) (auto simp del: verifyPin.simps)
  have re: "rerender now ps (r0, ps0, st0) = (r0, ps0, st0)"
    using f by (simp add: effect_deps_def)
  have c': "r = r0" "ps' = ps0" "st' = st0"
    using s v(1) en d re by (simp_all del: disablePin.simps rerender.simps)
  have "locked_view ps' = locked_view ps" "isPinEnabled ps' = isPinEnabled ps"
    unfolding locked_view_def isPinEnabled_def pin_hash_data_def exposed_isLocked_def pinHash_set_def
    using f c'(2) by simp_all
  then have lv: "\<not> locked_view ps'" "isPinEnabled ps'" using v(1) en by simp_all
  have "\<forall>q t. fst (the (pin_step env t (DisablePin q) (ps', st'))) = Inl Temporarily_locked"
    if "isTemporaryLocked ps'"
    using that lv by simp
  then show ?thesis using f c' lv by simp
qed

theorem disable_attempts_lock_out_unlocked_app_witness:
  "attemptCount (fst (snd (the (pin_step demo_env 5000 (DisablePin ''1111'')
      (demo_locked\<lparr>isLocked := False, attemptCount := Some 4\<rparr>, demo_store))))) = Some 5
   \<and> fst (the (pin_step demo_env 5000 (DisablePin ''1111'')
      (demo_locked\<lparr>isLocked := False, attemptCount := Some 4\<rparr>, demo_store))) = Inl Too_many_attempts"
proof -
  let ?ps = "demo_locked\<lparr>isLocked := False, attemptCount := Some 4\<rparr>"
  let ?x = "pin_step demo_env 5000 (DisablePin ''1111'') (?ps, demo_store)"
  have h: "pin_hash_data ?ps = Some demo_hash" by (simp add: demo_eval)
  have v: "\<not> crypto_verifyPin demo_env ''1111'' demo_hash" by (simp add: demo_eval)
  have l: "\<not> locked_view ?ps" "\<not> isTemporaryLocked ?ps" "isValidPin ''1111''" "isPinEnabled ?ps"
    by (simp_all add: demo_eval)
  have s: "?x = Some (fst (the ?x), fst (snd (the ?x)), snd (snd (the ?x)))"
    using l by (simp del: rerender.simps disablePin.simps)
  show ?thesis
    using disable_attempts_lock_out_unlocked_app [OF l(1,2) _ h l(3) v s, of 4] by simp
qed

text \<open>
  C26. A non-numeric \<open>nvj_pinAttempts\<close> value makes the attempt counter \<open>NaN\<close>:
  a failed verification keeps it \<open>NaN\<close> and never starts a lockout.
\<close>

theorem corrupt_attempt_counter_disables_lockout:
  assumes "attemptCount ps = None" "\<not> isTemporaryLocked ps"
    "verifyPin env now p (ps, st) = (r, ps', st')" "r \<noteq> Inr ()"
  shows "attemptCount ps' = None \<and> \<not> isTemporaryLocked ps'"
  using assms by (auto simp: Let_def split: if_splits option.splits)

theorem corrupt_attempt_counter_disables_lockout_witness:
  "attemptCount (fst (app_reload 1000 (ls_set ''nvj_pinAttempts'' ''x'' demo_pin_store))) = None
   \<and> \<not> isTemporaryLocked (fst (snd (verifyPin demo_env 2000 ''1111''
        (fst (app_reload 1000 (ls_set ''nvj_pinAttempts'' ''x'' demo_pin_store)), demo_pin_store))))"
proof -
  let ?ps = "fst (app_reload 1000 (ls_set ''nvj_pinAttempts'' ''x'' demo_pin_store))"
  obtain r ps' st' where e: "verifyPin demo_env 2000 ''1111'' (?ps, demo_pin_store) = (r, ps', st')"
    by (metis prod.collapse)
  have a: "attemptCount ?ps = None" "\<not> isTemporaryLocked ?ps"
    by (simp_all add: demo_pin_store_def demo_eval)
  have "r \<noteq> Inr ()" using e by (auto simp: demo_pin_store_def demo_eval)
  then show ?thesis
    using corrupt_attempt_counter_disables_lockout [OF a e] a e by (simp del: verifyPin.simps)
qed

end
