(* ===== verification/AppStore.thy ===== *)
theory AppStore
  imports Store
begin

text \<open>
  The UI state store \<open>useAppStore\<close> (zustand, appended to \<open>src/src/lib/database.ts\<close>) and
  the router \<open>Home\<close> of \<open>src/unnamed/part_001\<close>.  The store is a record with one setter
  per field, modelled as a datatype of actions applied by \<open>app_apply\<close>.  The \<open>persist\<close>
  middleware writes \<open>partialize(state)\<close>, i.e. \<open>isFirstLaunch\<close> and \<open>currentView\<close>, as
  JSON under \<open>negviz-app-store\<close> after every \<open>set\<close> (\<open>app_set\<close>), and a page load starts
  from the initial state merged with what it reads back (\<open>rehydrate\<close>).
\<close>

datatype app_view = V_onboarding | V_today | V_journal | V_last7days | V_all | V_settings

record app_state =
  a_settings :: "settings option"
  isLocked :: bool
  isFirstLaunch :: bool
  a_todayEntry :: "entry option"
  a_streak :: "streak_summary option"
  currentView :: app_view

definition initial_app_state :: app_state where
  "initial_app_state = \<lparr>a_settings = None, isLocked = False, isFirstLaunch = True,
     a_todayEntry = None, a_streak = None, currentView = V_onboarding\<rparr>"

text \<open>The setters \<open>setSettings\<close>, \<open>setLocked\<close>, \<open>setFirstLaunch\<close>, \<open>setTodayEntry\<close>, \<open>setStreak\<close>, \<open>setCurrentView\<close>.\<close>

datatype app_action =
  SetSettings settings | SetLocked bool | SetFirstLaunch bool | SetTodayEntry "entry option"
  | SetStreak streak_summary | SetCurrentView app_view

fun app_apply :: "app_action \<Rightarrow> app_state \<Rightarrow> app_state" where
  "app_apply (SetSettings s) a = a\<lparr>a_settings := Some s\<rparr>"
| "app_apply (SetLocked b) a = a\<lparr>isLocked := b\<rparr>"
| "app_apply (SetFirstLaunch b) a = a\<lparr>isFirstLaunch := b\<rparr>"
| "app_apply (SetTodayEntry e) a = a\<lparr>a_todayEntry := e\<rparr>"
| "app_apply (SetStreak s) a = a\<lparr>a_streak := Some s\<rparr>"
| "app_apply (SetCurrentView v) a = a\<lparr>currentView := v\<rparr>"

section \<open>Persistence\<close>

definition app_store_key :: string where
  "app_store_key = ''negviz-app-store''"

fun view_name :: "app_view \<Rightarrow> string" where
  "view_name V_onboarding = ''onboarding''"
| "view_name V_today = ''today''"
| "view_name V_journal = ''journal''"
| "view_name V_last7days = ''last7days''"
| "view_name V_all = ''all''"
| "view_name V_settings = ''settings''"

definition jq :: "string \<Rightarrow> string" where
  "jq s = [CHR 0x22] @ s @ [CHR 0x22]"

definition js_bool :: "bool \<Rightarrow> string" where
  "js_bool b = (if b then ''true'' else ''false'')"

text \<open>\<open>JSON.stringify({state: partialize(state), version: 0})\<close>.\<close>

definition persist_json :: "bool \<Rightarrow> app_view \<Rightarrow> string" where
  "persist_json fl v = ''{'' @ jq ''state'' @ '':{'' @ jq ''isFirstLaunch'' @ '':'' @ js_bool fl @ '',''
     @ jq ''currentView'' @ '':'' @ jq (view_name v) @ ''},'' @ jq ''version'' @ '':0}''"

definition all_views :: "app_view list" where
  "all_views = [V_onboarding, V_today, V_journal, V_last7days, V_all, V_settings]"

text \<open>
  Reading the stored value back: the strings the middleware writes, decoded; any other
  string (none is written by the app) yields nothing, as a failed \<open>JSON.parse\<close> does.
\<close>

definition parse_persisted :: "string \<Rightarrow> (bool \<times> app_view) option" where
  "parse_persisted s =
     find (\<lambda>(fl, v). persist_json fl v = s) [(fl, v). fl \<leftarrow> [True, False], v \<leftarrow> all_views]"

text \<open>A \<open>set\<close> of the store, followed by the middleware's \<open>setItem\<close>.\<close>

definition app_set :: "app_action \<Rightarrow> app_state \<times> store \<Rightarrow> app_state \<times> store" where
  "app_set act c =
     (let a' = app_apply act (fst c)
      in (a', ls_set app_store_key (persist_json (isFirstLaunch a') (currentView a')) (snd c)))"

text \<open>Rehydration on a page load: the initial state, merged with the persisted fields.\<close>

definition rehydrate :: "store \<Rightarrow> app_state" where
  "rehydrate st =
     (case ls_get app_store_key st of
        None \<Rightarrow> initial_app_state
      | Some s \<Rightarrow> (case parse_persisted s of
                    None \<Rightarrow> initial_app_state
                  | Some (fl, v) \<Rightarrow> initial_app_state\<lparr>isFirstLaunch := fl, currentView := v\<rparr>))"

section \<open>Routing\<close>

datatype screen =
  Scr_OnboardingFlow | Scr_PromptEntry | Scr_SettingsPage | Scr_Last7DaysView
  | Scr_AllEntriesView | Scr_TodayCard

text \<open>\<open>Home\<close>: the onboarding flow on a first launch, otherwise \<open>renderMainContent\<close>.\<close>

definition renderMain :: "app_state \<Rightarrow> screen" where
  "renderMain a =
     (if isFirstLaunch a then Scr_OnboardingFlow
      else (case currentView a of
              V_journal \<Rightarrow> Scr_PromptEntry
            | V_settings \<Rightarrow> Scr_SettingsPage
            | V_last7days \<Rightarrow> Scr_Last7DaysView
            | V_all \<Rightarrow> Scr_AllEntriesView
            | _ \<Rightarrow> Scr_TodayCard))"

section \<open>Lemmas\<close>

lemma parse_persist_json [simp]: "parse_persisted (persist_json fl v) = Some (fl, v)"
  by (cases fl; cases v) (simp_all add: parse_persisted_def persist_json_def all_views_def jq_def js_bool_def)

lemma app_set_fst [simp]: "fst (app_set act c) = app_apply act (fst c)"
  by (simp add: app_set_def Let_def)

lemma app_set_store [table_simps]:
  "store_ok (snd (app_set act c)) = store_ok (snd c)"
  "db_entries (snd (app_set act c)) = db_entries (snd c)"
  "get_settings (snd (app_set act c)) = get_settings (snd c)"
  by (simp_all add: app_set_def Let_def table_simps)

lemma rehydrate_app_set:
  "rehydrate (snd (app_set act c)) =
     initial_app_state\<lparr>isFirstLaunch := isFirstLaunch (app_apply act (fst c)),
                        currentView := currentView (app_apply act (fst c))\<rparr>"
  by (simp add: app_set_def rehydrate_def Let_def table_simps)

lemma app_key_store_key: "app_key app_store_key"
  by (simp add: app_key_def app_store_key_def)

end
