(* ===== verification/Toasts.thy ===== *)
theory Toasts
  imports Prelude
begin

text \<open>
  The toast provider of \<open>src/src/components/ui/toast.tsx\<close>: a list of toasts with ids
  taken from the clock, removal by id (the close button and the timer \<open>addToast\<close>
  starts).  The action button of a toast
  works on the state of the screen that created it (\<open>EntriesViews.clickToastAction\<close>).
\<close>

text \<open>A toast; the action of an undo toast is the data its \<open>onClick\<close> closure captured.\<close>

record 'a toast_item =
  toast_id :: string
  toast_type :: toast_kind
  toast_title :: string
  toast_description :: string
  toast_action :: "'a option"

text \<open>\<open>addToast\<close>: the id is \<open>Date.now().toString()\<close>; \<open>removeToast\<close> drops every toast with the id.\<close>

definition addToast :: "ms \<Rightarrow> toast_kind \<Rightarrow> string \<Rightarrow> string \<Rightarrow> 'a option \<Rightarrow> 'a toast_item list
                        \<Rightarrow> 'a toast_item list" where
  "addToast now k ti d act ts =
     ts @ [\<lparr>toast_id = dec_int now, toast_type = k, toast_title = ti, toast_description = d,
            toast_action = act\<rparr>]"

definition removeToast :: "string \<Rightarrow> 'a toast_item list \<Rightarrow> 'a toast_item list" where
  "removeToast i ts = filter (\<lambda>t. toast_id t \<noteq> i) ts"

end
