(* ===== verification/Notifications.thy ===== *)
theory Notifications
  imports AppStore Toasts
begin

text \<open>
  The daily reminder: the notification helpers of \<open>src/unnamed/part_013\<close>
  (\<open>scheduleNotification\<close>, its timer callback, \<open>clearScheduledNotification\<close>,
  \<open>shouldShowInAppReminder\<close>, \<open>testNotification\<close>) and the handlers of the
  \<open>NotificationSettings\<close> component of \<open>src/unnamed/part_007\<close>.  The browser's
  Notification API is a record \<open>notif_env\<close> (support, permission, a service worker, the
  local time zone's offset); the module's single pending timeout and the notifications
  shown are the state \<open>notif_state\<close>.  Local time is UTC plus a fixed offset (no daylight
  saving change within a day).
\<close>

section \<open>The browser\<close>

datatype notif_permission = Perm_default | Perm_granted | Perm_denied

record notif_env =
  n_supported :: bool
  n_permission :: notif_permission
  n_serviceWorker :: bool
  tz_offset :: int

text \<open>
  The pending \<open>activeNotificationTimeout\<close> (its due instant and message) and the
  notifications shown so far (title and body).
\<close>

record notif_state =
  activeTimeout :: "(ms \<times> string) option"
  shown :: "(string \<times> string) list"

definition getNotificationPermission :: "notif_env \<Rightarrow> notif_permission" where
  "getNotificationPermission env = (if n_supported env then n_permission env else Perm_denied)"

section \<open>Cue times\<close>

text \<open>\<open>s.split(c)\<close>.\<close>

fun js_split :: "char \<Rightarrow> string \<Rightarrow> string list" where
  "js_split c [] = [[]]"
| "js_split c (x # xs) =
     (if x = c then [] # js_split c xs
      else (case js_split c xs of w # ws \<Rightarrow> (x # w) # ws | [] \<Rightarrow> [[x]]))"

text \<open>
  \<open>Number(s)\<close> on the strings a time input produces: white space trimmed, the empty string
  is 0, a string of decimal digits its value; any other string is \<open>NaN\<close> (\<open>None\<close>).
\<close>

definition js_Number :: "string \<Rightarrow> int option" where
  "js_Number s = (let t = js_trim s in if t = [] then Some 0 else map_option int (parse_nat t))"

text \<open>\<open>const [hours, minutes] = time.split(':').map(Number)\<close>; a missing part is \<open>undefined\<close>.\<close>

definition parse_cue_time :: "string \<Rightarrow> int option \<times> int option" where
  "parse_cue_time time =
     (case js_split CHR '':'' time of
        h # m # _ \<Rightarrow> (js_Number h, js_Number m)
      | [h] \<Rightarrow> (js_Number h, None)
      | [] \<Rightarrow> (None, None))"

text \<open>
  \<open>new Date(now)\<close> with \<open>setHours(hours, minutes, 0, 0)\<close>: the local midnight of \<open>now\<close>
  plus the hours and minutes, which may overflow into another day.
\<close>

definition local_midnight :: "int \<Rightarrow> ms \<Rightarrow> ms" where
  "local_midnight tz now = now - (now + tz) mod ms_per_day"

definition cue_instant :: "int \<Rightarrow> ms \<Rightarrow> int \<Rightarrow> int \<Rightarrow> ms" where
  "cue_instant tz now h m = local_midnight tz now + h * 3600000 + m * 60000"

section \<open>Scheduling\<close>

text \<open>
  \<open>scheduleNotification\<close>: the pending timeout is cleared; without support or permission
  nothing is scheduled.  A cue time at or before now moves to the next day, and a delay
  above 24 hours is refused.  With a \<open>NaN\<close> hour or minute the date is invalid, every
  comparison is false and \<open>setTimeout\<close> treats the \<open>NaN\<close> delay as 0.
\<close>

definition scheduleNotification :: "notif_env \<Rightarrow> ms \<Rightarrow> string \<Rightarrow> string \<Rightarrow> notif_state \<Rightarrow> notif_state" where
  "scheduleNotification env now time message st =
     (let st1 = st\<lparr>activeTimeout := None\<rparr> in
      if \<not> n_supported env \<or> getNotificationPermission env \<noteq> Perm_granted then st1
      else (case parse_cue_time time of
              (Some h, Some m) \<Rightarrow>
                (let s0 = cue_instant (tz_offset env) now h m;
                     s = (if s0 \<le> now then s0 + ms_per_day else s0);
                     delay = s - now
                 in if delay > ms_per_day then st1 else st1\<lparr>activeTimeout := Some (now + delay, message)\<rparr>)
            | _ \<Rightarrow> st1\<lparr>activeTimeout := Some (now, message)\<rparr>))"

definition notification_title :: string where
  "notification_title = ''Negative Visualization Journal''"

text \<open>\<open>showBrowserNotification\<close>: shown only with permission.\<close>

definition showBrowserNotification :: "notif_env \<Rightarrow> string \<Rightarrow> notif_state \<Rightarrow> notif_state" where
  "showBrowserNotification env message st =
     (if getNotificationPermission env = Perm_granted
      then st\<lparr>shown := shown st @ [(notification_title, message)]\<rparr> else st)"

text \<open>
  The timeout's callback: \<open>registration.showNotification\<close> through the service worker,
  otherwise the browser notification; then the pending timeout is cleared.
\<close>

definition fireNotification :: "notif_env \<Rightarrow> string \<Rightarrow> notif_state \<Rightarrow> notif_state" where
  "fireNotification env message st =
     (let st1 = (if n_serviceWorker env then st\<lparr>shown := shown st @ [(notification_title, message)]\<rparr>
                 else showBrowserNotification env message st)
      in st1\<lparr>activeTimeout := None\<rparr>)"

text \<open>The clock reaching \<open>now\<close>: a due timeout fires.\<close>

definition notif_tick :: "notif_env \<Rightarrow> ms \<Rightarrow> notif_state \<Rightarrow> notif_state" where
  "notif_tick env now st =
     (case activeTimeout st of
        Some (t, msg) \<Rightarrow> if t \<le> now then fireNotification env msg st else st
      | None \<Rightarrow> st)"

definition clearScheduledNotification :: "notif_state \<Rightarrow> notif_state" where
  "clearScheduledNotification st = st\<lparr>activeTimeout := None\<rparr>"

text \<open>\<open>shouldShowInAppReminder\<close>: within the hour after today's cue time.\<close>

definition shouldShowInAppReminder :: "int \<Rightarrow> ms \<Rightarrow> string \<Rightarrow> bool" where
  "shouldShowInAppReminder tz now cueTime =
     (if cueTime = [] then False
      else (case parse_cue_time cueTime of
              (Some h, Some m) \<Rightarrow> (let d = now - cue_instant tz now h m in 0 \<le> d \<and> d < 60 * 60 * 1000)
            | _ \<Rightarrow> False))"

text \<open>\<open>testNotification\<close>: its result and the test notification shown.\<close>

definition testNotification :: "notif_env \<Rightarrow> string \<Rightarrow> notif_state \<Rightarrow> bool \<times> notif_state" where
  "testNotification env message st =
     (if \<not> n_supported env \<or> getNotificationPermission env \<noteq> Perm_granted then (False, st)
      else (True, st\<lparr>shown := shown st @ [(''Test Notification'', message)]\<rparr>))"

section \<open>The notification settings component\<close>

record notif_page =
  permission :: notif_permission
  cueTime :: string
  isEnabled :: bool

text \<open>\<open>settings?.dailyCueTime || '09:00'\<close>: an absent or empty time shows 09:00.\<close>

definition cue_or_default :: "settings option \<Rightarrow> string" where
  "cue_or_default s =
     (case s of Some x \<Rightarrow> (case dailyCueTime x of Some t \<Rightarrow> if t = [] then ''09:00'' else t | None \<Rightarrow> ''09:00'')
      | None \<Rightarrow> ''09:00'')"

text \<open>The initial state and the mount effect, which reads the permission and the settings.\<close>

definition notif_page_init :: "notif_env \<Rightarrow> settings option \<Rightarrow> notif_page" where
  "notif_page_init env s =
     \<lparr>permission = getNotificationPermission env, cueTime = cue_or_default s,
      isEnabled = (case s of Some x \<Rightarrow> dailyCueEnabled x | None \<Rightarrow> False)\<rparr>"

text \<open>The component, the app store whose \<open>settings\<close> it receives, the toasts, the database, the timeout.\<close>

record notif_cfg =
  np :: notif_page
  n_app :: app_state
  n_toasts :: "unit toast_item list"
  n_db :: store
  n_sched :: notif_state

definition notif_toast :: "ms \<Rightarrow> toast_kind \<Rightarrow> string \<Rightarrow> string \<Rightarrow> notif_cfg \<Rightarrow> notif_cfg" where
  "notif_toast now k ti d c = c\<lparr>n_toasts := addToast now k ti d None (n_toasts c)\<rparr>"

text \<open>\<open>handleRequestPermission\<close> with the user's answer to the browser's prompt.\<close>

definition handleRequestPermission :: "notif_env \<Rightarrow> ms \<Rightarrow> notif_permission \<Rightarrow> notif_cfg \<Rightarrow> notif_cfg" where
  "handleRequestPermission env now answer c =
     (if \<not> n_supported env
      then notif_toast now Toast_error ''Not Supported'' ''Notifications are not supported in this browser.'' c
      else (let c1 = c\<lparr>np := (np c)\<lparr>permission := answer\<rparr>\<rparr> in
            if answer = Perm_granted
            then notif_toast now Toast_success ''Permission Granted'' ''You can now receive daily reminder notifications.'' c1
            else if answer = Perm_denied
            then notif_toast now Toast_error ''Permission Denied''
                   ''Notifications were blocked. You can enable them in your browser settings.'' c1
            else c1))"

definition handleTestNotification :: "notif_env \<Rightarrow> ms \<Rightarrow> notif_cfg \<Rightarrow> notif_cfg" where
  "handleTestNotification env now c =
     (case testNotification env ''This is a test notification to confirm everything is working!'' (n_sched c) of
        (True, st) \<Rightarrow> notif_toast now Toast_success ''Test Successful''
                        ''Test notification sent! Check your browser or system notifications.'' (c\<lparr>n_sched := st\<rparr>)
      | (False, st) \<Rightarrow> notif_toast now Toast_error ''Test Failed''
                        ''Unable to send test notification. Check your notification permissions.'' (c\<lparr>n_sched := st\<rparr>))"

text \<open>\<open>formatCueTime\<close>: \<open>hour % 12 || 12\<close> and AM or PM.\<close>

definition formatCueTime :: "string \<Rightarrow> string" where
  "formatCueTime time =
     (let parts = js_split CHR '':'' time;
          hour = js_parseInt (hd parts);
          minutes = (case parts of _ # m # _ \<Rightarrow> m | _ \<Rightarrow> ''undefined'');
          ampm = (case hour of Some h \<Rightarrow> if 12 \<le> h then ''PM'' else ''AM'' | None \<Rightarrow> ''AM'');
          displayHour = (case hour of Some h \<Rightarrow> if js_rem h 12 = 0 then 12 else js_rem h 12 | None \<Rightarrow> 12)
      in dec_int displayHour @ '':'' @ minutes @ '' '' @ ampm)"

definition reminder_message :: string where
  "reminder_message = ''Time for your daily reflection! Take a few minutes to practice negative visualization.''"

text \<open>
  \<open>handleSaveSettings\<close>: nothing without settings; otherwise the app store's settings with
  the cue time, the enabled flag and \<open>notificationsEnabled\<close> are put, handed to
  \<open>onSettingsUpdate\<close> (\<open>setSettings\<close>), and the reminder scheduled or cleared.
\<close>

definition handleSaveSettings :: "notif_env \<Rightarrow> ms \<Rightarrow> notif_cfg \<Rightarrow> notif_cfg" where
  "handleSaveSettings env now c =
     (case a_settings (n_app c) of
        None \<Rightarrow> c
      | Some s \<Rightarrow>
          (let p = np c;
               upd = s\<lparr>dailyCueTime := Some (cueTime p), dailyCueEnabled := isEnabled p,
                       notificationsEnabled := (permission p = Perm_granted)\<rparr>;
               st = put_settings upd (n_db c);
               (a, st') = app_set (SetSettings upd) (n_app c, st);
               c1 = c\<lparr>n_app := a, n_db := st'\<rparr>
           in if isEnabled p \<and> permission p = Perm_granted
              then notif_toast now Toast_success ''Settings Saved''
                     (''Daily reminder scheduled for '' @ formatCueTime (cueTime p))
                     (c1\<lparr>n_sched := scheduleNotification env now (cueTime p) reminder_message (n_sched c1)\<rparr>)
              else notif_toast now Toast_success ''Settings Saved'' ''Daily reminder disabled''
                     (c1\<lparr>n_sched := clearScheduledNotification (n_sched c1)\<rparr>)))"

section \<open>Lemmas\<close>

lemma local_midnight_bounds:
  "local_midnight tz now \<le> now" "now < local_midnight tz now + ms_per_day"
  "(local_midnight tz now + tz) mod ms_per_day = 0"
proof -
  have "0 \<le> (now + tz) mod ms_per_day" "(now + tz) mod ms_per_day < ms_per_day" by simp_all
  then show "local_midnight tz now \<le> now" "now < local_midnight tz now + ms_per_day"
    by (simp_all add: local_midnight_def)
  have "local_midnight tz now + tz = ms_per_day * ((now + tz) div ms_per_day)"
    using div_mult_mod_eq [of "now + tz" ms_per_day] by (simp add: local_midnight_def algebra_simps)
  then show "(local_midnight tz now + tz) mod ms_per_day = 0" by simp
qed

lemma scheduleNotification_valid:
  assumes env: "n_supported env" "n_permission env = Perm_granted"
    and p: "parse_cue_time time = (Some h, Some m)"
    and hm: "0 \<le> h" "h < 24" "0 \<le> m" "m < 60"
  shows "\<exists>t. activeTimeout (scheduleNotification env now time msg st) = Some (t, msg)
           \<and> now < t \<and> t \<le> now + ms_per_day
           \<and> (t + tz_offset env) mod ms_per_day = h * 3600000 + m * 60000"
proof -
  define tz where "tz = tz_offset env"
  define M where "M = local_midnight tz now"
  define x where "x = h * 3600000 + m * 60000"
  have x: "0 \<le> x" "x < ms_per_day" using hm by (simp_all add: x_def)
  have M: "M \<le> now" "now < M + ms_per_day" "(M + tz) mod ms_per_day = 0"
    using local_midnight_bounds [where tz = tz and now = now] by (simp_all add: M_def)
  define s where "s = (if M + x \<le> now then M + x + ms_per_day else M + x)"
  have s: "now < s" "s \<le> now + ms_per_day" using x M by (auto simp: s_def)
  obtain k where k: "M + tz = ms_per_day * k" using M(3) by (metis dvd_def mod_0_imp_dvd)
  have "s + tz = ms_per_day * k + x \<or> s + tz = ms_per_day * (k + 1) + x"
    using k by (simp add: s_def algebra_simps)
  moreover have "\<And>j. (ms_per_day * j + x) mod ms_per_day = x" using x by simp
  ultimately have "(s + tz) mod ms_per_day = x" by metis
  moreover have "activeTimeout (scheduleNotification env now time msg st)
                   = (if ms_per_day < s - now then None else Some (now + (s - now), msg))"
    using env p by (simp add: scheduleNotification_def getNotificationPermission_def cue_instant_def Let_def
                              s_def M_def x_def tz_def add.assoc)
  ultimately show ?thesis using s by (auto simp: x_def tz_def)
qed

lemma reminder_at_due_time:
  assumes p: "parse_cue_time time = (Some h, Some m)" "time \<noteq> []"
    and hm: "0 \<le> h" "h < 24" "0 \<le> m" "m < 60"
    and t: "(t + tz) mod ms_per_day = h * 3600000 + m * 60000"
  shows "shouldShowInAppReminder tz t time"
proof -
  have "local_midnight tz t = t - (h * 3600000 + m * 60000)" using t by (simp add: local_midnight_def)
  then show ?thesis using p by (simp add: shouldShowInAppReminder_def cue_instant_def)
qed

lemma parse_cue_time_example: "parse_cue_time ''09:30'' = (Some 9, Some 30)"
  by (simp add: parse_cue_time_def js_Number_def js_trim_def is_js_space_def parse_nat_def is_digit_def digit_val_def)

text \<open>
  A valid cue time schedules one reminder, due at the next occurrence of that local time
  within 24 hours; when the clock reaches it the notification is shown (through the
  service worker, or by the browser with the permission granted), nothing stays pending,
  and the in-app reminder of the same cue time shows at that instant.
\<close>

lemma cue_time_reminder:
  assumes env: "n_supported env" "n_permission env = Perm_granted"
    and p: "parse_cue_time time = (Some h, Some m)" "time \<noteq> []"
    and hm: "0 \<le> h" "h < 24" "0 \<le> m" "m < 60"
  shows "\<exists>t. activeTimeout (scheduleNotification env now time msg st) = Some (t, msg)
           \<and> now < t \<and> t \<le> now + ms_per_day
           \<and> shown (notif_tick env t (scheduleNotification env now time msg st))
               = shown (scheduleNotification env now time msg st) @ [(notification_title, msg)]
           \<and> activeTimeout (notif_tick env t (scheduleNotification env now time msg st)) = None
           \<and> shouldShowInAppReminder (tz_offset env) t time"
proof -
  obtain t where t: "activeTimeout (scheduleNotification env now time msg st) = Some (t, msg)"
      "now < t" "t \<le> now + ms_per_day" "(t + tz_offset env) mod ms_per_day = h * 3600000 + m * 60000"
    using scheduleNotification_valid [OF env p(1) hm] by blast
  have "shouldShowInAppReminder (tz_offset env) t time" using reminder_at_due_time [OF p hm t(4)] .
  then show ?thesis using t env
    by (auto simp: notif_tick_def fireNotification_def showBrowserNotification_def
                   getNotificationPermission_def)
qed

end
