(* ===== verification/SettingsPage.thy ===== *)
theory SettingsPage
  imports Streak Session Telemetry Notifications
begin

text \<open>
  The settings page of \<open>src/unnamed/part_004\<close> (\<open>SettingsPage\<close>) and the typed
  confirmation of \<open>src/unnamed/part_010\<close> (\<open>DeleteConfirmationModal\<close>): the telemetry
  toggle, the streak reset, the export and the deletion of all data, each as the handler
  that calls into the telemetry outbox or the store and records its toast.  The page never
  writes the app store's \<open>settings\<close>; the security section on the same page changes the lock
  timeout through the \<open>PinProvider\<close> (\<open>Session.updateLockTimeout\<close>), which writes that
  cached row back to the database.
\<close>

record settings_page =
  sp_telemetryOptIn :: bool
  sp_queueLength :: nat
  sp_toasts :: "toast list"
  sp_isDeleting :: bool
  sp_showDeleteModal :: bool
  sp_isExporting :: bool
  sp_exported :: "nat option"
  sp_reload :: bool

text \<open>\<open>loadTelemetryStatus\<close> of the mount effect.\<close>

definition loadTelemetryStatus :: "tel_config \<Rightarrow> settings_page \<Rightarrow> settings_page" where
  "loadTelemetryStatus c page =
     page\<lparr>sp_telemetryOptIn := telemetry_isOptedIn (snd c), sp_queueLength := fst (getQueueStatus (fst c))\<rparr>"

text \<open>\<open>handleTelemetryToggle\<close>: \<open>optIn\<close> or \<open>optOut\<close>, the toast, and the page's own flag.\<close>

definition handleTelemetryToggle :: "tel_ctx \<Rightarrow> (TelemetryEvent \<Rightarrow> bool) \<Rightarrow> bool \<Rightarrow> settings_page
                                     \<Rightarrow> tel_config \<Rightarrow> settings_page \<times> tel_config" where
  "handleTelemetryToggle cx net enabled page c =
     (let c' = (if enabled then optIn cx net c else optOut c);
          t = (if enabled then (Toast_success, ''Telemetry Enabled'') else (Toast_info, ''Telemetry Disabled''))
      in (page\<lparr>sp_toasts := sp_toasts page @ [t], sp_telemetryOptIn := enabled,
               sp_queueLength := fst (getQueueStatus (fst c'))\<rparr>, c'))"

text \<open>\<open>handleDataReset\<close> after \<open>window.confirm\<close>.\<close>

definition handleDataReset :: "ms \<Rightarrow> bool \<Rightarrow> settings_page \<Rightarrow> store \<Rightarrow> settings_page \<times> store" where
  "handleDataReset now confirmed page st =
     (if \<not> confirmed then (page, st)
      else (case resetStreakData now st of
              (ok, st') \<Rightarrow> (page\<lparr>sp_toasts := sp_toasts page @
                             [if ok then (Toast_success, ''Streak Data Reset'') else (Toast_error, ''Reset Failed'')]\<rparr>,
                           st')))"

text \<open>\<open>handleDataExport\<close>: the document of \<open>exportDataWithProgress\<close> and its entry count.\<close>

definition handleDataExport :: "ms \<Rightarrow> settings_page \<Rightarrow> store \<Rightarrow> settings_page \<times> export_doc option" where
  "handleDataExport now page st =
     (if sp_isExporting page then (page, None)
      else (let doc = exportDataWithProgress now st
            in (page\<lparr>sp_exported := Some (x_entryCount doc),
                     sp_toasts := sp_toasts page @ [(Toast_success, ''Export Complete'')]\<rparr>, Some doc)))"

text \<open>
  \<open>handleDeleteAllData\<close>: \<open>dbUtils.deleteAllData\<close> (refused when another tab is open, the
  probe result being \<open>others\<close>), the toast, the scheduled reload on success, and the modal
  closed in \<open>finally\<close>.
\<close>

definition handleDeleteAllData :: "bool \<Rightarrow> settings_page \<Rightarrow> store \<Rightarrow> settings_page \<times> store" where
  "handleDeleteAllData others page st =
     (case deleteAllData others st of
        (None, st') \<Rightarrow> (page\<lparr>sp_toasts := sp_toasts page @ [(Toast_success, ''Data Deleted'')],
                              sp_reload := True, sp_isDeleting := False, sp_showDeleteModal := False\<rparr>, st')
      | (Some _, st') \<Rightarrow> (page\<lparr>sp_toasts := sp_toasts page @ [(Toast_error, ''Deletion Failed'')],
                                sp_isDeleting := False, sp_showDeleteModal := False\<rparr>, st'))"

text \<open>
  \<open>DeleteConfirmationModal.handleConfirm\<close> with \<open>onConfirm = handleDeleteAllData\<close>: the typed
  text must equal \<open>confirmationPhrase\<close> (\<open>DELETE\<close>); otherwise the modal shows its error.
\<close>

definition confirmationPhrase :: string where
  "confirmationPhrase = ''DELETE''"

definition handleConfirm :: "bool \<Rightarrow> string \<Rightarrow> settings_page \<Rightarrow> store
                             \<Rightarrow> string option \<times> settings_page \<times> store" where
  "handleConfirm others inputValue page st =
     (if inputValue \<noteq> confirmationPhrase
      then (Some (''Please type '' @ [CHR 0x22] @ confirmationPhrase @ [CHR 0x22] @ '' exactly as shown''),
            page, st)
      else (None, handleDeleteAllData others page st))"

text \<open>
  The page's reminder effect on \<open>settings.dailyCueEnabled\<close> and \<open>settings.dailyCueTime\<close>:
  schedule the reminder when both are set (an empty time is falsy), otherwise clear it.
\<close>

definition settingsNotificationEffect :: "notif_env \<Rightarrow> ms \<Rightarrow> settings option \<Rightarrow> notif_state \<Rightarrow> notif_state" where
  "settingsNotificationEffect env now s st =
     (case s of
        Some x \<Rightarrow> (case dailyCueTime x of
                    Some t \<Rightarrow> if dailyCueEnabled x \<and> t \<noteq> [] then scheduleNotification env now t reminder_message st
                              else clearScheduledNotification st
                  | None \<Rightarrow> clearScheduledNotification st)
      | None \<Rightarrow> clearScheduledNotification st)"

subsection \<open>Fixtures\<close>

text \<open>A store with a PIN set and telemetry opted in, the provider state loaded from it.\<close>

definition pin_tel_settings :: settings where
  "pin_tel_settings = (default_settings 1000)\<lparr>pinSalt := Some ''c2FsdA=='', pinIterations := Some 100000,
     pinHash := Some ''aGFzaA=='', telemetryOptIn := True, telemetryAnonId := Some ''anon_1''\<rparr>"

definition pin_tel_store :: store where
  "pin_tel_store = put_settings pin_tel_settings empty_store"

definition pin_tel_state :: pin_state where
  "pin_tel_state = initial_pin_state\<lparr>app_settings := Some pin_tel_settings, isInitialized := True\<rparr>"

definition page0 :: settings_page where
  "page0 = \<lparr>sp_telemetryOptIn = True, sp_queueLength = 0, sp_toasts = [], sp_isDeleting = False,
     sp_showDeleteModal = False, sp_isExporting = False, sp_exported = None, sp_reload = False\<rparr>"

section \<open>Lemmas\<close>

lemma autoLockEffect_settings: "get_settings (snd (autoLockEffect now c)) = get_settings (snd c)"
  by (cases c) (simp add: Let_def table_simps split: prod.splits)

lemma rerender_settings: "get_settings (snd (snd (rerender now ps0 x))) = get_settings (snd (snd x))"
  by (cases x) (simp add: autoLockEffect_settings del: autoLockEffect.simps)

text \<open>Deletion happens exactly when the phrase is typed and no other tab answers.\<close>

lemma handleConfirm_store:
  "snd (snd (handleConfirm others inputValue page st))
     = (if inputValue = confirmationPhrase \<and> \<not> others then purge_browser_storage (wipeAllData st) else st)"
  by (simp add: handleConfirm_def handleDeleteAllData_def deleteAllData_def split: prod.split)

lemma pin_tel_fixture:
  "store_ok pin_tel_store" "get_settings pin_tel_store = Some pin_tel_settings"
  "app_settings pin_tel_state = Some pin_tel_settings" "telemetryOptIn pin_tel_settings"
  "\<not> locked_view pin_tel_state" "isPinEnabled pin_tel_state"
  by (simp_all add: pin_tel_store_def pin_tel_settings_def pin_tel_state_def store_ok_put_settings
        store_ok_empty table_simps default_settings_def main_key_def locked_view_def isPinEnabled_def
        pin_hash_data_def exposed_isLocked_def initial_pin_state_def)

text \<open>
  Saving the reminder settings writes the app store's copy of the settings row with the
  three reminder fields changed: whatever the row holds besides, such as an opt-out the
  telemetry toggle wrote to the database alone, is replaced by the copy.
\<close>

lemma handleSaveSettings_writes_cached_row:
  assumes a: "a_settings (n_app c) = Some s" and k: "settings_id s = main_key"
  shows "get_settings (n_db (handleSaveSettings env now c)) =
           Some (s\<lparr>dailyCueTime := Some (cueTime (np c)), dailyCueEnabled := isEnabled (np c),
                   notificationsEnabled := (permission (np c) = Perm_granted)\<rparr>)"
  using a k by (simp add: handleSaveSettings_def Let_def notif_toast_def table_simps prod.case_eq_if del: app_set_fst)

lemma notification_save_undoes_optOut:
  assumes ok: "store_ok st" and g: "get_settings st = Some s" and a: "a_settings (n_app c) = Some s"
    and o: "telemetryOptIn s" and d: "n_db c = snd (snd (handleTelemetryToggle cx net False page (ts, st)))"
  shows "\<not> telemetry_isOptedIn (n_db c) \<and> telemetry_isOptedIn (n_db (handleSaveSettings env now c))"
proof -
  have "store_ok (n_db c) \<and> \<not> telemetry_isOptedIn (n_db c)"
    using optOut_opted_out [of "(ts, st)"] ok d by (simp add: opted_out_def handleTelemetryToggle_def Let_def)
  moreover have "settings_id s = main_key" using store_ok_settings_id [OF ok g] .
  then have "telemetry_isOptedIn (n_db (handleSaveSettings env now c))"
    using handleSaveSettings_writes_cached_row [OF a] o
    by (simp add: telemetry_isOptedIn_def getTelemetrySettings_def)
  ultimately show ?thesis by simp
qed

section \<open>Properties of the page\<close>

text \<open>
  C39. An opt-out is undone by the next lock-timeout change: the telemetry toggle writes
  the settings row but not the app store's copy, and \<open>updateLockTimeout\<close> puts
  \<open>{...settings, lockTimeoutMinutes}\<close> from that copy, so the stored flag is opted in again
  and the outbox resumes, without the user opting in.
\<close>

theorem optOut_undone_by_lock_timeout:
  assumes ok: "store_ok st" and g: "get_settings st = Some s" and p: "app_settings ps = Some s"
    and o: "telemetryOptIn s" and v: "\<not> locked_view ps" "isPinEnabled ps" and m: "1 \<le> m" "m \<le> 120"
  shows "\<not> telemetry_isOptedIn (snd (snd (handleTelemetryToggle cx net False page (ts, st))))
    \<and> (\<exists>r ps' st'. pin_step env now (ChangeTimeout m) (ps, snd (snd (handleTelemetryToggle cx net False page (ts, st))))
          = Some (r, ps', st') \<and> telemetry_isOptedIn st')"
proof -
  define st1 where "st1 = snd (optOut (ts, st))"
  have h: "snd (snd (handleTelemetryToggle cx net False page (ts, st))) = st1"
    by (simp add: handleTelemetryToggle_def st1_def Let_def)
  have out: "store_ok st1 \<and> \<not> telemetry_isOptedIn st1"
    using optOut_opted_out [of "(ts, st)"] ok by (simp add: opted_out_def st1_def)
  define s' where "s' = s\<lparr>lockTimeoutMinutes := m\<rparr>"
  have "settings_id s' = main_key" using store_ok_settings_id [OF ok g] by (simp add: s'_def)
  then have g': "get_settings (put_settings s' st1) = Some s'" by (rule get_settings_put)
  have step: "pin_step env now (ChangeTimeout m) (ps, st1)
              = Some (rerender now ps (Inr (), ps\<lparr>app_settings := Some s'\<rparr>, put_settings s' st1))"
    using v m p by (simp add: s'_def Let_def del: rerender.simps)
  have "telemetry_isOptedIn (snd (snd (rerender now ps (Inr (), ps\<lparr>app_settings := Some s'\<rparr>, put_settings s' st1))))"
    using g' o
    by (simp add: telemetry_isOptedIn_def getTelemetrySettings_def rerender_settings s'_def del: rerender.simps)
  then show ?thesis
    using out step h by (metis prod.collapse)
qed

theorem optOut_undone_by_lock_timeout_witness:
  "\<not> telemetry_isOptedIn (snd (snd (handleTelemetryToggle (tel_cx 0) offline False page0
       (loadQueueFromStorage [], pin_tel_store))))
   \<and> telemetry_isOptedIn (snd (snd (the (pin_step demo_env 0 (ChangeTimeout 10)
       (pin_tel_state, snd (snd (handleTelemetryToggle (tel_cx 0) offline False page0
          (loadQueueFromStorage [], pin_tel_store))))))))"
proof -
  obtain r ps' st' where
    "\<not> telemetry_isOptedIn (snd (snd (handleTelemetryToggle (tel_cx 0) offline False page0
       (loadQueueFromStorage [], pin_tel_store))))"
    "pin_step demo_env 0 (ChangeTimeout 10) (pin_tel_state, snd (snd (handleTelemetryToggle (tel_cx 0) offline False page0
       (loadQueueFromStorage [], pin_tel_store)))) = Some (r, ps', st')"
    "telemetry_isOptedIn st'"
    using optOut_undone_by_lock_timeout [OF pin_tel_fixture, of 10 "tel_cx 0" offline page0 "loadQueueFromStorage []"
            demo_env 0]
    by auto
  then show ?thesis by simp
qed

end
