(* ===== verification/EntriesViews.thy ===== *)
theory EntriesViews
  imports AppStore Toasts
begin

text \<open>
  The two history screens, \<open>Last7DaysView\<close> (\<open>src/unnamed/part_008\<close>) and
  \<open>AllEntriesView\<close> (\<open>src/unnamed/part_010\<close>), with the toast provider they report through
  (\<open>Toasts\<close>).  Each screen's state, the app store, the toast list
  and the store form a configuration \<open>view_cfg\<close>; handlers are functions on it.  The load
  effect of each screen lists \<open>addToast\<close> among its dependencies, and \<open>ToastProvider\<close>
  (rendered once, in the root layout) creates a new \<open>addToast\<close> on every render, i.e.
  whenever its toast list changes.  \<open>effect_loop\<close> models React's rule: after a run the
  effect runs again when its dependencies changed.  It is a partial function: it returns
  the settled configuration, or \<open>None\<close> when the runs never stop.
\<close>

text \<open>A screen's state \<open>scr\<close> with the app store, the toasts and the database.\<close>

record ('v, 'a) view_cfg =
  scr :: 'v
  app :: app_state
  toasts :: "'a toast_item list"
  db :: store

text \<open>
  The action button of the \<open>k\<close>-th toast: \<open>toast.action.onClick()\<close>, whose first write
  (\<open>db.entries.put\<close>) is issued before \<open>onRemove(toast.id)\<close> and whose remaining steps run
  after it; the model removes the toast, then runs the action.
\<close>

definition clickToastAction :: "('a \<Rightarrow> ('v, 'a) view_cfg \<Rightarrow> ('v, 'a) view_cfg) \<Rightarrow> nat
                                \<Rightarrow> ('v, 'a) view_cfg \<Rightarrow> ('v, 'a) view_cfg" where
  "clickToastAction run k c =
     (if k < length (toasts c) then
        (case toast_action (toasts c ! k) of
           None \<Rightarrow> c
         | Some a \<Rightarrow> run a (c\<lparr>toasts := removeToast (toast_id (toasts c ! k)) (toasts c)\<rparr>))
      else c)"

section \<open>Re-running load effects\<close>

text \<open>
  Runs of an effect with dependencies \<open>deps\<close>: run \<open>n\<close> fails when \<open>fails n\<close> (the
  database's answer), a failed run applies its catch block \<open>err\<close> and a successful run
  applies \<open>load\<close>; the effect runs again exactly when the run changed its dependencies.
\<close>

partial_function (option) effect_loop :: "(nat \<Rightarrow> bool) \<Rightarrow> nat \<Rightarrow> ('c \<Rightarrow> 'd) \<Rightarrow> ('c \<Rightarrow> 'c)
                                           \<Rightarrow> ('c \<Rightarrow> 'c) \<Rightarrow> 'c \<Rightarrow> 'c option" where
  "effect_loop fails n deps load err c =
     (let c' = (if fails n then err c else load c)
      in if deps c' = deps c then Some c' else effect_loop fails (Suc n) deps load err c')"

section \<open>Handlers shared by both screens\<close>

text \<open>\<open>Math.floor((Date.now() - createdAt.getTime()) / (1000 * 60 * 60))\<close>.\<close>

definition hours_ago :: "ms \<Rightarrow> ms \<Rightarrow> int" where
  "hours_ago now t = (now - t) div (1000 * 60 * 60)"

text \<open>
  \<open>handleEdit\<close> (the same code in both screens): an error toast when the entry is older
  than 24 hours, otherwise \<open>setCurrentView('journal')\<close>; the entry is not passed on.
\<close>

definition handleEdit :: "ms \<Rightarrow> entry \<Rightarrow> ('v, 'a) view_cfg \<Rightarrow> ('v, 'a) view_cfg" where
  "handleEdit now e c =
     (if \<not> canEditEntry now e then
        c\<lparr>toasts := addToast now Toast_error ''Cannot edit entry''
            (''Entries can only be edited within 24 hours. This entry was created ''
             @ dec_int (hours_ago now (created_at e)) @ '' hours ago.'') None (toasts c)\<rparr>
      else (case app_set (SetCurrentView V_journal) (app c, db c) of (a, st) \<Rightarrow> c\<lparr>app := a, db := st\<rparr>))"

text \<open>\<open>getExcerpt\<close>: the text, or its first \<open>maxLength\<close> characters trimmed, with an ellipsis.\<close>

definition getExcerpt :: "string \<Rightarrow> nat \<Rightarrow> string" where
  "getExcerpt text maxLength =
     (if length text \<le> maxLength then text else js_trim (take maxLength text) @ ''...'')"

section \<open>Last 7 days\<close>

record recent_view =
  rv_entries :: "entry list"
  rv_isLoading :: bool

type_synonym recent_cfg = "(recent_view, entry) view_cfg"

text \<open>\<open>loadRecentEntries\<close>: \<open>dbUtils.getRecentEntries(7)\<close>, or the error toast.\<close>

definition loadRecentEntries :: "day \<Rightarrow> recent_cfg \<Rightarrow> recent_cfg" where
  "loadRecentEntries today c =
     c\<lparr>scr := \<lparr>rv_entries = getRecentEntries 7 today (db c), rv_isLoading = False\<rparr>\<rparr>"

definition recent_load_failed :: "ms \<Rightarrow> recent_cfg \<Rightarrow> recent_cfg" where
  "recent_load_failed now c =
     c\<lparr>scr := (scr c)\<lparr>rv_isLoading := False\<rparr>,
       toasts := addToast now Toast_error ''Failed to load entries''
                   ''There was an error loading your recent entries.'' None (toasts c)\<rparr>"

definition recentEffect :: "(nat \<Rightarrow> bool) \<Rightarrow> ms \<Rightarrow> day \<Rightarrow> recent_cfg \<Rightarrow> recent_cfg option" where
  "recentEffect fails now today c = effect_loop fails 0 toasts (loadRecentEntries today) (recent_load_failed now) c"

text \<open>\<open>handleDelete\<close> after \<open>confirm\<close>: delete, drop the entry from the list, the undo toast.\<close>

definition handleDelete_recent :: "ms \<Rightarrow> bool \<Rightarrow> entry \<Rightarrow> recent_cfg \<Rightarrow> recent_cfg" where
  "handleDelete_recent now confirmed e c =
     (if \<not> confirmed then c
      else c\<lparr>db := delete_entry (entry_id e) (db c),
             scr := (scr c)\<lparr>rv_entries := filter (\<lambda>x. entry_id x \<noteq> entry_id e) (rv_entries (scr c))\<rparr>,
             toasts := addToast now Toast_success ''Entry deleted'' ''Click to undo within 5 seconds''
                         (Some e) (toasts c)\<rparr>)"

text \<open>
  The undo action: put the entry back, insert it into the list sorted by \<open>created_at\<close>,
  newest first (\<open>Array.prototype.sort\<close> is stable), and the info toast.
\<close>

definition undoRecent :: "ms \<Rightarrow> entry \<Rightarrow> recent_cfg \<Rightarrow> recent_cfg" where
  "undoRecent now e c =
     c\<lparr>db := put_entry e (db c),
       scr := (scr c)\<lparr>rv_entries := sort_key (\<lambda>x. - created_at x) (rv_entries (scr c) @ [e])\<rparr>,
       toasts := addToast now Toast_info ''Entry restored'' ''Your entry has been restored.'' None (toasts c)\<rparr>"

text \<open>
  \<open>getHoursAgo\<close>: hours below a day, then days.  \<open>getTimeAgo\<close> of the other screen goes on
  to weeks, months of 30 days and years of 365 days.
\<close>

definition getHoursAgo :: "ms \<Rightarrow> ms \<Rightarrow> string" where
  "getHoursAgo now createdAt =
     (let h = hours_ago now createdAt in
      if h < 1 then ''Less than 1 hour ago''
      else if h = 1 then ''1 hour ago''
      else if h < 24 then dec_int h @ '' hours ago''
      else (let d = h div 24 in if d = 1 then ''1 day ago'' else dec_int d @ '' days ago''))"

definition getTimeAgo :: "ms \<Rightarrow> ms \<Rightarrow> string" where
  "getTimeAgo now createdAt =
     (let h = hours_ago now createdAt in
      if h < 1 then ''Less than 1 hour ago''
      else if h = 1 then ''1 hour ago''
      else if h < 24 then dec_int h @ '' hours ago''
      else (let d = h div 24 in
            if d = 1 then ''1 day ago''
            else if d < 7 then dec_int d @ '' days ago''
            else (let w = d div 7 in
                  if w = 1 then ''1 week ago''
                  else if w < 4 then dec_int w @ '' weeks ago''
                  else (let mo = d div 30 in
                        if mo = 1 then ''1 month ago''
                        else if mo < 12 then dec_int mo @ '' months ago''
                        else (let y = d div 365 in
                              if y = 1 then ''1 year ago'' else dec_int y @ '' years ago'')))))"

text \<open>
  The events of a screen: a button of the \<open>k\<close>-th listed entry (edit, delete after the
  confirmation answer), the action button of the \<open>k\<close>-th toast, the removal of the toasts
  with an id (the close button, or the timer \<open>addToast\<close> started), a page button.
\<close>

datatype view_event =
  Ev_edit nat | Ev_delete bool nat | Ev_click nat | Ev_remove string | Ev_page int

text \<open>
  One event of the Last 7 days screen and the load runs it triggers: every handler that
  sets the toast list triggers them; a successful edit leaves the screen.
\<close>

fun recent_step :: "(nat \<Rightarrow> bool) \<Rightarrow> ms \<Rightarrow> day \<Rightarrow> view_event \<Rightarrow> recent_cfg \<Rightarrow> recent_cfg option" where
  "recent_step fails now today (Ev_edit k) c =
     (if k < length (rv_entries (scr c)) then
        (let e = rv_entries (scr c) ! k in
         if canEditEntry now e then Some (handleEdit now e c)
         else recentEffect fails now today (handleEdit now e c))
      else Some c)"
| "recent_step fails now today (Ev_delete b k) c =
     (if k < length (rv_entries (scr c)) \<and> b
      then recentEffect fails now today (handleDelete_recent now b (rv_entries (scr c) ! k) c)
      else Some c)"
| "recent_step fails now today (Ev_click k) c =
     (if k < length (toasts c) \<and> toast_action (toasts c ! k) \<noteq> None
      then recentEffect fails now today (clickToastAction (undoRecent now) k c)
      else Some c)"
| "recent_step fails now today (Ev_remove i) c =
     recentEffect fails now today (c\<lparr>toasts := removeToast i (toasts c)\<rparr>)"
| "recent_step fails now today (Ev_page p) c = Some c"

section \<open>All entries, paginated\<close>

definition PAGE_SIZE :: int where
  "PAGE_SIZE = 20"

text \<open>\<open>Math.ceil(a / b)\<close> for a positive \<open>b\<close>.\<close>

definition js_ceil_div :: "int \<Rightarrow> int \<Rightarrow> int" where
  "js_ceil_div a b = - ((- a) div b)"

text \<open>
  \<open>db.entries.orderBy('created_at').reverse()\<close>: the \<open>created_at\<close> index (ties by primary
  key, as in \<open>entries_by_created\<close>) read backwards.  A page is that list after
  \<open>offset((page - 1) * PAGE_SIZE)\<close>, up to \<open>limit(PAGE_SIZE)\<close>.
\<close>

definition entries_desc :: "store \<Rightarrow> entry list" where
  "entries_desc st = rev (map snd (entries_by_created (db_entries st)))"

definition page_slice :: "int \<Rightarrow> store \<Rightarrow> entry list" where
  "page_slice p st = take (nat PAGE_SIZE) (drop (nat ((p - 1) * PAGE_SIZE)) (entries_desc st))"

record entries_view =
  av_entries :: "entry list"
  av_isLoading :: bool
  currentPage :: int
  totalEntries :: int
  totalPages :: int

text \<open>The data an undo toast captures: the entry, \<open>newTotal\<close> and \<open>currentPage\<close>.\<close>

type_synonym all_cfg = "(entries_view, entry \<times> int \<times> int) view_cfg"

text \<open>\<open>loadEntries\<close>: the count, the number of pages and the current page.\<close>

definition loadEntries :: "all_cfg \<Rightarrow> all_cfg" where
  "loadEntries c =
     (let total = int (tbl_count (db_entries (db c))) in
      c\<lparr>scr := (scr c)\<lparr>totalEntries := total, totalPages := js_ceil_div total PAGE_SIZE,
                        av_entries := page_slice (currentPage (scr c)) (db c), av_isLoading := False\<rparr>\<rparr>)"

definition entries_load_failed :: "ms \<Rightarrow> all_cfg \<Rightarrow> all_cfg" where
  "entries_load_failed now c =
     c\<lparr>scr := (scr c)\<lparr>av_isLoading := False\<rparr>,
       toasts := addToast now Toast_error ''Failed to load entries''
                   ''There was an error loading your entries.'' None (toasts c)\<rparr>"

text \<open>The dependencies \<open>[currentPage, addToast]\<close> of the load effect.\<close>

definition all_deps :: "all_cfg \<Rightarrow> int \<times> (entry \<times> int \<times> int) toast_item list" where
  "all_deps c = (currentPage (scr c), toasts c)"

definition allEffect :: "(nat \<Rightarrow> bool) \<Rightarrow> ms \<Rightarrow> all_cfg \<Rightarrow> all_cfg option" where
  "allEffect fails now c = effect_loop fails 0 all_deps loadEntries (entries_load_failed now) c"

text \<open>
  \<open>handleDelete\<close> after \<open>confirm\<close>: delete, recompute the totals from \<open>totalEntries\<close>, go
  back a page when the entry was the only one of a page after the first, otherwise drop
  it from the list, and the undo toast.
\<close>

definition handleDelete_all :: "ms \<Rightarrow> bool \<Rightarrow> entry \<Rightarrow> all_cfg \<Rightarrow> all_cfg" where
  "handleDelete_all now confirmed e c =
     (if \<not> confirmed then c
      else (let v = scr c; newTotal = totalEntries v - 1;
                v1 = v\<lparr>totalEntries := newTotal, totalPages := js_ceil_div newTotal PAGE_SIZE\<rparr>;
                v2 = (if length (av_entries v) = 1 \<and> currentPage v > 1
                      then v1\<lparr>currentPage := currentPage v - 1\<rparr>
                      else v1\<lparr>av_entries := filter (\<lambda>x. entry_id x \<noteq> entry_id e) (av_entries v)\<rparr>)
            in c\<lparr>db := delete_entry (entry_id e) (db c), scr := v2,
                 toasts := addToast now Toast_success ''Entry deleted'' ''Click to undo within 5 seconds''
                             (Some (e, newTotal, currentPage v)) (toasts c)\<rparr>))"

text \<open>
  The undo action: put the entry back, the totals from the captured \<open>newTotal\<close>, the page
  of the captured \<open>currentPage\<close>, and the info toast.
\<close>

definition undoPage :: "ms \<Rightarrow> entry \<times> int \<times> int \<Rightarrow> all_cfg \<Rightarrow> all_cfg" where
  "undoPage now u c =
     (case u of (e, newTotal, page) \<Rightarrow>
        (let st = put_entry e (db c) in
         c\<lparr>db := st,
           scr := (scr c)\<lparr>totalEntries := newTotal + 1, totalPages := js_ceil_div (newTotal + 1) PAGE_SIZE,
                            av_entries := page_slice page st\<rparr>,
           toasts := addToast now Toast_info ''Entry restored'' ''Your entry has been restored.'' None (toasts c)\<rparr>))"

definition handlePageChange :: "int \<Rightarrow> all_cfg \<Rightarrow> all_cfg" where
  "handlePageChange newPage c =
     (if 1 \<le> newPage \<and> newPage \<le> totalPages (scr c) then c\<lparr>scr := (scr c)\<lparr>currentPage := newPage\<rparr>\<rparr> else c)"

text \<open>
  One event of the paginated screen and the load runs it triggers: those of the toast
  list, and a change of \<open>currentPage\<close> (React skips an update to the same value).
\<close>

fun all_step :: "(nat \<Rightarrow> bool) \<Rightarrow> ms \<Rightarrow> view_event \<Rightarrow> all_cfg \<Rightarrow> all_cfg option" where
  "all_step fails now (Ev_edit k) c =
     (if k < length (av_entries (scr c)) then
        (let e = av_entries (scr c) ! k in
         if canEditEntry now e then Some (handleEdit now e c)
         else allEffect fails now (handleEdit now e c))
      else Some c)"
| "all_step fails now (Ev_delete b k) c =
     (if k < length (av_entries (scr c)) \<and> b
      then allEffect fails now (handleDelete_all now b (av_entries (scr c) ! k) c)
      else Some c)"
| "all_step fails now (Ev_click k) c =
     (if k < length (toasts c) \<and> toast_action (toasts c ! k) \<noteq> None
      then allEffect fails now (clickToastAction (undoPage now) k c)
      else Some c)"
| "all_step fails now (Ev_remove i) c =
     allEffect fails now (c\<lparr>toasts := removeToast i (toasts c)\<rparr>)"
| "all_step fails now (Ev_page p) c =
     (let c' = handlePageChange p c in
      if currentPage (scr c') \<noteq> currentPage (scr c) then allEffect fails now c' else Some c')"

text \<open>
  The page buttons: all pages up to 7, otherwise the first page and an ellipsis, a window
  of five pages around the current one, an ellipsis and the last page, each shown when
  the window does not reach it.  Nothing is shown for a single page.
\<close>

datatype pager_item = Pg_button int | Pg_ellipsis

definition pager :: "int \<Rightarrow> int \<Rightarrow> pager_item list" where
  "pager cur tp =
     (if tp \<le> 1 then []
      else if tp \<le> 7 then map Pg_button [1..tp]
      else (if cur > 3 then Pg_button 1 # (if cur > 4 then [Pg_ellipsis] else []) else [])
           @ (let start = max 1 (min (tp - 4) (cur - 2))
              in map Pg_button (filter (\<lambda>p. p \<le> tp) [start..start + min 5 tp - 1]))
           @ (if cur < tp - 2 then (if cur < tp - 3 then [Pg_ellipsis] else []) @ [Pg_button tp]
              else []))"

definition pager_pages :: "pager_item list \<Rightarrow> int list" where
  "pager_pages xs = [p. Pg_button p \<leftarrow> xs]"

section \<open>Well-formedness of the screens\<close>

text \<open>
  The paginated screen is well formed when the page lies between 1 and the last page (or
  is 1 for an empty table) and the totals and the listed entries are those of the store;
  the page bound and the schema invariant are what a handler has to keep for the next
  load to restore the rest.  The Last 7 days screen is well formed when it lists the
  recent entries of the store.
\<close>

definition page_ok :: "all_cfg \<Rightarrow> bool" where
  "page_ok c \<longleftrightarrow> store_ok (db c) \<and> 1 \<le> currentPage (scr c)
     \<and> currentPage (scr c) \<le> max 1 (js_ceil_div (int (tbl_count (db_entries (db c)))) PAGE_SIZE)"

definition av_ok :: "all_cfg \<Rightarrow> bool" where
  "av_ok c \<longleftrightarrow> page_ok c \<and> totalEntries (scr c) = int (tbl_count (db_entries (db c)))
     \<and> totalPages (scr c) = js_ceil_div (totalEntries (scr c)) PAGE_SIZE
     \<and> av_entries (scr c) = page_slice (currentPage (scr c)) (db c)"


definition recent_ok :: "day \<Rightarrow> recent_cfg \<Rightarrow> bool" where
  "recent_ok today c \<longleftrightarrow> store_ok (db c) \<and> rv_entries (scr c) = getRecentEntries 7 today (db c)"

subsection \<open>Fixtures\<close>

definition mk_entry :: "string \<Rightarrow> day \<Rightarrow> ms \<Rightarrow> entry" where
  "mk_entry i d t = \<lparr>entry_id = i, dateLocal = d, prompt_id = ''seed-1'', setback = ''s'',
     protective_step = ''p'', gratitude = ''g'', created_at = t, edited_at = None, duration_seconds = None\<rparr>"

definition views_store :: store where
  "views_store = empty_store\<lparr>db_entries := [(''a'', mk_entry ''a'' 1 100), (''b'', mk_entry ''b'' 2 200),
                                          (''c'', mk_entry ''c'' 3 300)]\<rparr>"

definition all_cfg0 :: all_cfg where
  "all_cfg0 = loadEntries \<lparr>scr = \<lparr>av_entries = [], av_isLoading = True, currentPage = 1, totalEntries = 0,
                                   totalPages = 0\<rparr>,
                            app = initial_app_state\<lparr>isFirstLaunch := False, currentView := V_all\<rparr>,
                            toasts = [], db = views_store\<rparr>"

definition recent_cfg0 :: recent_cfg where
  "recent_cfg0 = loadRecentEntries 3 \<lparr>scr = \<lparr>rv_entries = [], rv_isLoading = True\<rparr>,
                   app = initial_app_state\<lparr>isFirstLaunch := False, currentView := V_last7days\<rparr>,
                   toasts = [], db = views_store\<rparr>"

section \<open>Lemmas\<close>

subsection \<open>Runs of a load effect\<close>

text \<open>The load leaves the dependencies alone and the catch block changes them.\<close>

definition deps_ok :: "('c \<Rightarrow> 'd) \<Rightarrow> ('c \<Rightarrow> 'c) \<Rightarrow> ('c \<Rightarrow> 'c) \<Rightarrow> bool" where
  "deps_ok deps load err \<longleftrightarrow> (\<forall>x. deps (load x) = deps x) \<and> (\<forall>x. deps (err x) \<noteq> deps x)"

lemma effect_loop_step:
  "deps_ok deps load err \<Longrightarrow> effect_loop fails n deps load err c =
     (if fails n then effect_loop fails (Suc n) deps load err (err c) else Some (load c))"
  by (subst effect_loop.simps) (simp add: deps_ok_def Let_def)

lemma effect_loop_SomeD:
  assumes h: "effect_loop fails n deps load err c = Some y" and ok: "deps_ok deps load err"
  shows "(\<exists>m\<ge>n. \<not> fails m \<and> (\<forall>i. n \<le> i \<and> i < m \<longrightarrow> fails i) \<and> y = load ((err ^^ (m - n)) c))"
proof -
  have "deps_ok deps load err \<longrightarrow> (\<exists>m\<ge>n. \<not> fails m \<and> (\<forall>i. n \<le> i \<and> i < m \<longrightarrow> fails i) \<and> y = load ((err ^^ (m - n)) c))"
  proof (rule effect_loop.raw_induct [where P = "\<lambda>fails n deps load err c y.
         deps_ok deps load err \<longrightarrow> (\<exists>m\<ge>n. \<not> fails m \<and> (\<forall>i. n \<le> i \<and> i < m \<longrightarrow> fails i) \<and> y = load ((err ^^ (m - n)) c))", OF _ h])
    fix loop fails n deps load err c y
    assume ih: "\<And>fails n deps load err c y. loop fails n deps load err c = Some y \<Longrightarrow>
         deps_ok deps load err \<longrightarrow> (\<exists>m\<ge>n. \<not> fails m \<and> (\<forall>i. n \<le> i \<and> i < m \<longrightarrow> fails i) \<and> y = load ((err ^^ (m - n)) c))"
      and b: "(let c' = (if fails n then err c else load c)
               in if deps c' = deps c then Some c' else loop fails (Suc n) deps load err c') = Some y"
    show "deps_ok deps load err \<longrightarrow> (\<exists>m\<ge>n. \<not> fails m \<and> (\<forall>i. n \<le> i \<and> i < m \<longrightarrow> fails i) \<and> y = load ((err ^^ (m - n)) c))"
    proof
      assume ok: "deps_ok deps load err"
      show "(\<exists>m\<ge>n. \<not> fails m \<and> (\<forall>i. n \<le> i \<and> i < m \<longrightarrow> fails i) \<and> y = load ((err ^^ (m - n)) c))"
      proof (cases "fails n")
        case True
        then have "loop fails (Suc n) deps load err (err c) = Some y"
          using b ok by (simp add: deps_ok_def Let_def)
        then obtain m where m: "Suc n \<le> m" "\<not> fails m" "\<forall>i. Suc n \<le> i \<and> i < m \<longrightarrow> fails i"
            "y = load ((err ^^ (m - Suc n)) (err c))"
          using ih ok by blast
        have "(err ^^ (m - Suc n)) (err c) = (err ^^ (m - n)) c"
          using m(1) by (metis Suc_diff_Suc Suc_le_lessD funpow_simps_right(2) o_apply)
        moreover have "\<forall>i. n \<le> i \<and> i < m \<longrightarrow> fails i"
          using m(3) True by (metis Suc_leI le_neq_implies_less)
        ultimately show ?thesis using m by (metis Suc_leD)
      next
        case False
        then show ?thesis using b ok by (auto simp: deps_ok_def Let_def)
      qed
    qed
  qed
  then show ?thesis using ok by blast
qed

text \<open>A result of the runs is a successful load after some failed ones.\<close>

lemma effect_loop_result:
  assumes "effect_loop fails n deps load err c = Some y" "deps_ok deps load err"
  shows "\<exists>k. y = load ((err ^^ k) c)"
proof -
  obtain m where "y = load ((err ^^ (m - n)) c)" using effect_loop_SomeD [OF assms] by blast
  then show ?thesis by (rule exI)
qed

lemma effect_loop_settles:
  "deps_ok deps load err \<Longrightarrow> \<not> fails (n + d) \<Longrightarrow> \<exists>y. effect_loop fails n deps load err c = Some y"
proof (induction d arbitrary: n c)
  case 0
  then show ?case by (simp add: effect_loop_step)
next
  case (Suc d)
  show ?case
  proof (cases "fails n")
    case True
    have "\<not> fails (Suc n + d)" using Suc.prems by simp
    from Suc.IH [OF Suc.prems(1) this] True Suc.prems(1) show ?thesis by (simp add: effect_loop_step)
  next
    case False then show ?thesis using Suc.prems(1) by (simp add: effect_loop_step)
  qed
qed

lemma effect_loop_terminates_iff:
  assumes ok: "deps_ok deps load err"
  shows "(\<exists>y. effect_loop fails n deps load err c = Some y) \<longleftrightarrow> (\<exists>m\<ge>n. \<not> fails m)"
proof
  assume "\<exists>y. effect_loop fails n deps load err c = Some y"
  then obtain y where "effect_loop fails n deps load err c = Some y" by blast
  from effect_loop_SomeD [OF this ok] obtain m where "n \<le> m" "\<not> fails m" by blast
  then show "\<exists>m\<ge>n. \<not> fails m" by blast
next
  assume "\<exists>m\<ge>n. \<not> fails m"
  then obtain m where "n \<le> m" "\<not> fails m" by blast
  then have "\<not> fails (n + (m - n))" by simp
  then show "\<exists>y. effect_loop fails n deps load err c = Some y" by (rule effect_loop_settles [OF ok])
qed

lemma effect_loop_first: "deps_ok deps load err \<Longrightarrow> \<not> fails n \<Longrightarrow> effect_loop fails n deps load err c = Some (load c)"
  by (simp add: effect_loop_step)

text \<open>
  Both loads keep their effect's dependencies, and both catch blocks add a toast, which
  changes them: this is what makes a failing load run again.
\<close>

lemma addToast_changes: "addToast now k ti d act ts \<noteq> ts"
  by (simp add: addToast_def)

lemma all_deps_ok: "deps_ok all_deps loadEntries (entries_load_failed now)"
  by (simp add: deps_ok_def all_deps_def loadEntries_def entries_load_failed_def Let_def addToast_changes)

lemma recent_deps_ok: "deps_ok toasts (loadRecentEntries today) (recent_load_failed now)"
  by (simp add: deps_ok_def loadRecentEntries_def recent_load_failed_def addToast_changes)

subsection \<open>Pagination\<close>

lemma js_ceil_div_ge_iff: "0 < b \<Longrightarrow> p \<le> js_ceil_div a b \<longleftrightarrow> (p - 1) * b < a"
proof -
  assume b: "0 < b"
  have "p \<le> - ((- a) div b) \<longleftrightarrow> (- a) div b < 1 - p" by linarith
  also have "\<dots> \<longleftrightarrow> - a < (1 - p) * b" using b by (rule zdiv_less_iff)
  also have "\<dots> \<longleftrightarrow> (p - 1) * b < a" by (simp add: algebra_simps)
  finally show ?thesis by (simp add: js_ceil_div_def)
qed

lemma js_ceil_div_mono: "0 < b \<Longrightarrow> a \<le> a' \<Longrightarrow> js_ceil_div a b \<le> js_ceil_div a' b"
  by (simp add: js_ceil_div_def zdiv_mono1)

lemma take_concat_pages:
  "0 < n \<Longrightarrow> concat (map (\<lambda>i. take n (drop (i * n) xs)) [0..<m]) = take (m * n) xs"
proof (induction m)
  case 0 then show ?case by simp
next
  case (Suc m)
  have "concat (map (\<lambda>i. take n (drop (i * n) xs)) [0..<Suc m]) = take (m * n) xs @ take n (drop (m * n) xs)"
    using Suc by simp
  also have "\<dots> = take (m * n + n) xs" by (simp only: take_add)
  finally show ?case by (simp add: add.commute)
qed

lemma upto_from_one: "[1..int m] = map (\<lambda>i. int i + 1) [0..<m]"
proof (induction m)
  case 0 then show ?case by simp
next
  case (Suc m)
  have "[1..int m + 1] = [1..int m] @ [int m + 1]"
    using upto_rec2 [of 1 "int m + 1"] by simp
  then show ?case using Suc by (simp add: add.commute [of 1 "int m"])
qed

lemma length_entries_desc: "length (entries_desc st) = tbl_count (db_entries st)"
  by (simp add: entries_desc_def entries_by_created_def tbl_count_def)

lemma pages_cover_entries:
  "concat (map (\<lambda>p. page_slice p st) [1..js_ceil_div (int (tbl_count (db_entries st))) PAGE_SIZE])
     = entries_desc st"
proof -
  define N where "N = tbl_count (db_entries st)"
  define T where "T = js_ceil_div (int N) PAGE_SIZE"
  have T0: "0 \<le> T" using js_ceil_div_ge_iff [of PAGE_SIZE 0 "int N"] by (simp add: T_def PAGE_SIZE_def)
  have TN: "int N \<le> T * 20"
    using js_ceil_div_ge_iff [of PAGE_SIZE "T + 1" "int N"] by (simp add: T_def PAGE_SIZE_def)
  define m where "m = nat T"
  have Tm: "T = int m" using T0 by (simp add: m_def)
  have "concat (map (\<lambda>p. page_slice p st) [1..int m])
        = concat (map (\<lambda>i. take 20 (drop (i * 20) (entries_desc st))) [0..<m])"
  proof -
    have "\<And>i. nat ((int i + 1) * 20 - 20) = i * 20" by simp
    then show ?thesis by (simp add: upto_from_one page_slice_def PAGE_SIZE_def comp_def)
  qed
  also have "\<dots> = take (m * 20) (entries_desc st)" by (rule take_concat_pages) simp
  also have "\<dots> = entries_desc st" using TN Tm by (simp add: length_entries_desc N_def [symmetric])
  finally show ?thesis by (simp add: N_def [symmetric] T_def [symmetric] Tm)
qed

lemma entries_desc_mset: "mset (entries_desc st) = mset (map snd (db_entries st))"
  by (simp add: entries_desc_def entries_by_created_def mset_map)

lemma entries_desc_sorted: "sorted_wrt (\<lambda>a b. created_at b \<le> created_at a) (entries_desc st)"
proof -
  have "sorted (map (\<lambda>(k, e). (created_at e, k)) (entries_by_created (db_entries st)))"
    by (simp add: entries_by_created_def)
  then have "sorted (map (\<lambda>x. fst ((\<lambda>(k, e). (created_at e, k)) x)) (entries_by_created (db_entries st)))"
    by (rule sorted_map_fst_lex)
  then have "sorted (map created_at (map snd (entries_by_created (db_entries st))))"
    by (simp add: comp_def case_prod_beta)
  then have "sorted_wrt (\<lambda>a b. created_at a \<le> created_at b) (map snd (entries_by_created (db_entries st)))"
    by (simp only: sorted_map)
  then show ?thesis by (simp add: entries_desc_def sorted_wrt_rev)
qed

lemma length_page_slice:
  "length (page_slice p st) = min 20 (tbl_count (db_entries st) - nat ((p - 1) * 20))"
  by (simp add: page_slice_def PAGE_SIZE_def length_entries_desc)

lemma page_slice_stored:
  assumes "store_ok st" "e \<in> set (page_slice p st)"
  shows "entry_id e \<in> fst ` set (db_entries st)"
proof -
  have "e \<in> set (entries_desc st)" using assms(2) by (auto simp: page_slice_def dest: in_set_takeD in_set_dropD)
  then obtain k where "(k, e) \<in> set (db_entries st)"
    by (auto simp: entries_desc_def entries_by_created_def)
  moreover have "tbl_keyed entry_id (db_entries st)" using assms(1) by (simp add: store_ok_def)
  ultimately show ?thesis by (force simp: tbl_keyed_def)
qed

subsection \<open>Handlers of the paginated screen\<close>

lemma loadEntries_av_ok: "page_ok c \<Longrightarrow> av_ok (loadEntries c)"
  by (simp add: loadEntries_def av_ok_def page_ok_def Let_def)

lemma entries_load_failed_iter:
  "db ((entries_load_failed t ^^ k) c) = db c
   \<and> currentPage (scr ((entries_load_failed t ^^ k) c)) = currentPage (scr c)"
  by (induction k) (simp_all add: entries_load_failed_def)

lemma allEffect_av_ok: "page_ok c \<Longrightarrow> allEffect fails now c = Some c' \<Longrightarrow> av_ok c'"
proof -
  assume p: "page_ok c" and e: "allEffect fails now c = Some c'"
  obtain k where c': "c' = loadEntries ((entries_load_failed now ^^ k) c)"
    using effect_loop_result [OF _ all_deps_ok] e by (metis allEffect_def)
  have "page_ok ((entries_load_failed now ^^ k) c)"
    using p entries_load_failed_iter [where t = now and k = k and c = c] by (simp add: page_ok_def)
  then show ?thesis using c' loadEntries_av_ok by simp
qed

lemma page_bound_iff:
  "1 < p \<Longrightarrow> p \<le> max 1 (js_ceil_div n PAGE_SIZE) \<longleftrightarrow> (p - 1) * 20 < n"
  using js_ceil_div_ge_iff [of PAGE_SIZE p n] by (auto simp: PAGE_SIZE_def)

lemma handleEdit_allowed:
  "canEditEntry now e \<Longrightarrow>
     handleEdit now e c = c\<lparr>app := fst (app_set (SetCurrentView V_journal) (app c, db c)),
                            db := snd (app_set (SetCurrentView V_journal) (app c, db c))\<rparr>"
  by (simp add: handleEdit_def prod.case_eq_if del: app_set_fst)

lemma handleEdit_av_ok: "av_ok c \<Longrightarrow> canEditEntry now e \<Longrightarrow> av_ok (handleEdit now e c)"
  by (simp add: handleEdit_allowed av_ok_def page_ok_def page_slice_def entries_desc_def table_simps)

lemma handleEdit_page_ok: "page_ok c \<Longrightarrow> page_ok (handleEdit now e c)"
  by (simp add: handleEdit_def page_ok_def table_simps prod.case_eq_if del: app_set_fst)

lemma av_ok_page_ok: "av_ok c \<Longrightarrow> page_ok c"
  by (simp add: av_ok_def)

lemma handleDelete_all_page_ok:
  assumes ok: "av_ok c" and e: "e \<in> set (av_entries (scr c))"
  shows "page_ok (handleDelete_all now True e c)"
proof -
  define p where "p = currentPage (scr c)"
  define N where "N = tbl_count (db_entries (db c))"
  have st: "store_ok (db c)" and p1: "1 \<le> p" and pb: "p \<le> max 1 (js_ceil_div (int N) PAGE_SIZE)"
    and sl: "av_entries (scr c) = page_slice p (db c)"
    using ok by (simp_all add: av_ok_def page_ok_def p_def N_def)
  have key: "entry_id e \<in> fst ` set (db_entries (db c))"
    using page_slice_stored [OF st] e sl by simp
  have "tbl_ok (db_entries (db c))" using st by (simp add: store_ok_def)
  then have cnt: "tbl_count (db_entries (delete_entry (entry_id e) (db c))) = N - 1"
    using tbl_count_delete key by (simp add: delete_entry_def N_def)
  have L: "length (av_entries (scr c)) = min 20 (N - nat ((p - 1) * 20))"
    using sl length_page_slice by (simp add: N_def)
  have L1: "1 \<le> length (av_entries (scr c))" using e by (cases "av_entries (scr c)") auto
  have st': "store_ok (delete_entry (entry_id e) (db c))" using st by (rule store_ok_delete_entry)
  show ?thesis
  proof (cases "length (av_entries (scr c)) = 1 \<and> p > 1")
    case True
    then have "N = nat ((p - 1) * 20) + 1" using L by linarith
    then have "p - 1 \<le> max 1 (js_ceil_div (int (N - 1)) PAGE_SIZE)"
      using page_bound_iff [of "p - 1" "int (N - 1)"] True by (cases "p - 1 > 1") auto
    then show ?thesis using True st' cnt p1
      by (simp add: handleDelete_all_def page_ok_def Let_def p_def)
  next
    case False
    have "p \<le> max 1 (js_ceil_div (int (N - 1)) PAGE_SIZE)"
    proof (cases "p > 1")
      case True
      then have "2 \<le> length (av_entries (scr c))" using False L1 by linarith
      then have "(p - 1) * 20 < int (N - 1)" using L True by linarith
      then show ?thesis using page_bound_iff True by blast
    next
      case False then show ?thesis using p1 by simp
    qed
    then show ?thesis using False st' cnt p1
      by (simp add: handleDelete_all_def page_ok_def Let_def p_def)
  qed
qed

lemma undoPage_page_ok: "page_ok c \<Longrightarrow> page_ok (undoPage now u c)"
proof -
  assume ok: "page_ok c"
  obtain e n q where u: "u = (e, n, q)" by (cases u)
  have "tbl_count (db_entries (db c)) \<le> tbl_count (db_entries (put_entry e (db c)))"
    by (simp add: put_entry_def tbl_count_put_ge)
  then have "js_ceil_div (int (tbl_count (db_entries (db c)))) PAGE_SIZE
               \<le> js_ceil_div (int (tbl_count (db_entries (put_entry e (db c))))) PAGE_SIZE"
    by (simp add: js_ceil_div_mono PAGE_SIZE_def)
  then show ?thesis using ok
    by (auto simp: undoPage_def page_ok_def u Let_def store_ok_put_entry)
qed

lemma clickToastAction_page_ok:
  assumes "\<And>a c. page_ok c \<Longrightarrow> page_ok (run a c)"
  shows "page_ok c \<Longrightarrow> page_ok (clickToastAction run k c)"
  using assms by (auto simp: clickToastAction_def page_ok_def split: option.split)

lemma remove_page_ok: "page_ok (c\<lparr>toasts := ts\<rparr>) = page_ok c"
  by (simp add: page_ok_def)

lemma handlePageChange_page_ok:
  "av_ok c \<Longrightarrow> page_ok (handlePageChange q c)"
  by (auto simp: handlePageChange_def av_ok_def page_ok_def)

subsection \<open>The Last 7 days screen\<close>

lemma recent_load_failed_iter: "db ((recent_load_failed t ^^ k) c) = db c"
  by (induction k) (simp_all add: recent_load_failed_def)

lemma recentEffect_ok: "store_ok (db c) \<Longrightarrow> recentEffect fails now today c = Some c' \<Longrightarrow> recent_ok today c'"
proof -
  assume st: "store_ok (db c)" and e: "recentEffect fails now today c = Some c'"
  obtain k where "c' = loadRecentEntries today ((recent_load_failed now ^^ k) c)"
    using effect_loop_result [OF _ recent_deps_ok] e by (metis recentEffect_def)
  then show ?thesis using st recent_load_failed_iter [where t = now and k = k and c = c]
    by (simp add: recent_ok_def loadRecentEntries_def)
qed

lemma undoRecent_store_ok: "store_ok (db c) \<Longrightarrow> store_ok (db (clickToastAction (undoRecent now) k c))"
  by (simp add: clickToastAction_def undoRecent_def store_ok_put_entry split: option.split)

lemma handleEdit_db:
  "store_ok (db (handleEdit now e c)) = store_ok (db c)"
  "db_entries (db (handleEdit now e c)) = db_entries (db c)"
  by (simp_all add: handleEdit_def table_simps prod.case_eq_if del: app_set_fst)

lemma handleEdit_scr: "scr (handleEdit now e c) = scr c"
  by (simp add: handleEdit_def prod.case_eq_if del: app_set_fst)

lemma handleDelete_recent_store_ok:
  "store_ok (db c) \<Longrightarrow> store_ok (db (handleDelete_recent now b e c))"
  by (simp add: handleDelete_recent_def store_ok_delete_entry)

lemma recent_step_ok:
  assumes ok: "recent_ok today c" and s: "recent_step fails now today ev c = Some c'"
  shows "recent_ok today c'"
proof -
  have st: "store_ok (db c)" using ok by (simp add: recent_ok_def)
  show ?thesis
  proof (cases ev)
    case (Ev_edit k)
    show ?thesis
    proof (cases "k < length (rv_entries (scr c))")
      case True
      define e where "e = rv_entries (scr c) ! k"
      show ?thesis
      proof (cases "canEditEntry now e")
        case True
        have "c' = handleEdit now e c" using True Ev_edit \<open>k < _\<close> s by (simp add: e_def [symmetric])
        then show ?thesis using ok by (simp add: recent_ok_def handleEdit_db handleEdit_scr getRecentEntries_def)
      next
        case False
        have "recentEffect fails now today (handleEdit now e c) = Some c'"
          using False Ev_edit \<open>k < _\<close> s by (simp add: e_def [symmetric])
        then show ?thesis using st by (intro recentEffect_ok) (simp_all add: handleEdit_db)
      qed
    next
      case False
      then show ?thesis using Ev_edit s ok by simp
    qed
  next
    case (Ev_delete b k)
    show ?thesis
    proof (cases "k < length (rv_entries (scr c)) \<and> b")
      case True
      then have "recentEffect fails now today (handleDelete_recent now b (rv_entries (scr c) ! k) c) = Some c'"
        using Ev_delete s by simp
      then show ?thesis using handleDelete_recent_store_ok [OF st] by (rule recentEffect_ok [rotated])
    next
      case False
      then show ?thesis using Ev_delete s ok by auto
    qed
  next
    case (Ev_click k)
    show ?thesis
    proof (cases "k < length (toasts c) \<and> toast_action (toasts c ! k) \<noteq> None")
      case True
      then have "recentEffect fails now today (clickToastAction (undoRecent now) k c) = Some c'"
        using Ev_click s by simp
      then show ?thesis using undoRecent_store_ok [OF st] by (rule recentEffect_ok [rotated])
    next
      case False
      then show ?thesis using Ev_click s ok by auto
    qed
  next
    case (Ev_remove i)
    then have "recentEffect fails now today (c\<lparr>toasts := removeToast i (toasts c)\<rparr>) = Some c'" using s by simp
    then show ?thesis using st by (intro recentEffect_ok) simp_all
  next
    case (Ev_page p)
    then show ?thesis using s ok by simp
  qed
qed

text \<open>The edit button opens the journal whichever entry it belongs to.\<close>

lemma handleEdit_ignores_entry:
  "canEditEntry now e \<Longrightarrow> canEditEntry now e' \<Longrightarrow>
     handleEdit now e c = handleEdit now e' c \<and> currentView (app (handleEdit now e c)) = V_journal"
  by (simp add: handleEdit_allowed)

subsection \<open>The page buttons\<close>

lemma pager_pages_append [simp]: "pager_pages (xs @ ys) = pager_pages xs @ pager_pages ys"
  by (simp add: pager_pages_def)

lemma pager_pages_simps [simp]:
  "pager_pages [] = []" "pager_pages (Pg_button p # xs) = p # pager_pages xs"
  "pager_pages (Pg_ellipsis # xs) = pager_pages xs" "pager_pages (map Pg_button ps) = ps"
  by (simp_all add: pager_pages_def) (induction ps; simp)

lemma pager_condensed:
  assumes "7 < tp"
  shows "pager_pages (pager cur tp) =
           (if cur > 3 then [1] else [])
           @ filter (\<lambda>p. p \<le> tp) [max 1 (min (tp - 4) (cur - 2))..max 1 (min (tp - 4) (cur - 2)) + 4]
           @ (if cur < tp - 2 then [tp] else [])"
  using assms by (simp add: pager_def Let_def)

lemma pager_ok:
  assumes c: "1 \<le> cur" "cur \<le> tp" and t: "1 < tp"
  shows "sorted_wrt (<) (pager_pages (pager cur tp))"
    and "set (pager_pages (pager cur tp)) \<subseteq> {1..tp}"
    and "{1, cur, tp} \<subseteq> set (pager_pages (pager cur tp))"
proof -
  have "sorted_wrt (<) (pager_pages (pager cur tp)) \<and> set (pager_pages (pager cur tp)) \<subseteq> {1..tp}
        \<and> {1, cur, tp} \<subseteq> set (pager_pages (pager cur tp))"
  proof (cases "tp \<le> 7")
    case True
    then show ?thesis using c t by (simp add: pager_def)
  next
    case False
    define s where "s = max 1 (min (tp - 4) (cur - 2))"
    have s: "1 \<le> s" "s \<le> cur" "cur \<le> s + 4" "s + 4 \<le> tp" using c False by (auto simp: s_def)
    have W: "filter (\<lambda>p. p \<le> tp) [s..s + 4] = [s..s + 4]" using s by (auto simp: filter_id_conv)
    have P: "pager_pages (pager cur tp) = (if cur > 3 then [1] else []) @ [s..s + 4] @ (if cur < tp - 2 then [tp] else [])"
      using pager_condensed [of tp cur] False W by (simp add: s_def)
    have s1: "cur > 3 \<Longrightarrow> 1 < s" using False by (simp add: s_def)
    have s2: "cur < tp - 2 \<Longrightarrow> s + 4 < tp" using s False by (simp add: s_def)
    have s3: "\<not> cur > 3 \<Longrightarrow> s = 1" using False by (simp add: s_def)
    have s4: "\<not> cur < tp - 2 \<Longrightarrow> s + 4 = tp" using False c by (simp add: s_def)
    show ?thesis
      unfolding P using s s1 s2 s3 s4 by (auto simp: sorted_wrt_append)
  qed
  then show "sorted_wrt (<) (pager_pages (pager cur tp))" "set (pager_pages (pager cur tp)) \<subseteq> {1..tp}"
    "{1, cur, tp} \<subseteq> set (pager_pages (pager cur tp))" by simp_all
qed

section \<open>Properties of the history screens\<close>

text \<open>
  C5. The load effect of each history screen settles exactly when one of its runs
  succeeds.  A failed run's catch block adds an error toast; the new toast list gives
  \<open>ToastProvider\<close> a new \<open>addToast\<close>, a dependency of the effect, so the effect runs
  again.  The runs therefore end at the first successful load, which leaves the
  dependencies unchanged, and go on for ever when every run fails.
\<close>

theorem load_effects_terminate_iff:
  "((\<exists>c'. allEffect fails now c = Some c') \<longleftrightarrow> (\<exists>m. \<not> fails m))
   \<and> ((\<exists>r'. recentEffect fails now today r = Some r') \<longleftrightarrow> (\<exists>m. \<not> fails m))"
  by (simp add: allEffect_def recentEffect_def effect_loop_terminates_iff [OF all_deps_ok]
                effect_loop_terminates_iff [OF recent_deps_ok])

theorem load_effects_terminate_iff_witness:
  "(\<exists>c'. allEffect (\<lambda>n. n < 3) 0 all_cfg0 = Some c') \<and> (\<exists>r'. recentEffect (\<lambda>n. n < 3) 0 3 recent_cfg0 = Some r')"
proof -
  have "\<exists>m. \<not> (m::nat) < 3" by (rule exI [of _ 3]) simp
  then show ?thesis using load_effects_terminate_iff [of "\<lambda>n. n < 3" 0 all_cfg0 3 recent_cfg0] by blast
qed

lemma all_step_edit_av_ok:
  assumes ok: "av_ok c" and s: "all_step fails now (Ev_edit k) c = Some c'"
  shows "av_ok c'"
proof (cases "k < length (av_entries (scr c))")
  case True
  define e where "e = av_entries (scr c) ! k"
  show ?thesis
  proof (cases "canEditEntry now e")
    case True
    have "c' = handleEdit now e c" using True \<open>k < _\<close> s by (simp add: e_def [symmetric])
    then show ?thesis using handleEdit_av_ok [OF ok True] by simp
  next
    case False
    then have "allEffect fails now (handleEdit now e c) = Some c'"
      using \<open>k < _\<close> s by (simp add: e_def [symmetric])
    then show ?thesis using handleEdit_page_ok [OF av_ok_page_ok [OF ok]] by (rule allEffect_av_ok [rotated])
  qed
next
  case False
  then show ?thesis using ok s by simp
qed

lemma all_step_click_page_ok: "av_ok c \<Longrightarrow> page_ok (clickToastAction (undoPage now) k c)"
  using clickToastAction_page_ok [of "undoPage now"] undoPage_page_ok av_ok_page_ok by blast

text \<open>
  C33. Every event of the paginated screen keeps it well formed: whatever handler runs
  (edit, delete with its page step back, undo with its captured page, toast removal,
  page change) and however many failed loads precede the settled one, the page stays
  within the pages of the store and the listed entries, the count and the number of
  pages are those of the store.
\<close>

theorem all_step_av_ok:
  assumes ok: "av_ok c" and s: "all_step fails now ev c = Some c'"
  shows "av_ok c'"
proof (cases ev)
  case (Ev_edit k)
  then show ?thesis using all_step_edit_av_ok [OF ok] s by simp
next
  case (Ev_delete b k)
  then show ?thesis using ok s handleDelete_all_page_ok [OF ok, of "av_entries (scr c) ! k" now]
    by (auto intro: allEffect_av_ok split: if_splits)
next
  case (Ev_click k)
  then show ?thesis using ok s all_step_click_page_ok [OF ok, of now k]
    by (auto intro: allEffect_av_ok split: if_splits)
next
  case (Ev_remove i)
  then have "allEffect fails now (c\<lparr>toasts := removeToast i (toasts c)\<rparr>) = Some c'" using s by simp
  moreover have "page_ok (c\<lparr>toasts := removeToast i (toasts c)\<rparr>)"
    using av_ok_page_ok [OF ok] by (simp add: remove_page_ok)
  ultimately show ?thesis by (rule allEffect_av_ok [rotated])
next
  case (Ev_page q)
  then show ?thesis using ok s handlePageChange_page_ok [OF ok, of q]
    by (auto simp: Let_def handlePageChange_def intro: allEffect_av_ok split: if_splits)
qed

theorem all_step_av_ok_witness:
  "\<exists>c'. all_step (\<lambda>_. False) 0 (Ev_delete True 0) all_cfg0 = Some c' \<and> av_ok c'"
proof -
  have ok: "av_ok all_cfg0"
    unfolding all_cfg0_def
    by (rule loadEntries_av_ok)
       (simp add: page_ok_def views_store_def empty_store_def store_ok_def tbl_ok_def tbl_keyed_def mk_entry_def)
  have len: "0 < length (av_entries (scr all_cfg0))"
    by (simp add: all_cfg0_def loadEntries_def page_slice_def entries_desc_def entries_by_created_def
                  views_store_def empty_store_def mk_entry_def PAGE_SIZE_def Let_def)
  have "all_step (\<lambda>_. False) 0 (Ev_delete True 0) all_cfg0
          = Some (loadEntries (handleDelete_all 0 True (av_entries (scr all_cfg0) ! 0) all_cfg0))"
    using len by (simp add: allEffect_def effect_loop_first [OF all_deps_ok])
  then show ?thesis using all_step_av_ok [OF ok] by blast
qed

text \<open>
  C34. The pages \<open>loadEntries\<close> shows for pages 1 to \<open>totalPages\<close> are, in order, the
  entries of the store newest first, each entry on exactly one page: their concatenation
  is a permutation of the stored entries sorted by \<open>created_at\<close>, descending.
\<close>

theorem loadEntries_pages_partition:
  "concat (map (\<lambda>p. av_entries (scr (loadEntries (c\<lparr>scr := (scr c)\<lparr>currentPage := p\<rparr>\<rparr>))))
                [1..totalPages (scr (loadEntries c))]) = entries_desc (db c)
   \<and> mset (entries_desc (db c)) = mset (map snd (db_entries (db c)))
   \<and> sorted_wrt (\<lambda>a b. created_at b \<le> created_at a) (entries_desc (db c))"
  using pages_cover_entries [of "db c"] entries_desc_mset entries_desc_sorted
  by (simp add: loadEntries_def Let_def)

end
