(* ===== verification/PinForms.thy ===== *)
theory PinForms
  imports Session Toasts
begin

text \<open>
  The PIN forms: \<open>PinEntry\<close> (\<open>src/src/components/pin/PinEntry.tsx\<close>) with the lock screen
  of \<open>src/unnamed/part_009\<close> that hands it the provider's \<open>verifyPin\<close>; the two-step
  \<open>PinSetup\<close> of the security settings (\<open>src/src/components/pin/PinSetup.tsx\<close>); and the
  onboarding \<open>PinSetup\<close> (\<open>src/src/components/onboarding/pin-setup.tsx\<close>), which hashes
  the PIN itself.  Each form's state is a record; a submit that calls back into the
  provider returns the PIN it passes, and the callback's result comes back as an input.
\<close>

section \<open>Input sanitising\<close>

text \<open>\<open>value.replace(/[^0-9]/g, '').slice(0, 4)\<close>.\<close>

definition sanitize_pin :: "string \<Rightarrow> string" where
  "sanitize_pin v = take 4 (filter is_digit v)"

section \<open>The provider's answers\<close>

text \<open>
  The \<open>error\<close> strings the \<open>PinProvider\<close> methods return with \<open>success: false\<close>, and the
  message of the exception \<open>updateLockTimeout\<close> throws.
\<close>

fun pin_error_message :: "pin_error \<Rightarrow> string" where
  "pin_error_message Temporarily_locked = ''Access temporarily locked due to too many failed attempts''"
| "pin_error_message Invalid_pin_format = ''PIN must be exactly 4 digits''"
| "pin_error_message Not_configured = ''PIN not configured''"
| "pin_error_message (Wrong_pin r) =
     ''Incorrect PIN. '' @ js_num_str r @ '' attempt'' @ (if r = Some 1 then [] else ''s'') @ '' remaining.''"
| "pin_error_message Too_many_attempts = ''Too many failed attempts. Access locked for 5 minutes.''"
| "pin_error_message Setup_failed = ''Failed to setup PIN. Please try again.''"
| "pin_error_message Disable_failed = ''Failed to disable PIN. Please try again.''"
| "pin_error_message Update_failed = ''Failed to update settings''"

definition verify_answer :: "pin_error + unit \<Rightarrow> bool \<times> string option" where
  "verify_answer r = (case r of Inr _ \<Rightarrow> (True, None) | Inl e \<Rightarrow> (False, Some (pin_error_message e)))"

section \<open>PinEntry\<close>

record pin_entry_form =
  pe_pin :: string
  pe_error :: string
  pe_isLoading :: bool

definition pin_entry0 :: pin_entry_form where
  "pin_entry0 = \<lparr>pe_pin = [], pe_error = [], pe_isLoading = False\<rparr>"

text \<open>\<open>handlePinChange\<close>: ignored during a lockout; an error is cleared unless it is the lockout's.\<close>

definition pe_handlePinChange :: "bool \<Rightarrow> string \<Rightarrow> pin_entry_form \<Rightarrow> pin_entry_form" where
  "pe_handlePinChange locked value f =
     (if locked then f
      else f\<lparr>pe_pin := sanitize_pin value,
             pe_error := (if pe_error f \<noteq> [] \<and> \<not> js_includes ''Too many'' (pe_error f) then [] else pe_error f)\<rparr>)"

text \<open>\<open>handleSubmit\<close> up to the call: the PIN passed to \<open>onVerify\<close>, if it is called.\<close>

definition pe_handleSubmit :: "bool \<Rightarrow> pin_entry_form \<Rightarrow> string option \<times> pin_entry_form" where
  "pe_handleSubmit locked f =
     (if locked then (None, f)
      else if \<not> isValidPin (pe_pin f) then (None, f\<lparr>pe_error := ''PIN must be exactly 4 digits''\<rparr>)
      else (Some (pe_pin f), f\<lparr>pe_isLoading := True, pe_error := []\<rparr>))"

text \<open>The rest of \<open>handleSubmit\<close>: \<open>onVerify\<close>'s answer, or \<open>None\<close> when it threw.\<close>

definition pe_onResult :: "(bool \<times> string option) option \<Rightarrow> pin_entry_form \<Rightarrow> pin_entry_form" where
  "pe_onResult r f =
     (case r of
        None \<Rightarrow> f\<lparr>pe_error := ''Failed to verify PIN. Please try again.'', pe_pin := [], pe_isLoading := False\<rparr>
      | Some (True, _) \<Rightarrow> f\<lparr>pe_isLoading := False\<rparr>
      | Some (False, e) \<Rightarrow>
          f\<lparr>pe_error := (case e of Some m \<Rightarrow> if m = [] then ''Invalid PIN'' else m | None \<Rightarrow> ''Invalid PIN''),
            pe_pin := [], pe_isLoading := False\<rparr>)"

text \<open>\<open>handleKeyPress\<close>: Enter submits a complete PIN when not busy and not locked out.\<close>

definition pe_enter_allowed :: "bool \<Rightarrow> pin_entry_form \<Rightarrow> bool" where
  "pe_enter_allowed locked f \<longleftrightarrow> length (pe_pin f) = 4 \<and> \<not> pe_isLoading f \<and> \<not> locked"

text \<open>
  The countdown of a lockout: \<open>minutes:seconds\<close> of the time left, seconds padded to two
  digits, empty once the end has passed.
\<close>

definition pad2 :: "string \<Rightarrow> string" where
  "pad2 s = replicate (2 - length s) CHR ''0'' @ s"

definition lockout_countdown :: "ms \<Rightarrow> ms \<Rightarrow> string" where
  "lockout_countdown endTime now =
     (let remaining = endTime - now in
      if remaining \<le> 0 then []
      else dec_int (remaining div 60000) @ '':'' @ pad2 (dec_int (js_rem remaining 60000 div 1000)))"

text \<open>
  The lock screen: \<open>PinEntry\<close> with \<open>onVerify\<close> the provider's \<open>verifyPin\<close> and
  \<open>isTemporaryLocked\<close> from the provider.
\<close>

definition lockScreen_submit :: "crypto_env \<Rightarrow> ms \<Rightarrow> pin_entry_form \<Rightarrow> pin_config
                                 \<Rightarrow> pin_entry_form \<times> pin_config" where
  "lockScreen_submit env now f c =
     (case pe_handleSubmit (isTemporaryLocked (fst c)) f of
        (None, f') \<Rightarrow> (f', c)
      | (Some p, f') \<Rightarrow>
          (case verifyPin env now p c of (r, ps', st') \<Rightarrow> (pe_onResult (Some (verify_answer r)) f', (ps', st'))))"

section \<open>PinSetup in the security settings\<close>

datatype setup_step = Step_enter | Step_confirm

record pin_setup_form =
  ps_step :: setup_step
  ps_pin :: string
  ps_confirmPin :: string
  ps_error :: string
  ps_isLoading :: bool

definition ps_handlePinChange :: "string \<Rightarrow> bool \<Rightarrow> pin_setup_form \<Rightarrow> pin_setup_form" where
  "ps_handlePinChange value isConfirm f =
     (let f1 = (if isConfirm then f\<lparr>ps_confirmPin := sanitize_pin value\<rparr> else f\<lparr>ps_pin := sanitize_pin value\<rparr>)
      in if ps_error f \<noteq> [] then f1\<lparr>ps_error := []\<rparr> else f1)"

definition ps_handleFirstStep :: "pin_setup_form \<Rightarrow> pin_setup_form" where
  "ps_handleFirstStep f =
     (if \<not> isValidPin (ps_pin f) then f\<lparr>ps_error := ''PIN must be exactly 4 digits''\<rparr>
      else f\<lparr>ps_step := Step_confirm, ps_error := []\<rparr>)"

text \<open>\<open>handleConfirm\<close> up to the call of \<open>onSetup\<close>, and the answer.\<close>

definition ps_handleConfirm :: "pin_setup_form \<Rightarrow> string option \<times> pin_setup_form" where
  "ps_handleConfirm f =
     (if \<not> isValidPin (ps_confirmPin f) then (None, f\<lparr>ps_error := ''PIN must be exactly 4 digits''\<rparr>)
      else if ps_pin f \<noteq> ps_confirmPin f then (None, f\<lparr>ps_error := ''PINs do not match''\<rparr>)
      else (Some (ps_pin f), f\<lparr>ps_isLoading := True, ps_error := []\<rparr>))"

definition ps_onResult :: "ms \<Rightarrow> (bool \<times> string option) option \<Rightarrow> pin_setup_form \<Rightarrow> unit toast_item list
                           \<Rightarrow> pin_setup_form \<times> unit toast_item list" where
  "ps_onResult now r f ts =
     (case r of
        None \<Rightarrow> (f\<lparr>ps_error := ''An unexpected error occurred'', ps_isLoading := False\<rparr>, ts)
      | Some (True, _) \<Rightarrow>
          (f\<lparr>ps_isLoading := False\<rparr>,
           addToast now Toast_success ''PIN Setup Complete''
             ''Your 4-digit PIN has been set successfully. Your journal is now protected.'' None ts)
      | Some (False, e) \<Rightarrow>
          (f\<lparr>ps_error := (case e of Some m \<Rightarrow> if m = [] then ''Failed to setup PIN'' else m
                                 | None \<Rightarrow> ''Failed to setup PIN''), ps_isLoading := False\<rparr>, ts))"

definition ps_handleBack :: "pin_setup_form \<Rightarrow> pin_setup_form" where
  "ps_handleBack f = f\<lparr>ps_step := Step_enter, ps_confirmPin := [], ps_error := []\<rparr>"

section \<open>PinSetup of the onboarding\<close>

record onb_pin_form =
  op_pin :: string
  op_confirmPin :: string
  op_error :: string
  op_skipPin :: bool

text \<open>
  \<open>handleSubmit\<close>: skipping calls \<open>onNext()\<close> without PIN data; otherwise the PIN is checked,
  compared with its confirmation and hashed (\<open>cryptoUtils.hashPin\<close> with a fresh salt),
  and \<open>onNext(pinData)\<close> is called; a failed hash shows the error.  The result is the
  argument of \<open>onNext\<close>, if it is called.
\<close>

definition op_handleSubmit :: "crypto_env \<Rightarrow> byte list \<Rightarrow> onb_pin_form
                               \<Rightarrow> PinHashData option option \<times> onb_pin_form" where
  "op_handleSubmit env salt f =
     (if op_skipPin f then (Some None, f)
      else if \<not> isValidPin (op_pin f) then (None, f\<lparr>op_error := ''PIN must be exactly 4 digits''\<rparr>)
      else if op_pin f \<noteq> op_confirmPin f then (None, f\<lparr>op_error := ''PINs do not match''\<rparr>)
      else (case hashPin env salt (op_pin f) of
              Some phd \<Rightarrow> (Some (Some phd), f\<lparr>op_error := []\<rparr>)
            | None \<Rightarrow> (None, f\<lparr>op_error := ''Failed to set up PIN. Please try again.''\<rparr>)))"

definition op_handlePinChange :: "string \<Rightarrow> bool \<Rightarrow> onb_pin_form \<Rightarrow> onb_pin_form" where
  "op_handlePinChange value isConfirm f =
     (let f1 = (if isConfirm then f\<lparr>op_confirmPin := sanitize_pin value\<rparr> else f\<lparr>op_pin := sanitize_pin value\<rparr>)
      in if op_error f \<noteq> [] then f1\<lparr>op_error := []\<rparr> else f1)"


section \<open>Lemmas\<close>

lemma sanitize_pin_digits: "list_all is_digit (sanitize_pin v) \<and> length (sanitize_pin v) \<le> 4"
  by (auto simp: sanitize_pin_def list_all_iff dest: in_set_takeD)

lemma isValidPin_sanitize: "isValidPin (sanitize_pin v) \<longleftrightarrow> 4 \<le> length (filter is_digit v)"
  by (auto simp: sanitize_pin_def isValidPin_def list_all_iff min_def dest: in_set_takeD)

text \<open>The lock screen passes a PIN to \<open>verifyPin\<close> only outside a lockout and when it has 4 digits.\<close>

lemma pe_handleSubmit_passes:
  "pe_handleSubmit locked f = (Some p, f') \<Longrightarrow> \<not> locked \<and> isValidPin p \<and> p = pe_pin f"
  by (simp add: pe_handleSubmit_def split: if_splits)

lemma lockScreen_submit_accepts:
  assumes "\<not> isTemporaryLocked ps" "isValidPin (pe_pin f)" "pin_hash_data ps = Some phd"
    "crypto_verifyPin env (pe_pin f) phd" "lockScreen_submit env now f (ps, st) = (f', ps', st')"
  shows "pe_error f' = [] \<and> \<not> pe_isLoading f' \<and> \<not> isLocked ps' \<and> attemptCount ps' = Some 0
         \<and> \<not> isTemporaryLocked ps'"
proof -
  have h: "pe_handleSubmit (isTemporaryLocked ps) f = (Some (pe_pin f), f\<lparr>pe_isLoading := True, pe_error := []\<rparr>)"
    using assms(1,2) by (simp add: pe_handleSubmit_def)
  have v: "verifyPin env now (pe_pin f) (ps, st) = (Inr (), ps\<lparr>attemptCount := Some 0, isTemporaryLocked := False,
      lockoutEndTime := None, isLocked := False\<rparr>,
      unlockSession now (ls_remove ''nvj_pinLockoutEnd'' (ls_remove ''nvj_pinAttempts'' st)))"
    using assms(1-4) by simp
  have "verify_answer (Inr ()) = (True, None)" by (simp add: verify_answer_def)
  then have "lockScreen_submit env now f (ps, st) =
      ((f\<lparr>pe_isLoading := True, pe_error := []\<rparr>)\<lparr>pe_isLoading := False\<rparr>,
       ps\<lparr>attemptCount := Some 0, isTemporaryLocked := False, lockoutEndTime := None, isLocked := False\<rparr>,
       unlockSession now (ls_remove ''nvj_pinLockoutEnd'' (ls_remove ''nvj_pinAttempts'' st)))"
    by (simp add: lockScreen_submit_def h v pe_onResult_def del: verifyPin.simps)
  then show ?thesis
    using assms(5) by simp
qed

text \<open>
  The onboarding form calls \<open>onNext(pinData)\<close> only for a valid PIN equal to its
  confirmation, with the data \<open>hashPin\<close> produced for it.
\<close>

lemma op_handleSubmit_next:
  assumes "op_handleSubmit env salt f = (Some pd, f')" "\<not> op_skipPin f"
  shows "\<exists>phd. pd = Some phd \<and> isValidPin (op_pin f) \<and> op_confirmPin f = op_pin f
           \<and> hashPin env salt (op_pin f) = Some phd"
  using assms by (cases "hashPin env salt (op_pin f)") (auto simp: op_handleSubmit_def split: if_splits)

lemma ps_handleConfirm_passes:
  "ps_handleConfirm f = (Some p, f') \<Longrightarrow> isValidPin p \<and> p = ps_pin f \<and> p = ps_confirmPin f"
  by (simp add: ps_handleConfirm_def split: if_splits)

end
