(* ===== verification/Onboarding.thy ===== *)
theory Onboarding
  imports PinForms Notifications Telemetry Prompts
begin

text \<open>
  The first-launch flow \<open>OnboardingFlow\<close> of \<open>src/unnamed/part_005\<close>: the privacy, PIN,
  cue and telemetry steps, and \<open>completeOnboarding\<close>, which composes the store's settings
  initialisation, the prompt seeding, the streak row, the telemetry opt-in and the app
  store's setters.  The PIN step is the onboarding form of \<open>PinForms\<close>; the cue step is
  \<open>CueSetup\<close> (\<open>src/src/components/onboarding/cue-setup.tsx\<close>), which asks for the
  notification permission and schedules the reminder through \<open>Notifications\<close>.  The
  relation \<open>tel_only\<close> says what the telemetry calls of \<open>completeOnboarding\<close> leave of the
  store; the lemmas compute \<open>completeOnboarding\<close> on a fresh database and follow a PIN from
  the onboarding form through a page load to the lock screen.
\<close>

section \<open>The cue step\<close>

record cue_setup_form =
  cs_cueTime :: string
  cs_skipCue :: bool
  cs_permissionGranted :: "bool option"

definition cue_setup0 :: cue_setup_form where
  "cue_setup0 = \<lparr>cs_cueTime = ''09:00'', cs_skipCue = False, cs_permissionGranted = None\<rparr>"

text \<open>
  \<open>requestNotificationPermission\<close> of \<open>CueSetup\<close>: without support \<open>false\<close>; otherwise the
  user's answer \<open>ans\<close> becomes the permission (the browser keeps it, so a second request
  gets the same answer), and the result says whether it is granted.
\<close>

definition cs_request :: "notif_env \<Rightarrow> notif_permission \<Rightarrow> bool" where
  "cs_request env ans \<longleftrightarrow> n_supported env \<and> ans = Perm_granted"

definition cue_message :: string where
  "cue_message = ''Time for your daily negative visualization practice''"

text \<open>
  \<open>handleComplete\<close>: the argument of \<open>onComplete\<close> (\<open>None\<close> for \<open>onComplete()\<close>), the form
  and the reminder timeout.  After a first request that was granted, the closure still
  sees \<open>permissionGranted === null\<close> and asks again, then schedules the reminder.  Without
  support the request returns \<open>false\<close> before it records an answer.
\<close>

definition cs_handleComplete :: "notif_env \<Rightarrow> notif_permission \<Rightarrow> ms \<Rightarrow> cue_setup_form \<Rightarrow> notif_state
                                 \<Rightarrow> string option \<times> cue_setup_form \<times> notif_state" where
  "cs_handleComplete env ans now f ns =
     (let env' = env\<lparr>n_permission := ans\<rparr> in
      if cs_skipCue f then (None, f, ns)
      else (case cs_permissionGranted f of
              None \<Rightarrow>
                (if \<not> cs_request env ans
                 then (None, f\<lparr>cs_permissionGranted := (if n_supported env then Some False else None),
                                  cs_skipCue := True\<rparr>, ns)
                 else (Some (cs_cueTime f), f\<lparr>cs_permissionGranted := Some True\<rparr>,
                       scheduleNotification env' now (cs_cueTime f) cue_message ns))
            | Some True \<Rightarrow> (Some (cs_cueTime f), f, scheduleNotification env' now (cs_cueTime f) cue_message ns)
            | Some False \<Rightarrow> (Some (cs_cueTime f), f, ns)))"

section \<open>The flow\<close>

datatype OnboardingStep = Step_privacy | Step_pin | Step_cue | Step_telemetry | Step_complete

text \<open>The flow's state, the app store, the telemetry outbox and the database.\<close>

record onboarding_cfg =
  o_step :: OnboardingStep
  o_pinData :: "PinHashData option"
  o_cueTime :: "string option"
  o_app :: app_state
  o_tel :: telemetry_state
  o_db :: store

text \<open>
  The settings row \<open>completeOnboarding\<close> writes: the initialised row with the PIN data
  when there is some, the cue time when it is truthy, and the telemetry choice.
\<close>

definition onboarding_settings :: "settings \<Rightarrow> PinHashData option \<Rightarrow> string option \<Rightarrow> bool \<Rightarrow> settings" where
  "onboarding_settings s pd cue telemetryOptIn' =
     (let s1 = (case pd of
                  Some p \<Rightarrow> s\<lparr>pinSalt := Some (hd_salt p), pinIterations := Some (hd_iterations p),
                              pinHash := Some (hd_hash p)\<rparr>
                | None \<Rightarrow> s);
          s2 = (case cue of Some t \<Rightarrow> if t \<noteq> [] then s1\<lparr>dailyCueTime := Some t\<rparr> else s1 | None \<Rightarrow> s1)
      in s2\<lparr>telemetryOptIn := telemetryOptIn'\<rparr>)"

text \<open>
  \<open>completeOnboarding\<close>: initialise and put the settings, seed the prompts (\<open>bulkAdd\<close>
  rejects when a seed id exists, and the catch leaves the flow where it is, with the writes
  so far kept), create the streak row, opt in if chosen, then set the app store's
  settings, \<open>isFirstLaunch = false\<close> and the Today view, and mark the step complete.
\<close>

definition completeOnboarding :: "tel_ctx \<Rightarrow> (TelemetryEvent \<Rightarrow> bool) \<Rightarrow> string option \<Rightarrow> bool
                                  \<Rightarrow> onboarding_cfg \<Rightarrow> onboarding_cfg" where
  "completeOnboarding cx net cue telemetryOptIn' c =
     (let now = t_now cx;
          (s, st1) = initializeSettings now (o_db c);
          upd = onboarding_settings s (o_pinData c) cue telemetryOptIn';
          st2 = put_settings upd st1;
          (err, st3) = initializeSeedPrompts now st2
      in case err of
           Some _ \<Rightarrow> c\<lparr>o_db := st3\<rparr>
         | None \<Rightarrow>
             (let (_, st4) = initializeStreakSummary now st3;
                  (ts, st5) = (if telemetryOptIn' then optIn cx net (o_tel c, st4) else (o_tel c, st4));
                  (a1, st6) = app_set (SetSettings upd) (o_app c, st5);
                  (a2, st7) = app_set (SetFirstLaunch False) (a1, st6);
                  (a3, st8) = app_set (SetCurrentView V_today) (a2, st7)
              in c\<lparr>o_step := Step_complete, o_app := a3, o_tel := ts, o_db := st8\<rparr>))"

text \<open>The buttons of each step; a step shows only its own.\<close>

datatype onboarding_event =
  Ob_privacy_next | Ob_pin_next "PinHashData option" | Ob_pin_back | Ob_cue_complete "string option"
  | Ob_cue_back | Ob_telemetry_optIn | Ob_telemetry_skip

fun onboarding_step :: "tel_ctx \<Rightarrow> (TelemetryEvent \<Rightarrow> bool) \<Rightarrow> onboarding_event \<Rightarrow> onboarding_cfg
                        \<Rightarrow> onboarding_cfg" where
  "onboarding_step cx net ev c =
     (case (o_step c, ev) of
        (Step_privacy, Ob_privacy_next) \<Rightarrow> c\<lparr>o_step := Step_pin\<rparr>
      | (Step_pin, Ob_pin_next pd) \<Rightarrow> c\<lparr>o_pinData := pd, o_step := Step_cue\<rparr>
      | (Step_pin, Ob_pin_back) \<Rightarrow> c\<lparr>o_step := Step_privacy\<rparr>
      | (Step_cue, Ob_cue_complete t) \<Rightarrow> c\<lparr>o_cueTime := t, o_step := Step_telemetry\<rparr>
      | (Step_cue, Ob_cue_back) \<Rightarrow> c\<lparr>o_step := Step_pin\<rparr>
      | (Step_telemetry, Ob_telemetry_optIn) \<Rightarrow> completeOnboarding cx net (o_cueTime c) True c
      | (Step_telemetry, Ob_telemetry_skip) \<Rightarrow> completeOnboarding cx net (o_cueTime c) False c
      | _ \<Rightarrow> c)"

definition onboarding0 :: "store \<Rightarrow> onboarding_cfg" where
  "onboarding0 st = \<lparr>o_step = Step_privacy, o_pinData = None, o_cueTime = None,
     o_app = initial_app_state, o_tel = loadQueueFromStorage [], o_db = st\<rparr>"


section \<open>What the telemetry calls leave of the store\<close>

text \<open>
  The settings row without its telemetry fields, and the relation between a store and
  one that differs from it only in those fields: the telemetry client writes nothing
  else (\<open>updateTelemetrySettings\<close> spreads the row and overrides telemetry fields only).
\<close>

definition strip_tel :: "settings \<Rightarrow> settings" where
  "strip_tel s = s\<lparr>telemetryOptIn := False, telemetryAnonId := None, telemetryActivationSent := None,
     telemetryConsecutiveDays := None, telemetryLastCompletionDate := None,
     telemetryD7EventSent := None\<rparr>"

definition tel_only :: "store \<Rightarrow> store \<Rightarrow> bool" where
  "tel_only st st' \<longleftrightarrow> st'\<lparr>db_settings := db_settings st\<rparr> = st
     \<and> (store_ok st \<longrightarrow> store_ok st'
          \<and> map_option strip_tel (get_settings st') = map_option strip_tel (get_settings st))"

subsection \<open>Fixtures\<close>

text \<open>The PIN form with \<open>2468\<close> typed twice, and the flow at its PIN step on an empty database.\<close>

definition onb_pin_demo :: onb_pin_form where
  "onb_pin_demo = \<lparr>op_pin = ''2468'', op_confirmPin = ''2468'', op_error = [], op_skipPin = False\<rparr>"

definition onb_cfg_demo :: onboarding_cfg where
  "onb_cfg_demo = (onboarding0 empty_store)\<lparr>o_step := Step_pin\<rparr>"

section \<open>Lemmas\<close>

lemma strip_tel_apply [simp]: "strip_tel (apply_ts_update u s) = strip_tel s"
  by (simp add: strip_tel_def apply_ts_update_def)

lemma tel_only_refl [simp]: "tel_only st st"
  by (simp add: tel_only_def)

lemma tel_only_trans: "tel_only st1 st2 \<Longrightarrow> tel_only st2 st3 \<Longrightarrow> tel_only st1 st3"
  unfolding tel_only_def by (metis store.update_convs(1) store.surjective)

lemma tel_only_updateTel: "tel_only st (updateTelemetrySettings u st)"
proof -
  have "(updateTelemetrySettings u st)\<lparr>db_settings := db_settings st\<rparr> = st"
    by (simp add: updateTelemetrySettings_def put_settings_def split: option.split)
  then show ?thesis
    by (simp add: tel_only_def store_ok_updateTel get_settings_updateTel option.map_comp comp_def)
qed

lemma tel_only_createEvent: "tel_only st (snd (createEvent cx et dn st))"
  by (simp add: createEvent_def Let_def tel_only_updateTel)

lemma tel_only_sendActivation: "tel_only (snd c) (snd (sendActivationEvent cx net c))"
proof (cases c)
  case (Pair ts st)
  show ?thesis
  proof (cases "createEvent cx Activation None st")
    case (Pair e st1)
    have "tel_only st st1"
      using tel_only_createEvent [where st = st and cx = cx and et = Activation and dn = None] Pair
      by simp
    then have "tel_only st (updateTelemetrySettings (no_update\<lparr>u_activationSent := Some True\<rparr>) st1)"
      using tel_only_trans tel_only_updateTel by blast
    then show ?thesis
      using \<open>c = (ts, st)\<close> Pair by (auto simp: sendActivationEvent_def processQueue_store split: option.split)
  qed
qed

lemma tel_only_optIn: "tel_only (snd c) (snd (optIn cx net c))"
proof (cases c)
  case (Pair ts st)
  show ?thesis
  proof (cases "getTelemetrySettings st")
    case (Some t)
    define st1 where "st1 = updateTelemetrySettings
       (no_update\<lparr>u_isOptedIn := Some True,
          u_anonId := Some (case stored_anonId (Some t) of Some a \<Rightarrow> a | None \<Rightarrow> generateAnonId cx)\<rparr>) st"
    define c2 where "c2 = (if \<not> activationSent t then sendActivationEvent cx net (ts, st1) else (ts, st1))"
    have "tel_only st st1" by (simp add: st1_def tel_only_updateTel)
    moreover have "tel_only st1 (snd c2)"
      using tel_only_sendActivation [where c = "(ts, st1)"] by (simp add: c2_def)
    ultimately have "tel_only st (snd c2)" by (rule tel_only_trans)
    moreover have "optIn cx net c = processQueue net (t_now cx) c2"
      using Pair Some by (simp add: optIn_def st1_def c2_def Let_def)
    ultimately show ?thesis
      using Pair by (simp add: processQueue_store)
  qed (simp add: Pair optIn_def)
qed

lemma tel_only_parts:
  assumes "tel_only st st'"
  shows "local_kv st' = local_kv st" "db_prompts st' = db_prompts st" "db_streak st' = db_streak st"
    "db_entries st' = db_entries st" "session_kv st' = session_kv st"
proof -
  have e: "st'\<lparr>db_settings := db_settings st\<rparr> = st" using assms by (simp add: tel_only_def)
  show "local_kv st' = local_kv st" "db_prompts st' = db_prompts st" "db_streak st' = db_streak st"
    "db_entries st' = db_entries st" "session_kv st' = session_kv st"
    using arg_cong [OF e, of local_kv] arg_cong [OF e, of db_prompts] arg_cong [OF e, of db_streak]
      arg_cong [OF e, of db_entries] arg_cong [OF e, of session_kv] by simp_all
qed


lemma optOut_tables:
  "db_prompts (snd (optOut (ts, st))) = db_prompts st \<and> db_entries (snd (optOut (ts, st))) = db_entries st
   \<and> db_streak (snd (optOut (ts, st))) = db_streak st"
  using tel_only_parts(2-4) [OF tel_only_updateTel [where st = st]]
  by (simp add: optOut_def ls_tables)

text \<open>
  C29. Opting in or out of telemetry never touches the journal: the prompts, entries and
  streak tables are unchanged, the store stays well formed, and opting in changes the
  settings row only in its telemetry fields (PIN, lock timeout, reminder and prompt
  fields are kept).
\<close>

theorem telemetry_choice_keeps_journal:
  assumes ok: "store_ok st"
  shows "db_prompts (snd (optIn cx net (ts, st))) = db_prompts st
    \<and> db_entries (snd (optIn cx net (ts, st))) = db_entries st
    \<and> db_streak (snd (optIn cx net (ts, st))) = db_streak st
    \<and> store_ok (snd (optIn cx net (ts, st)))
    \<and> map_option strip_tel (get_settings (snd (optIn cx net (ts, st)))) = map_option strip_tel (get_settings st)
    \<and> db_prompts (snd (optOut (ts, st))) = db_prompts st
    \<and> db_entries (snd (optOut (ts, st))) = db_entries st
    \<and> db_streak (snd (optOut (ts, st))) = db_streak st"
proof -
  have t: "tel_only st (snd (optIn cx net (ts, st)))"
    using tel_only_optIn [where c = "(ts, st)"] by simp
  show ?thesis
    using tel_only_parts(2-4) [OF t] t ok optOut_tables [of ts st] by (simp add: tel_only_def)
qed

theorem telemetry_choice_keeps_journal_witness:
  "db_entries (snd (optIn (tel_cx 1000) offline (loadQueueFromStorage [], tel_store0))) = db_entries tel_store0"
  using telemetry_choice_keeps_journal [of tel_store0 "tel_cx 1000" offline "loadQueueFromStorage []"]
  by (simp add: tel_store0_def store_ok_put_settings store_ok_empty)

lemma seed_rows_table: "tbl_ok (map (\<lambda>r. (pid r, r)) (seed_rows t)) \<and> tbl_keyed pid (map (\<lambda>r. (pid r, r)) (seed_rows t))"
  by (simp add: tbl_ok_def tbl_keyed_def seed_rows_def seed_row_def SEED_PROMPTS_def dec_nat.simps
                digit_char_def)

lemma onboarding_settings_id [simp]: "settings_id (onboarding_settings s pd cue b) = settings_id s"
  by (simp add: onboarding_settings_def Let_def split: option.split)

lemma strip_tel_pin [simp]:
  "pinHash (strip_tel s) = pinHash s" "pinSalt (strip_tel s) = pinSalt s"
  "pinIterations (strip_tel s) = pinIterations s" "dailyCueTime (strip_tel s) = dailyCueTime s"
  "dailyCueEnabled (strip_tel s) = dailyCueEnabled s"
  by (simp_all add: strip_tel_def)

text \<open>
  \<open>completeOnboarding\<close> on a store with no prompts: the flow completes, the stored row is
  the onboarding row up to the telemetry fields, the persisted app state routes to Today,
  and no other browser-storage key changes.
\<close>

lemma completeOnboarding_fresh:
  fixes cx net cue b c
  assumes ok: "store_ok (o_db c)" and np: "db_prompts (o_db c) = []"
    and i: "initializeSettings (t_now cx) (o_db c) = (s, st1)"
  defines "c' \<equiv> completeOnboarding cx net cue b c"
  shows "\<exists>s'. get_settings (o_db c') = Some s' \<and> strip_tel s' = strip_tel (onboarding_settings s (o_pinData c) cue b)"
    and "o_step c' = Step_complete" and "store_ok (o_db c')"
    and "rehydrate (o_db c') = initial_app_state\<lparr>isFirstLaunch := False, currentView := V_today\<rparr>"
    and "k \<noteq> app_store_key \<Longrightarrow> ls_get k (o_db c') = ls_get k (o_db c)"
proof -
  define now where "now = t_now cx"
  define upd where "upd = onboarding_settings s (o_pinData c) cue b"
  have ok1: "store_ok st1"
    using i ok by (auto simp: initializeSettings_def table_simps split: option.splits)
  have g1: "get_settings st1 = Some s" using initializeSettings_get [OF i] .
  have p1: "db_prompts st1 = []" and l1: "local_kv st1 = local_kv (o_db c)"
    using i np by (auto simp: initializeSettings_def put_settings_def split: option.splits)
  have sid: "settings_id upd = main_key"
    using store_ok_settings_id [OF ok1 g1] by (simp add: upd_def)
  define st2 where "st2 = put_settings upd st1"
  define st3 where "st3 = st2\<lparr>db_prompts := map (\<lambda>r. (pid r, r)) (seed_rows now)\<rparr>"
  have seed: "initializeSeedPrompts now st2 = (None, st3)"
    using initializeSeedPrompts_no_seeds [of st2 now] p1 by (simp add: st2_def st3_def put_settings_def)
  have ok3: "store_ok st3" and g3: "get_settings st3 = Some upd" and l3: "local_kv st3 = local_kv st1"
    using ok1 seed_rows_table [of now] sid
    by (simp_all add: st3_def st2_def store_ok_def put_settings_def get_settings_def table_simps)
  obtain k4 st4 where i4: "initializeStreakSummary now st3 = (k4, st4)" by (metis prod.collapse)
  have ok4: "store_ok st4"
    using i4 ok3 by (auto simp: initializeStreakSummary_def table_simps split: option.splits)
  have g4: "get_settings st4 = Some upd" and l4: "local_kv st4 = local_kv st3"
    using i4 g3 by (auto simp: initializeStreakSummary_def put_streak_def get_settings_def
                         split: option.splits)
  obtain ts st5 where i5: "(if b then optIn cx net (o_tel c, st4) else (o_tel c, st4)) = (ts, st5)"
    by (metis prod.collapse)
  have t5: "tel_only st4 st5"
    using tel_only_optIn [where c = "(o_tel c, st4)" and cx = cx and net = net] i5 by (cases b) auto
  then obtain s' where g5: "get_settings st5 = Some s'" and s': "strip_tel s' = strip_tel upd"
    and ok5: "store_ok st5"
    using ok4 g4 by (auto simp: tel_only_def)
  have l5: "local_kv st5 = local_kv st4" using tel_only_parts(1) [OF t5] .
  have c': "c' = c\<lparr>o_step := Step_complete,
      o_app := fst (app_set (SetCurrentView V_today) (app_set (SetFirstLaunch False) (app_set (SetSettings upd) (o_app c, st5)))),
      o_tel := ts,
      o_db := snd (app_set (SetCurrentView V_today) (app_set (SetFirstLaunch False) (app_set (SetSettings upd) (o_app c, st5))))\<rparr>"
    unfolding c'_def completeOnboarding_def
    using i seed i4 i5 by (cases b) (simp_all add: Let_def now_def upd_def st2_def split_def del: app_set_fst)
  show "\<exists>s'. get_settings (o_db c') = Some s' \<and> strip_tel s' = strip_tel (onboarding_settings s (o_pinData c) cue b)"
    using g5 s' by (simp add: c' table_simps upd_def)
  show "o_step c' = Step_complete" by (simp add: c')
  show "store_ok (o_db c')" using ok5 by (simp add: c' table_simps)
  show "rehydrate (o_db c') = initial_app_state\<lparr>isFirstLaunch := False, currentView := V_today\<rparr>"
    by (simp add: c' rehydrate_app_set)
  show "k \<noteq> app_store_key \<Longrightarrow> ls_get k (o_db c') = ls_get k (o_db c)"
  proof -
    have "ls_get k st5 = ls_get k (o_db c)" using l1 l3 l4 l5 by (simp add: ls_get_def)
    then show "k \<noteq> app_store_key \<Longrightarrow> ls_get k (o_db c') = ls_get k (o_db c)"
      by (simp add: c' app_set_def Let_def ls_get_set)
  qed
qed


lemma app_reload_no_lockout:
  assumes "ls_get ''nvj_pinLockoutEnd'' st = None"
  shows "\<not> isTemporaryLocked (fst (app_reload now st))"
proof -
  obtain ps1 st1 where i: "initializePinState now (initial_pin_state, st) = (ps1, st1)"
    by (metis prod.collapse)
  have "\<not> isTemporaryLocked ps1"
    using i assms by (auto simp: initial_pin_state_def Let_def split: option.splits if_splits)
  then show ?thesis using i
    by (cases "get_settings st1")
       (simp_all add: app_reload_def autoLockEffect_keeps del: autoLockEffect.simps initializePinState.simps)
qed

lemma pin_hash_data_onboarding:
  assumes "hd_hash phd \<noteq> []" "hd_salt phd \<noteq> []" "hd_iterations phd \<noteq> 0"
    and "strip_tel s' = strip_tel (onboarding_settings s (Some phd) cue b)" and "app_settings ps = Some s'"
  shows "pin_hash_data ps = Some phd"
proof -
  have "pinHash s' = Some (hd_hash phd)" "pinSalt s' = Some (hd_salt phd)"
    "pinIterations s' = Some (hd_iterations phd)"
    using arg_cong [OF assms(4), of pinHash] arg_cong [OF assms(4), of pinSalt]
      arg_cong [OF assms(4), of pinIterations]
    by (simp_all add: onboarding_settings_def Let_def split: option.splits)
  then show ?thesis using assms(1-3,5) by (simp add: pin_hash_data_def)
qed

text \<open>
  C12. Onboarding with a PIN, then a page load: the PIN form's \<open>onNext\<close> data, carried
  through the cue and telemetry steps (opted in or not) into \<open>completeOnboarding\<close> on a
  fresh database, leaves the flow complete; the reloaded app routes to the Today screen
  with the PIN enabled, and typing the same PIN on the lock screen is accepted: no
  error, attempt counter 0, not locked.
\<close>

theorem onboarding_pin_unlocks_after_reload:
  fixes cx net cue ev c now env salt f
  assumes env: "env_ok env" and salt: "salt \<noteq> []"
    and sub: "op_handleSubmit env salt f = (Some pd, f')" and nskip: "\<not> op_skipPin f"
    and c: "o_step c = Step_pin" "store_ok (o_db c)" "db_prompts (o_db c) = []"
      "ls_get ''nvj_pinLockoutEnd'' (o_db c) = None"
    and ev: "ev \<in> {Ob_telemetry_optIn, Ob_telemetry_skip}"
    and run: "onboarding_step cx net ev (onboarding_step cx net (Ob_cue_complete cue)
                (onboarding_step cx net (Ob_pin_next pd) c)) = c'"
    and submit: "lockScreen_submit env now (pin_entry0\<lparr>pe_pin := op_pin f\<rparr>) (app_reload now (o_db c')) = (fe, ps, st)"
  shows "o_step c' = Step_complete \<and> renderMain (rehydrate (o_db c')) = Scr_TodayCard
    \<and> isPinEnabled (fst (app_reload now (o_db c')))
    \<and> pe_error fe = [] \<and> attemptCount ps = Some 0 \<and> \<not> pin_state.isLocked ps"
proof -
  obtain phd where pd: "pd = Some phd" and v: "isValidPin (op_pin f)"
    and h: "hashPin env salt (op_pin f) = Some phd"
    using op_handleSubmit_next [OF sub nskip] by blast
  define c2 where "c2 = onboarding_step cx net (Ob_cue_complete cue) (onboarding_step cx net (Ob_pin_next pd) c)"
  have c2: "o_step c2 = Step_telemetry" "o_pinData c2 = pd" "o_cueTime c2 = cue" "o_db c2 = o_db c"
    using c(1) by (simp_all add: c2_def)
  obtain b where c'b: "c' = completeOnboarding cx net cue b c2"
    using ev run c2(1,3) unfolding c2_def [symmetric] by auto
  obtain s st1 where i: "initializeSettings (t_now cx) (o_db c) = (s, st1)" by (metis prod.collapse)
  have i2: "initializeSettings (t_now cx) (o_db c2) = (s, st1)" using i c2(4) by simp
  have ok2: "store_ok (o_db c2)" and np2: "db_prompts (o_db c2) = []" using c(2,3) c2(4) by simp_all
  note fresh = completeOnboarding_fresh [where net = net and cue = cue and b = b, OF ok2 np2 i2, folded c'b]
  obtain s' where g: "get_settings (o_db c') = Some s'"
    and s': "strip_tel s' = strip_tel (onboarding_settings s (Some phd) cue b)"
    using fresh(1) c(2,3) c2 i pd by auto
  have f: "hd_salt phd \<noteq> [] \<and> hd_hash phd \<noteq> [] \<and> hd_iterations phd = 100000"
    using hashPin_fields [OF env h salt] .
  have phd: "pin_hash_data (fst (app_reload now (o_db c'))) = Some phd"
    using pin_hash_data_onboarding [OF _ _ _ s'] f g by (simp add: app_reload_settings)
  have lk: "ls_get ''nvj_pinLockoutEnd'' (o_db c') = None"
    using fresh(5) [of "''nvj_pinLockoutEnd''"] c(2-4) c2 i by (simp add: app_store_key_def)
  have ul: "\<not> isTemporaryLocked (fst (app_reload now (o_db c')))"
    using app_reload_no_lockout [OF lk] .
  obtain ps0 st0 where r: "app_reload now (o_db c') = (ps0, st0)" by (metis prod.collapse)
  have acc: "pe_error fe = [] \<and> attemptCount ps = Some 0 \<and> \<not> pin_state.isLocked ps"
    using lockScreen_submit_accepts [where f = "pin_entry0\<lparr>pe_pin := op_pin f\<rparr>" and ps = ps0 and st = st0]
      ul v phd hashPin_verifies [OF env h] submit by (simp add: r)
  show ?thesis
    using fresh(2,4) c(2,3) c2 i acc phd by (simp add: renderMain_def isPinEnabled_def)
qed


theorem onboarding_pin_unlocks_after_reload_witness:
  "o_step (onboarding_step (tel_cx 0) offline Ob_telemetry_skip
      (onboarding_step (tel_cx 0) offline (Ob_cue_complete (Some ''09:00''))
        (onboarding_step (tel_cx 0) offline (Ob_pin_next (the (fst (op_handleSubmit demo_env [1] onb_pin_demo))))
           onb_cfg_demo))) = Step_complete
   \<and> pe_error (fst (lockScreen_submit demo_env 5000 (pin_entry0\<lparr>pe_pin := ''2468''\<rparr>)
       (app_reload 5000 (o_db (onboarding_step (tel_cx 0) offline Ob_telemetry_skip
          (onboarding_step (tel_cx 0) offline (Ob_cue_complete (Some ''09:00''))
            (onboarding_step (tel_cx 0) offline (Ob_pin_next (the (fst (op_handleSubmit demo_env [1] onb_pin_demo))))
               onb_cfg_demo))))))) = []"
proof -
  obtain phd where h: "hashPin demo_env [1] ''2468'' = Some phd"
    using hashPin_Some [OF demo_env_ok] by blast
  have sub: "op_handleSubmit demo_env [1] onb_pin_demo = (Some (Some phd), onb_pin_demo\<lparr>op_error := []\<rparr>)"
    by (simp add: op_handleSubmit_def onb_pin_demo_def isValidPin_def is_digit_def less_eq_char_def h)
  have pd: "the (fst (op_handleSubmit demo_env [1] onb_pin_demo)) = Some phd" by (simp add: sub)
  have form: "\<not> op_skipPin onb_pin_demo" "op_pin onb_pin_demo = ''2468''" by (simp_all add: onb_pin_demo_def)
  let ?c' = "onboarding_step (tel_cx 0) offline Ob_telemetry_skip
      (onboarding_step (tel_cx 0) offline (Ob_cue_complete (Some ''09:00''))
        (onboarding_step (tel_cx 0) offline (Ob_pin_next (the (fst (op_handleSubmit demo_env [1] onb_pin_demo))))
           onb_cfg_demo))"
  let ?r = "lockScreen_submit demo_env 5000 (pin_entry0\<lparr>pe_pin := ''2468''\<rparr>) (app_reload 5000 (o_db ?c'))"
  show ?thesis
    using onboarding_pin_unlocks_after_reload [where env = demo_env and salt = "[1]" and f = onb_pin_demo
        and pd = "Some phd" and f' = "onb_pin_demo\<lparr>op_error := []\<rparr>"
        and cx = "tel_cx 0" and net = offline and cue = "Some ''09:00''" and ev = Ob_telemetry_skip
        and c = onb_cfg_demo and now = 5000 and c' = ?c' and fe = "fst ?r" and ps = "fst (snd ?r)"
        and st = "snd (snd ?r)"]
    unfolding pd by (simp add: demo_env_ok sub form onb_cfg_demo_def onboarding0_def empty_store_def store_ok_def
                  tbl_ok_def tbl_keyed_def ls_get_def tbl_get_def)
qed

end
