(* ===== verification/PinUnlock.thy ===== *)
theory PinUnlock
  imports PinForms
begin

text \<open>
  \<open>PinUnlock\<close> (\<open>src/unnamed/part_004\<close>, lines 689--813), an unlock screen that keeps its
  own attempt counter and lockout instead of asking the \<open>PinProvider\<close>.  No screen of the
  app renders it; it is modelled because it writes the same \<open>nvj_\<close> keys as the
  provider.  Its state is a record, the hash data comes in as props, and the lemmas show
  that on the store it behaves exactly like the provider: its mount effect is
  \<open>initializePinState\<close>, its submit is \<open>verifyPin\<close> (on a success it leaves its own
  counter as it is, since it hands over to \<open>onUnlock\<close>), and its countdown expiry is the
  provider's lockout timer.
\<close>

record pin_unlock =
  pu_pin :: string
  pu_isLoading :: bool
  pu_error :: string
  pu_attemptCount :: "int option"
  pu_isLocked :: bool
  pu_lockEndTime :: "ms option"
  pu_timeRemaining :: string

definition pin_unlock0 :: pin_unlock where
  "pin_unlock0 = \<lparr>pu_pin = [], pu_isLoading = False, pu_error = [], pu_attemptCount = Some 0,
     pu_isLocked = False, pu_lockEndTime = None, pu_timeRemaining = []\<rparr>"

text \<open>\<open>MAX_ATTEMPTS\<close> and \<open>LOCKOUT_DURATION\<close>.\<close>

definition pu_MAX_ATTEMPTS :: int where
  "pu_MAX_ATTEMPTS = 5"

definition pu_LOCKOUT_DURATION :: int where
  "pu_LOCKOUT_DURATION = 5 * 60 * 1000"

text \<open>
  The mount effect: a truthy stored lockout end still in the future restores the lockout
  with the counter at the maximum; otherwise (a past or unparsable end) both keys are
  removed.  Then a truthy stored counter is parsed (\<open>NaN\<close> is \<open>None\<close>).
\<close>

definition pu_mount :: "ms \<Rightarrow> pin_unlock \<Rightarrow> store \<Rightarrow> pin_unlock \<times> store" where
  "pu_mount now f st =
     (let (f1, st1) =
        (case ls_get ''nvj_pinLockoutEnd'' st of
           None \<Rightarrow> (f, st)
         | Some s \<Rightarrow>
             if s = [] then (f, st)
             else (case js_parseInt s of
                     Some endTime \<Rightarrow>
                       if now < endTime
                       then (f\<lparr>pu_isLocked := True, pu_lockEndTime := Some endTime,
                               pu_attemptCount := Some pu_MAX_ATTEMPTS\<rparr>, st)
                       else (f, ls_remove ''nvj_pinAttempts'' (ls_remove ''nvj_pinLockoutEnd'' st))
                   | None \<Rightarrow> (f, ls_remove ''nvj_pinAttempts'' (ls_remove ''nvj_pinLockoutEnd'' st))))
      in (case ls_get ''nvj_pinAttempts'' st1 of
            None \<Rightarrow> (f1, st1)
          | Some a \<Rightarrow> if a = [] then (f1, st1) else (f1\<lparr>pu_attemptCount := js_parseInt a\<rparr>, st1)))"

text \<open>
  \<open>updateTimer\<close> of the countdown effect (run only while locked with a truthy end time):
  at the end the lockout and the counter are cleared with both keys, before it the
  remaining time is shown.
\<close>

definition pu_tick :: "ms \<Rightarrow> pin_unlock \<Rightarrow> store \<Rightarrow> pin_unlock \<times> store" where
  "pu_tick now f st =
     (case pu_lockEndTime f of
        None \<Rightarrow> (f, st)
      | Some e \<Rightarrow>
          if \<not> pu_isLocked f \<or> e = 0 then (f, st)
          else if e - now \<le> 0
          then (f\<lparr>pu_isLocked := False, pu_lockEndTime := None, pu_attemptCount := Some 0\<rparr>,
                ls_remove ''nvj_pinAttempts'' (ls_remove ''nvj_pinLockoutEnd'' st))
          else (f\<lparr>pu_timeRemaining := lockout_countdown e now\<rparr>, st))"

text \<open>
  \<open>handleSubmit\<close> with the props' hash data; the boolean says whether \<open>onUnlock\<close> was
  called.  \<open>cryptoUtils.verifyPin\<close> catches its own exceptions, so the catch block of the
  handler is not reached.
\<close>

definition pu_handleSubmit :: "crypto_env \<Rightarrow> ms \<Rightarrow> PinHashData \<Rightarrow> pin_unlock \<Rightarrow> store
                              \<Rightarrow> bool \<times> pin_unlock \<times> store" where
  "pu_handleSubmit env now hdata f st =
     (if pu_isLocked f then (False, f, st)
      else if \<not> isValidPin (pu_pin f) then (False, f\<lparr>pu_error := ''PIN must be exactly 4 digits''\<rparr>, st)
      else if crypto_verifyPin env (pu_pin f) hdata
      then (True, f\<lparr>pu_error := [], pu_isLoading := False\<rparr>,
            unlockSession now (ls_remove ''nvj_pinLockoutEnd'' (ls_remove ''nvj_pinAttempts'' st)))
      else
        (let n = map_option (\<lambda>k. k + 1) (pu_attemptCount f);
             st1 = ls_set ''nvj_pinAttempts'' (js_num_str n) st
         in if (case n of Some k \<Rightarrow> pu_MAX_ATTEMPTS \<le> k | None \<Rightarrow> False)
            then (False, f\<lparr>pu_attemptCount := n, pu_isLocked := True,
                           pu_lockEndTime := Some (now + pu_LOCKOUT_DURATION),
                           pu_error := ''Too many failed attempts. Please wait 5 minutes before trying again.'',
                           pu_pin := [], pu_isLoading := False\<rparr>,
                  ls_set ''nvj_pinLockoutEnd'' (dec_int (now + pu_LOCKOUT_DURATION)) st1)
            else (False, f\<lparr>pu_attemptCount := n,
                           pu_error := pin_error_message (Wrong_pin (map_option (\<lambda>k. pu_MAX_ATTEMPTS - k) n)),
                           pu_pin := [], pu_isLoading := False\<rparr>, st1)))"

definition pu_handlePinChange :: "string \<Rightarrow> pin_unlock \<Rightarrow> pin_unlock" where
  "pu_handlePinChange value f =
     (if pu_isLocked f then f
      else f\<lparr>pu_pin := sanitize_pin value,
             pu_error := (if pu_error f \<noteq> [] \<and> \<not> js_includes ''Too many'' (pu_error f) then [] else pu_error f)\<rparr>)"

definition pu_enter_allowed :: "pin_unlock \<Rightarrow> bool" where
  "pu_enter_allowed f \<longleftrightarrow> length (pu_pin f) = 4 \<and> \<not> pu_isLoading f \<and> \<not> pu_isLocked f"

text \<open>The correspondence with the provider's state on the fields both keep.\<close>

definition pu_agrees :: "pin_unlock \<Rightarrow> pin_state \<Rightarrow> bool" where
  "pu_agrees f ps \<longleftrightarrow> pu_attemptCount f = attemptCount ps \<and> pu_isLocked f = isTemporaryLocked ps
     \<and> pu_lockEndTime f = lockoutEndTime ps"

section \<open>Lemmas\<close>

lemma pu_mount_agrees:
  "pu_agrees f ps \<Longrightarrow> snd (pu_mount now f st) = snd (initializePinState now (ps, st))
     \<and> pu_agrees (fst (pu_mount now f st)) (fst (initializePinState now (ps, st)))"
  by (auto simp: pu_mount_def pu_agrees_def pu_MAX_ATTEMPTS_def Let_def split: option.splits)

text \<open>
  C18. The unused \<open>PinUnlock\<close> screen and the provider agree: from matching attempt
  counters and lockout state, submitting a PIN on \<open>PinUnlock\<close> leaves the store exactly as
  \<open>PinProvider.verifyPin\<close> leaves it (the attempt and lockout keys, the session lock),
  unlocks exactly when \<open>verifyPin\<close> succeeds, and after a refusal keeps the same counter
  and lockout as the provider.
\<close>

theorem pinUnlock_submit_matches_verifyPin:
  assumes "pu_agrees f ps" "pin_hash_data ps = Some hdata" "pu_pin f = p"
  shows "snd (snd (pu_handleSubmit env now hdata f st)) = snd (snd (verifyPin env now p (ps, st)))
     \<and> (fst (pu_handleSubmit env now hdata f st) \<longleftrightarrow> fst (verifyPin env now p (ps, st)) = Inr ())
     \<and> (\<not> fst (pu_handleSubmit env now hdata f st) \<longrightarrow>
          pu_agrees (fst (snd (pu_handleSubmit env now hdata f st))) (fst (snd (verifyPin env now p (ps, st)))))"
  using assms
  by (auto simp: pu_handleSubmit_def pu_agrees_def pu_MAX_ATTEMPTS_def pu_LOCKOUT_DURATION_def Let_def
           split: option.splits)

lemma pu_tick_agrees:
  "pu_agrees f ps \<Longrightarrow> snd (pu_tick now f st) = snd (lockoutTimer now (ps, st))
     \<and> pu_agrees (fst (pu_tick now f st)) (fst (lockoutTimer now (ps, st)))"
  by (auto simp: pu_tick_def pu_agrees_def split: option.splits)

theorem pinUnlock_submit_matches_verifyPin_witness:
  "snd (snd (pu_handleSubmit demo_env 5000 demo_hash (pin_unlock0\<lparr>pu_pin := ''1111''\<rparr>) demo_store))
   = snd (snd (verifyPin demo_env 5000 ''1111'' (demo_locked, demo_store)))"
proof -
  have a: "pu_agrees (pin_unlock0\<lparr>pu_pin := ''1111''\<rparr>) demo_locked"
    by (simp add: pu_agrees_def pin_unlock0_def demo_locked_def initial_pin_state_def)
  have h: "pin_hash_data demo_locked = Some demo_hash" by (simp add: demo_eval)
  show ?thesis
    using pinUnlock_submit_matches_verifyPin [OF a h, of "''1111''" demo_env 5000 demo_store] by simp
qed

end
