(* ===== verification/Spec2Isabelle.thy ===== *)
theory Spec2Isabelle
  imports Journal SettingsPage EntriesViews Onboarding PinUnlock
begin

text \<open>
  \<^bold>\<open>A verification library for the negative-visualization journal.\<close>

  The program is a client-side journaling app.  Its core is a durable store (Dexie tables
  \<open>settings\<close>, \<open>prompts\<close>, \<open>entries\<close>, \<open>streakSummary\<close> plus namespaced \<open>localStorage\<close> keys)
  and four components that read and write it: the streak engine, the prompt scheduler,
  the session lock with its PIN crypto, and the telemetry outbox.  A zustand store holds
  the UI state and routes between screens; React screens call the core: onboarding, the
  journaling form and the Today card, the history screens, the settings pages, the lock
  screen.  The library models each part as a shallow embedding, one theory per
  component, in the order the components build on each other:

  \<^item> \<open>Prelude\<close>: time (\<open>ms\<close>, local and UTC days), the JavaScript helpers the code relies
    on (\<open>%\<close> with the sign of the dividend, out-of-range array reads, \<open>??\<close>, \<open>parseInt\<close>,
    \<open>trim\<close>, \<open>includes\<close>, decimal printing), Dexie tables as association lists
    (\<open>put\<close>, \<open>add\<close> with its \<open>ConstraintError\<close>, \<open>delete\<close>, \<open>toArray\<close> in key order), toast
    kinds, and the collections \<open>table_simps\<close> and \<open>js_simps\<close>.
  \<^item> \<open>Store\<close> (\<open>src/src/lib/database.ts\<close>): the rows as records, the store as a record of
    tables and browser storage, singleton initialisation, per-date counts, the 24-hour
    edit window, recent entries, quota pruning, \<open>localStorage\<close> access, \<open>wipeAllData\<close>,
    \<open>deleteAllData\<close> with its other-tab refusal, and the export document.  \<open>store_ok\<close>
    (unique keys, rows stored under their own id) is the schema invariant every writer
    keeps.
  \<^item> \<open>Streak\<close>: \<open>dbUtils.updateStreak\<close>, validation and recovery, reset with backup, and the
    new-entry branch of \<open>handleSave\<close>.
  \<^item> \<open>Prompts\<close> (\<open>src/unnamed/part_012\<close>): the seed catalogue, the LCG \<open>pseudoRandom\<close>, the
    daily default, the once-a-day swap, \<open>getCurrentPrompt\<close> with its fallback, seeding.
  \<^item> \<open>PinCrypto\<close> (\<open>cryptoUtils\<close> in \<open>TodayCard.tsx\<close>): PIN format, base64, PBKDF2 hashing
    and verification, and the 32-bit XOR/OR constant-time comparison on \<open>32 word\<close>.
    \<open>btoa\<close>, \<open>atob\<close> and PBKDF2 are platform functions in a record \<open>crypto_env\<close>;
    \<open>env_ok\<close> states the laws the proofs use (\<open>atob\<close> inverts \<open>btoa\<close>, derivation succeeds
    for a positive iteration count with 32 bytes), and \<open>demo_env\<close> satisfies them.
  \<^item> \<open>Session\<close> (\<open>PinProvider\<close> and \<open>sessionUtils\<close> in \<open>TodayCard.tsx\<close>, the lock screen of
    \<open>part_009\<close>, the guard of \<open>part_002\<close>, the forms of \<open>SecuritySettings.tsx\<close>): the provider
    state with the store, every handler and effect as a function on it, the event step
    \<open>pin_step\<close> gated by the view that offers the event, timed runs \<open>pin_run\<close>, and the
    reachable set \<open>pin_reach\<close> as an inductive predicate.  \<open>pin_reach\<close> has the lock's own
    events only; the other writers of the settings row (telemetry toggle, notification
    save, onboarding) can make the provider's cached row differ from the stored one, which
    C39 composes, so no claim says the two agree.
  \<^item> \<open>Telemetry\<close> (\<open>src/src/lib/telemetry.ts\<close>): the outbox queue and its persisted copy,
    settings access with \<open>||\<close> and \<open>??\<close>, event creation, the drain \<open>processQueue\<close> with
    retry counts and backoff, the three triggers, opt-in and opt-out, runs of calls.
  \<^item> \<open>Journal\<close> (\<open>PromptEntry.tsx\<close>, \<open>TodayCard.tsx\<close>): \<open>loadTodayPrompt\<close>, \<open>validateForm\<close>,
    \<open>handleSave\<close> composing prompt, streak and telemetry, \<open>loadTodayData\<close> and
    \<open>handleSwapPrompt\<close>.
  \<^item> \<open>AppStore\<close> (\<open>useAppStore\<close> at the end of \<open>database.ts\<close>, \<open>Home\<close> of \<open>part_001\<close>): the UI
    state with one action per setter, the \<open>persist\<close> middleware's write of
    \<open>isFirstLaunch\<close> and \<open>currentView\<close> and its rehydration, and the choice of screen.
  \<^item> \<open>Toasts\<close> (\<open>src/src/components/ui/toast.tsx\<close>): the toast list, ids from the clock,
    removal by id.
  \<^item> \<open>Notifications\<close> (\<open>part_013\<close>, \<open>NotificationSettings\<close> of \<open>part_007\<close>): scheduling of the
    daily reminder with the module's single pending timeout, its timer callback, the
    in-app reminder window, the test notification and the component's handlers.  The
    Notification API is a record of inputs.
  \<^item> \<open>SettingsPage\<close> (\<open>part_004\<close>, \<open>part_010\<close>): the telemetry toggle, streak reset, export,
    deletion and its typed confirmation, the reminder effect, next to the provider's
    lock-timeout change.
  \<^item> \<open>EntriesViews\<close> (\<open>Last7DaysView\<close> of \<open>part_008\<close>, \<open>AllEntriesView\<close> of \<open>part_010\<close>): loads,
    edit, delete with undo toasts, pagination and the page buttons.  Both load effects
    depend on \<open>addToast\<close>, which the provider recreates on every render, so each toast
    change runs them again; \<open>effect_loop\<close> is a \<open>partial_function (option)\<close> whose value
    \<open>None\<close> is the loop of a load that keeps failing.
  \<^item> \<open>PinForms\<close> (\<open>PinEntry.tsx\<close>, \<open>PinSetup.tsx\<close>, \<open>onboarding/pin-setup.tsx\<close>, the lock
    screen's \<open>handleVerifyPin\<close>): the forms' states and handlers; a call into the provider
    is composed with \<open>Session\<close>, a callback that can throw takes its answer as an input.
  \<^item> \<open>Onboarding\<close> (\<open>OnboardingFlow\<close> of \<open>part_005\<close>, \<open>cue-setup.tsx\<close>): the steps and
    \<open>completeOnboarding\<close>, composing settings initialisation, seeding, the streak row, the
    telemetry opt-in and the app store; \<open>tel_only\<close> is the frame relation saying that the
    telemetry calls change the settings row's telemetry fields and nothing else.
  \<^item> \<open>PinUnlock\<close> (\<open>part_004\<close>, lines 689--813): an unlock screen no view renders, with its
    own attempt counter and lockout; its mount, countdown and submit act on the store as
    the provider's \<open>initializePinState\<close>, lockout timer and \<open>verifyPin\<close> do.

  State is passed explicitly: each handler takes the store (and its component state) and
  returns the new ones; exceptions are values (\<open>Inl\<close>, \<open>None\<close>) and the model follows the
  catch blocks of the source.  Clock readings, \<open>Math.random()\<close> draws, the network's answers,
  the user's answer to a permission request and the other-tab probe are parameters.  An
  asynchronous handler runs to completion before the next event (the app's own
  re-entrancy flags then always read false).

  \<^bold>\<open>What the lemmas show.\<close>
  The streak engine counts consecutive days and resets on gaps (C1--C4).  The load
  effects of both history screens settle exactly when some run succeeds: a failed run's
  error toast changes the effect's \<open>addToast\<close> dependency and so runs it again (C5).
  The scheduler's swap is persistent and once a day (C6--C8); \<open>getCurrentPrompt\<close> is
  total for a sane clock (C9); the LCG has only two defaults for 1972 days and its
  fallback disagrees with the stored default (C10, C11); a clock 610 to 3189 days behind
  yields no prompt (C13); seeding is idempotent (C14).  A PIN chosen in onboarding
  survives the page load and unlocks the lock screen, the app routing to Today (C12).
  The constant-time comparison is equality, a hashed PIN verifies and a different one
  does not (C15--C17).  The unused \<open>PinUnlock\<close> screen acts on the store as
  \<open>verifyPin\<close> does (C18).  A lockout cannot be bypassed by any event but the wipe, the
  lock screen is left only by a verified PIN or the wipe, and the handlers behave as
  specified on each branch; the start-up check, the disable form (which counts toward a
  lockout the lock screen does not show) and a corrupt counter diverge from the
  specification (C19--C26).  The retry chain of the outbox ends, drains are FIFO with
  bounded backoff, opting in or out never touches the journal tables (C29), opting out
  gates the queue and keeps the anonymous id, daily completions are sent once per UTC
  day, and the D7 flag is cleared on every day past the seventh of a streak
  (C27, C28, C30--C32, C35).  Every event of the all-entries screen keeps its page in
  range and its totals and page equal to the store (C33), and its pages partition the
  stored entries newest first (C34).  Across components: an edit re-sends a daily
  completion, a missing prompt blocks saving, a swap survives a reload, a page open past
  midnight overwrites yesterday's entry (C36--C38, C40), and a lock-timeout change undoes
  an opt-out (C39).  The last section of this theory shows that the reminder chosen in
  onboarding is stored disabled, so the settings page's effect clears it.

  \<^bold>\<open>Bounds and fuel.\<close>
  \<open>pseudoRandom\<close> computes on \<open>int\<close>: the double arithmetic of the source is exact below
  \<open>2^53\<close>, which covers every day count the theorems use (0..1971 days, and 610 days
  before install).  The outbox needs no fuel: \<open>drain\<close> is structural, and the chain of
  drains is bounded by the queue weight (six minus the retries of each event), so
  \<open>6 * length queue\<close> drains empty a queue with distinct ids.  The re-run of a load effect
  takes no fuel either: \<open>effect_loop\<close> is a partial function, and C5 says when it returns.
  C13 covers clocks 610 to 3189 days behind: beyond that the LCG value wraps modulo
  \<open>2^32\<close> and the index is no longer determined by the day's parity.
  Timed runs of the lock are finite lists of events.  PBKDF2 uses 100000 iterations; the
  theorems hold for any positive count.

  \<^bold>\<open>Not modelled.\<close>
  Rendering, layout, animations and banners (the remaining presentation components,
  \<open>VideoNudge\<close> included: it only plays media); the service worker and notification
  display beyond recording what is shown; the countdown \<open>Timer\<close> of \<open>PromptEntry\<close>; the
  unused \<open>localStorageDB\<close> fallback of \<open>database.ts\<close> (no caller); Dexie exceptions other than \<open>ConstraintError\<close>; daylight-saving changes
  within a day (local time is UTC plus a fixed offset); concurrency between tabs beyond
  the probe that \<open>deleteAllData\<close> consults; the wire format of \<open>fetch\<close>.
\<close>


section \<open>Onboarding and the reminder\<close>

text \<open>
  The cue time chosen during onboarding is stored without \<open>dailyCueEnabled\<close>: on a first
  launch the row written by \<open>completeOnboarding\<close> has the cue time and the flag still
  false, so the settings page's reminder effect on that row clears the reminder instead
  of scheduling it.
\<close>

lemma onboarding_reminder_cleared:
  assumes "store_ok (o_db c)" "db_prompts (o_db c) = []" "get_settings (o_db c) = None" "t \<noteq> []"
  shows "\<exists>s'. get_settings (o_db (completeOnboarding cx net (Some t) b c)) = Some s'
           \<and> dailyCueTime s' = Some t \<and> \<not> dailyCueEnabled s'
           \<and> activeTimeout (settingsNotificationEffect env now (Some s') ns) = None"
proof -
  have i: "initializeSettings (t_now cx) (o_db c) =
      (default_settings (t_now cx), put_settings (default_settings (t_now cx)) (o_db c))"
    using assms(3) by (simp add: initializeSettings_def)
  obtain s' where g: "get_settings (o_db (completeOnboarding cx net (Some t) b c)) = Some s'"
    and s': "strip_tel s' = strip_tel (onboarding_settings (default_settings (t_now cx)) (o_pinData c) (Some t) b)"
    using completeOnboarding_fresh(1) [OF assms(1,2) i] by blast
  have "dailyCueTime s' = Some t" "\<not> dailyCueEnabled s'"
    using arg_cong [OF s', of dailyCueTime] arg_cong [OF s', of dailyCueEnabled] assms(4)
    by (simp_all add: onboarding_settings_def default_settings_def Let_def split: option.splits)
  then show ?thesis
    using g by (simp add: settingsNotificationEffect_def clearScheduledNotification_def)
qed

end
